(* ===== verification/C_Memory.thy ===== *)
theory C_Memory
  imports Main "HOL-Library.Word" "HOL-Library.Monad_Syntax"
begin

unbundle bit_operations_syntax

text \<open>
  Prelude: the machine types, bounds-checked memory objects and the library routines of C
  that the components share.

  A C object (a string, an address, a character buffer) is a list of bytes.  Every read and
  every write of the code goes through \<open>rd\<close> and \<open>wr\<close>, which answer \<open>None\<close> when the access is
  outside the object, so a theorem of the form \<open>f \<dots> = Some r\<close> also says that the code made no
  out-of-bounds access.  The collection \<open>cmem\<close> holds the rules that run such code on a buffer
  split at the cursor.
\<close>

section \<open>Machine types\<close>

type_synonym byte = "8 word"
type_synonym u16 = "16 word"
type_synonym u32 = "32 word"
type_synonym u64 = "64 word"

named_theorems cmem "rules that evaluate checked memory accesses"
named_theorems return_iff "inversion of successful runs of the option monad"

lemma sint_small:
  assumes "unat (w :: u32) < 2147483648"
  shows "sint w = int (unat w)"
proof -
  have "nat (uint w) < 2147483648" using assms by (simp only: unat_eq_nat_uint)
  then have "uint w < 2147483648" by linarith
  then show ?thesis
    using signed_take_bit_int_eq_self [of 31 "uint w"] uint_ge_0 [of w]
    by (simp only: sint_uint len_num0 len_bit0 len_num1) simp
qed

section \<open>Checked memory\<close>

definition rd :: "byte list \<Rightarrow> nat \<Rightarrow> byte option" where
  "rd b i = (if i < length b then Some (b ! i) else None)"

definition wr :: "byte list \<Rightarrow> nat \<Rightarrow> byte \<Rightarrow> byte list option" where
  "wr b i v = (if i < length b then Some (b[i := v]) else None)"

text \<open>\<open>memcpy\<close> into a buffer at an offset, \<open>memset\<close>, and \<open>memmove\<close> inside one buffer.\<close>

definition mem_write :: "byte list \<Rightarrow> nat \<Rightarrow> byte list \<Rightarrow> byte list option" where
  "mem_write b i vs =
     (if i + length vs \<le> length b then Some (take i b @ vs @ drop (i + length vs) b) else None)"

definition mem_read :: "byte list \<Rightarrow> nat \<Rightarrow> nat \<Rightarrow> byte list option" where
  "mem_read b i n = (if i + n \<le> length b then Some (take n (drop i b)) else None)"

definition mem_set :: "byte list \<Rightarrow> nat \<Rightarrow> byte \<Rightarrow> nat \<Rightarrow> byte list option" where
  "mem_set b i v n = mem_write b i (replicate n v)"

definition mem_move :: "byte list \<Rightarrow> nat \<Rightarrow> nat \<Rightarrow> nat \<Rightarrow> byte list option" where
  "mem_move b dst src n = do { vs \<leftarrow> mem_read b src n; mem_write b dst vs }"

lemma bind_Some_iff [return_iff]: "Option.bind m f = Some y \<longleftrightarrow> (\<exists>x. m = Some x \<and> f x = Some y)"
  by (cases m) auto

lemma rd_Some_iff [return_iff]: "rd b i = Some v \<longleftrightarrow> i < length b \<and> v = b ! i"
  by (auto simp: rd_def)

lemma wr_Some_iff [return_iff]: "wr b i v = Some b' \<longleftrightarrow> i < length b \<and> b' = b[i := v]"
  by (auto simp: wr_def)

lemma rd_inside: "i < length b \<Longrightarrow> rd b i = Some (b ! i)"
  by (simp add: rd_def)

lemma wr_inside: "i < length b \<Longrightarrow> wr b i v = Some (b[i := v])"
  by (simp add: wr_def)

lemma rd_cursor [cmem]: "rd (pre @ x # post) (length pre) = Some x"
  by (simp add: rd_def)

lemma wr_cursor [cmem]: "wr (pre @ x # post) (length pre) v = Some (pre @ v # post)"
  by (simp add: wr_def)

lemma rd_past_prefix [simp]: "rd (pre @ post) (length pre + i) = rd post i"
  by (simp add: rd_def nth_append)

lemma wr_past_prefix [simp]: "wr (pre @ post) (length pre + i) v = map_option (append pre) (wr post i v)"
  by (simp add: wr_def list_update_append)

lemma rd_prefix: "rd (pre @ post) (length pre) = rd post 0"
  using rd_past_prefix [of pre post 0] by simp

lemma wr_prefix: "wr (pre @ post) (length pre) v = map_option (append pre) (wr post 0 v)"
  using wr_past_prefix [of pre post 0] by simp

lemma rd_Cons [simp]: "rd (x # xs) 0 = Some x" "rd (x # xs) (Suc i) = rd xs i"
  by (simp_all add: rd_def)

lemma wr_Cons [simp]:
  "wr (x # xs) 0 v = Some (v # xs)"
  "wr (x # xs) (Suc i) v = map_option ((#) x) (wr xs i v)"
  by (simp_all add: wr_def)

lemma rd_Cons_numeral [simp]: "rd (x # xs) (numeral k) = rd xs (pred_numeral k)"
  by (simp add: numeral_eq_Suc)

lemma wr_Cons_numeral [simp]: "wr (x # xs) (numeral k) v = map_option ((#) x) (wr xs (pred_numeral k) v)"
  by (simp add: numeral_eq_Suc)

lemma rd_append_ge [cmem]: "length pre \<le> i \<Longrightarrow> rd (pre @ post) i = rd post (i - length pre)"
  by (auto simp: rd_def nth_append)

lemma wr_append_ge [cmem]:
  "length pre \<le> i \<Longrightarrow> wr (pre @ post) i v = map_option (append pre) (wr post (i - length pre) v)"
  by (auto simp: wr_def list_update_append)

lemma rd_out_of_bounds [simp]: "length b \<le> i \<Longrightarrow> rd b i = None"
  by (simp add: rd_def)

lemma wr_length: "wr b i v = Some b' \<Longrightarrow> length b' = length b"
  by (auto simp: wr_def split: if_splits)

lemma mem_write_length: "mem_write b i vs = Some b' \<Longrightarrow> length b' = length b"
  by (auto simp: mem_write_def split: if_splits)

lemma mem_write_cursor [cmem]:
  "length old = length vs \<Longrightarrow> mem_write (pre @ old @ post) (length pre) vs = Some (pre @ vs @ post)"
  by (simp add: mem_write_def)

text \<open>The first \<open>n\<close> bytes of an answer, filled up with zeros.\<close>

definition pad :: "nat \<Rightarrow> byte list \<Rightarrow> byte list" where
  "pad n xs = take n (xs @ replicate n 0)"

lemma length_pad [simp]: "length (pad n xs) = n"
  by (simp add: pad_def min_def)

lemma list_split_first: "n < length xs \<Longrightarrow> \<exists>y ys. drop n xs = y # ys"
  by (metis drop_eq_Nil leD list.exhaust)

lemma length_gt_1: "1 < length xs \<Longrightarrow> \<exists>a b ys. xs = a # b # ys"
  by (cases xs; cases "tl xs") auto

lemma length_gt_2: "2 < length xs \<Longrightarrow> \<exists>a b c ys. xs = a # b # c # ys"
  by (cases xs; cases "tl xs"; cases "tl (tl xs)") auto

lemma length_gt_3: "3 < length xs \<Longrightarrow> \<exists>a b c d ys. xs = a # b # c # d # ys"
  by (cases xs; cases "tl xs"; cases "tl (tl xs)"; cases "tl (tl (tl xs))") auto

lemma unat_byte_less [simp]: "unat (b :: byte) < 256"
  using unsigned_less [of b, where ?'a = nat] by simp

lemma unat_u16_less [simp]: "unat (w :: u16) < 65536"
  using unsigned_less [of w, where ?'a = nat] by simp

lemma unat_u32_less [simp]: "unat (w :: u32) < 4294967296"
  using unsigned_less [of w, where ?'a = nat] by simp

section \<open>Character codes\<close>

text \<open>
  Characters are bytes; the codes the parsers compare with are named here.  Whether \<open>char\<close> is
  signed does not matter to them: no byte above 127 passes any of the range tests.
\<close>

abbreviation chr_0 :: byte where "chr_0 \<equiv> 48"
abbreviation chr_9 :: byte where "chr_9 \<equiv> 57"
abbreviation chr_dot :: byte where "chr_dot \<equiv> 46"
abbreviation chr_slash :: byte where "chr_slash \<equiv> 47"
abbreviation chr_colon :: byte where "chr_colon \<equiv> 58"
abbreviation chr_A :: byte where "chr_A \<equiv> 65"
abbreviation chr_F :: byte where "chr_F \<equiv> 70"
abbreviation chr_a :: byte where "chr_a \<equiv> 97"
abbreviation chr_f :: byte where "chr_f \<equiv> 102"

text \<open>What a reader of a C string sees of a buffer: the bytes before the first NUL.\<close>

definition cstr :: "byte list \<Rightarrow> byte list" where
  "cstr b = takeWhile (\<lambda>c. c \<noteq> 0) b"

lemma cstr_append_nul: "0 \<notin> set xs \<Longrightarrow> cstr (xs @ 0 # ys) = xs"
  unfolding cstr_def by (induction xs) auto

section \<open>Formatted output\<close>

text \<open>
  \<open>snprintf (p, size, fmt, \<dots>)\<close>: at most \<open>size - 1\<close> characters of the text are stored, then a
  NUL; the result is the length of the whole text, whatever was stored.
\<close>

definition snprintf_text :: "byte list \<Rightarrow> nat \<Rightarrow> nat \<Rightarrow> byte list \<Rightarrow> (byte list \<times> nat) option" where
  "snprintf_text buf pos sz txt =
     (if sz = 0 then Some (buf, length txt)
      else do { buf \<leftarrow> mem_write buf pos (take (sz - 1) txt @ [0]); Some (buf, length txt) })"

text \<open>Digits of a number, most significant first: the text of \<open>%u\<close> and \<open>%x\<close>.\<close>

definition hex_chr :: "nat \<Rightarrow> byte" where
  "hex_chr d = (if d < 10 then of_nat (48 + d) else of_nat (87 + d))"

fun digits_of :: "nat \<Rightarrow> nat \<Rightarrow> nat list" where
  "digits_of base n = (if base < 2 \<or> n < base then [n] else digits_of base (n div base) @ [n mod base])"

declare digits_of.simps [simp del]

definition dec_text :: "nat \<Rightarrow> byte list" where
  "dec_text n = map (\<lambda>d. of_nat (48 + d)) (digits_of 10 n)"

definition hex_text :: "nat \<Rightarrow> byte list" where
  "hex_text n = map hex_chr (digits_of 16 n)"

lemma digits_of_nonempty [simp]: "digits_of b n \<noteq> []"
  by (subst digits_of.simps) simp

lemma digits_of_bound: "2 \<le> b \<Longrightarrow> d \<in> set (digits_of b n) \<Longrightarrow> d < b"
proof (induction b n rule: digits_of.induct)
  case (1 base n)
  then show ?case
    by (subst (asm) (2) digits_of.simps) (auto split: if_splits)
qed

lemma digits_of_value: "2 \<le> b \<Longrightarrow> foldl (\<lambda>v d. v * b + d) 0 (digits_of b n) = n"
proof (induction b n rule: digits_of.induct)
  case (1 base n)
  then show ?case
    by (subst digits_of.simps) simp
qed

lemma digits_of_length: "2 \<le> b \<Longrightarrow> n < b ^ Suc k \<Longrightarrow> length (digits_of b n) \<le> Suc k"
proof (induction k arbitrary: n)
  case 0
  then show ?case by (subst digits_of.simps) simp
next
  case (Suc k)
  then have "n div b < b ^ Suc k"
    by (simp add: less_mult_imp_div_less mult.commute)
  with Suc show ?case
    by (subst digits_of.simps) simp
qed

lemma dec_text_3:
  "dec_text n = (if n < 10 then [of_nat (48 + n)]
     else if n < 100 then [of_nat (48 + n div 10), of_nat (48 + n mod 10)]
     else dec_text (n div 100) @ [of_nat (48 + n div 10 mod 10), of_nat (48 + n mod 10)])"
proof -
  have "n div 10 div 10 = n div 100" by (simp add: div_mult2_eq [symmetric])
  then show ?thesis
    by (simp add: dec_text_def digits_of.simps [of 10 n] digits_of.simps [of 10 "n div 10"]) linarith
qed

end
