(* ===== verification/Ip4_String.thy ===== *)
theory Ip4_String
  imports C_Memory
begin

unbundle bit_operations_syntax

text \<open>
  The IPv4 text conversions of \<open>mbed-os-netsocket/common/src/libip4string\<close>: \<open>ip4tos\<close> writes an
  address as dotted decimal into a caller's buffer, \<open>stoip4\<close> parses the same notation.  Both
  work byte by byte on checked memory, so \<open>Some\<close> results carry memory safety.
\<close>

section \<open>Printing\<close>

text \<open>The \<open>do \<dots> while\<close> loop of \<open>ipv4_tostring\<close>: digits, least significant first.\<close>

function ipv4_put_digits :: "byte list \<Rightarrow> nat \<Rightarrow> byte \<Rightarrow> nat \<Rightarrow> (byte list \<times> nat \<times> nat) option" where
  "ipv4_put_digits p string b digits_written =
     do {
       p \<leftarrow> wr p string (chr_0 + b mod 10);
       let b' = b div 10;
       if b' \<noteq> 0 then ipv4_put_digits p (Suc string) b' (Suc digits_written)
       else Some (p, Suc string, Suc digits_written)
     }"
  by pat_completeness auto
termination
proof (relation "measure (\<lambda>(p, string, b, n). unat b)", goal_cases)
  case 1
  show ?case by simp
next
  case (2 p string b n p' b')
  have "unat b div 10 < unat b" if "unat b div 10 \<noteq> 0"
    using that by (cases "unat b = 0") auto
  moreover have "unat b' = unat b div 10"
    using 2 by (simp add: unat_div)
  ultimately show ?case using 2 by (auto simp: unat_eq_0 [symmetric])
qed

declare ipv4_put_digits.simps [simp del]

text \<open>The swap loop: \<open>lo\<close> is \<open>baseString\<close>, \<open>hi\<close> is \<open>string\<close>.\<close>

function ipv4_swap :: "byte list \<Rightarrow> nat \<Rightarrow> nat \<Rightarrow> byte list option" where
  "ipv4_swap p lo hi =
     (if lo < hi then
        do {
          tmp \<leftarrow> rd p hi;
          c \<leftarrow> rd p lo;
          p \<leftarrow> wr p hi c;
          p \<leftarrow> wr p lo tmp;
          ipv4_swap p (Suc lo) (hi - 1)
        }
      else Some p)"
  by pat_completeness auto
termination
  by (relation "measure (\<lambda>(p, lo, hi). hi - lo)") auto

declare ipv4_swap.simps [simp del]

definition ipv4_tostring :: "byte list \<Rightarrow> nat \<Rightarrow> byte \<Rightarrow> (byte list \<times> nat) option" where
  "ipv4_tostring p string b =
     do {
       (p, end, digits_written) \<leftarrow> ipv4_put_digits p string b 0;
       p \<leftarrow> wr p end 0;
       p \<leftarrow> ipv4_swap p string (end - 1);
       Some (p, digits_written)
     }"

function ip4tos_loop :: "byte list \<Rightarrow> byte list \<Rightarrow> nat \<Rightarrow> nat \<Rightarrow> (byte list \<times> nat) option" where
  "ip4tos_loop byteArray p component outputPos =
     (if component < 4 then
        do {
          b \<leftarrow> rd byteArray component;
          (p, digits_written) \<leftarrow> ipv4_tostring p outputPos b;
          let outputPos = outputPos + digits_written;
          if component < 3 then
            do {
              p \<leftarrow> wr p outputPos chr_dot;
              ip4tos_loop byteArray p (Suc component) (Suc outputPos)
            }
          else ip4tos_loop byteArray p (Suc component) outputPos
        }
      else Some (p, outputPos))"
  by pat_completeness auto
termination
  by (relation "measure (\<lambda>(a, p, c, n). 4 - c)") auto

declare ip4tos_loop.simps [simp del]

definition ip4tos :: "byte list \<Rightarrow> byte list \<Rightarrow> (byte list \<times> nat) option" where
  "ip4tos ip4addr p = ip4tos_loop ip4addr p 0 0"

section \<open>Parsing\<close>

definition is_digit :: "byte \<Rightarrow> bool" where
  "is_digit c \<longleftrightarrow> chr_0 \<le> c \<and> c \<le> chr_9"

text \<open>
  The inner loop of \<open>stoip4\<close>: it returns the position behind the digits and the component's
  value, or \<open>Inl ()\<close> as soon as the value passes 255.
\<close>

function stoip4_digits :: "byte list \<Rightarrow> nat \<Rightarrow> nat \<Rightarrow> nat \<Rightarrow> (unit + nat \<times> nat) option" where
  "stoip4_digits ip4addr len stringLength b =
     (if stringLength < len then
        do {
          c \<leftarrow> rd ip4addr stringLength;
          if is_digit c then
            let b = b * 10 + unat (c - chr_0) in
            if b > 255 then Some (Inl ())
            else stoip4_digits ip4addr len (Suc stringLength) b
          else Some (Inr (stringLength, b))
        }
      else Some (Inr (stringLength, b)))"
  by pat_completeness auto
termination
  by (relation "measure (\<lambda>(s, len, i, b). len - i)") auto

declare stoip4_digits.simps [simp del]

text \<open>
  The outer loop.  \<open>byteCount\<close> counts the components already stored; the code leaves the loop
  when the fourth is stored, so the test \<open>byteCount == 4\<close> is \<open>4 \<le> byteCount\<close> on every call
  that starts below 4.
\<close>

function stoip4_loop :: "byte list \<Rightarrow> nat \<Rightarrow> nat \<Rightarrow> nat \<Rightarrow> byte list \<Rightarrow> (bool \<times> byte list) option" where
  "stoip4_loop ip4addr len stringLength byteCount addr =
     (if stringLength = len then Some (False, addr)
      else do {
        c \<leftarrow> rd ip4addr stringLength;
        if \<not> is_digit c then Some (False, addr)
        else do {
          r \<leftarrow> stoip4_digits ip4addr len stringLength 0;
          case r of
            Inl _ \<Rightarrow> Some (False, addr)
          | Inr (stringLength, b) \<Rightarrow>
              do {
                addr \<leftarrow> wr addr byteCount (of_nat b);
                let byteCount = Suc byteCount;
                if 4 \<le> byteCount then
                  if stringLength = len then Some (True, addr)
                  else do { c \<leftarrow> rd ip4addr stringLength; Some (c = 0, addr) }
                else if stringLength = len then Some (False, addr)
                else do {
                  c \<leftarrow> rd ip4addr stringLength;
                  if c \<noteq> chr_dot then Some (False, addr)
                  else stoip4_loop ip4addr len (Suc stringLength) byteCount addr
                }
              }
        }
      })"
  by pat_completeness auto
termination
  by (relation "measure (\<lambda>(s, len, i, bc, addr). 4 - bc)") auto

declare stoip4_loop.simps [simp del]

definition stoip4 :: "byte list \<Rightarrow> nat \<Rightarrow> byte list \<Rightarrow> (bool \<times> byte list) option" where
  "stoip4 ip4addr len dest =
     (if len > 16 then Some (False, dest) else stoip4_loop ip4addr len 0 0 dest)"

section \<open>Printing is correct\<close>

lemma digit_of_byte: "chr_0 + b mod 10 = of_nat (48 + unat b mod 10)"
  by (simp add: word_arith_nat_mod)

lemma byte_div_10: "unat (b div 10 :: byte) = unat b div 10"
  by (simp add: unat_div)

lemma byte_div_10_eq_0: "b div 10 = (0 :: byte) \<longleftrightarrow> unat b < 10"
  by (simp add: unat_0_iff [symmetric] byte_div_10) linarith

text \<open>The loop emits one, two or three digits: one rule for the last digit, one for the others.\<close>

lemma put_digits_last:
  "unat b < 10 \<Longrightarrow> ipv4_put_digits p i b n =
     do { p \<leftarrow> wr p i (of_nat (48 + unat b)); Some (p, Suc i, Suc n) }"
  by (subst ipv4_put_digits.simps) (simp add: digit_of_byte byte_div_10_eq_0 del: of_nat_add)

lemma put_digits_more:
  "10 \<le> unat b \<Longrightarrow> ipv4_put_digits p i b n =
     do { p \<leftarrow> wr p i (of_nat (48 + unat b mod 10)); ipv4_put_digits p (Suc i) (b div 10) (Suc n) }"
  by (subst ipv4_put_digits.simps) (simp add: digit_of_byte byte_div_10_eq_0 del: of_nat_add)

lemmas tostring_eval =
  ipv4_tostring_def put_digits_last put_digits_more dec_text_3 ipv4_swap.simps byte_div_10 cmem

lemma ipv4_tostring_text:
  assumes "length (dec_text (unat b)) < length rest"
  shows "ipv4_tostring (out @ rest) (length out) b =
    Some (out @ dec_text (unat b) @ 0 # drop (Suc (length (dec_text (unat b)))) rest,
          length (dec_text (unat b)))"
proof -
  consider "unat b < 10" | "10 \<le> unat b" "unat b < 100" | "100 \<le> unat b" by linarith
  then show ?thesis
  proof cases
    case 1
    with assms obtain r0 r1 rest' where "rest = r0 # r1 # rest'"
      using length_gt_1 [of rest] by (auto simp: dec_text_3)
    with 1 show ?thesis
      by (simp add: tostring_eval)
  next
    case 2
    with assms obtain r0 r1 r2 rest' where "rest = r0 # r1 # r2 # rest'"
      using length_gt_2 [of rest] by (auto simp: dec_text_3)
    with 2 show ?thesis
      by (simp add: tostring_eval div_less_iff_less_mult)
  next
    case 3
    have small: "unat b div 100 < 10" "unat b div 10 div 10 = unat b div 100"
      using unat_byte_less [of b] by (simp_all add: div_mult2_eq [symmetric] del: unat_byte_less)
    with 3 assms obtain r0 r1 r2 r3 rest' where "rest = r0 # r1 # r2 # r3 # rest'"
      using length_gt_3 [of rest] by (auto simp: dec_text_3)
    with 3 small show ?thesis
      by (simp add: tostring_eval)
  qed
qed

text \<open>Dotted decimal, and the buffer \<open>ip4tos\<close> leaves.\<close>

definition ip4_text :: "byte list \<Rightarrow> byte list" where
  "ip4_text a = dec_text (unat (a ! 0)) @ chr_dot # dec_text (unat (a ! 1)) @ chr_dot #
     dec_text (unat (a ! 2)) @ chr_dot # dec_text (unat (a ! 3))"

lemma dec_text_byte_length: "length (dec_text (unat (b :: byte))) \<le> 3"
proof -
  have "length (digits_of 10 (unat b)) \<le> Suc 2"
    by (rule digits_of_length) (use unat_byte_less [of b] in \<open>simp_all del: unat_byte_less\<close>)
  then show ?thesis by (simp add: dec_text_def)
qed

lemma dec_text_nonempty [simp]: "dec_text n \<noteq> []"
  by (simp add: dec_text_def)

lemma ip4_text_length: "length (ip4_text a) \<le> 15"
  using dec_text_byte_length [of "a ! 0"] dec_text_byte_length [of "a ! 1"]
    dec_text_byte_length [of "a ! 2"] dec_text_byte_length [of "a ! 3"]
  by (simp add: ip4_text_def)

text \<open>
  One round of the loop appends a component and its dot to what is written so far; \<open>p\<close> is the
  caller's buffer, of which the part behind the cursor is untouched.
\<close>

lemma ip4tos_loop_dot:
  assumes "c < 3" and "rd addr c = Some b" and "t = dec_text (unat b) @ [chr_dot]"
    and "length (out @ t) \<le> length p"
  shows "ip4tos_loop addr (out @ drop (length out) p) c (length out) =
    ip4tos_loop addr ((out @ t) @ drop (length (out @ t)) p) (Suc c) (length (out @ t))"
  using assms by (subst ip4tos_loop.simps) (simp add: ipv4_tostring_text cmem add.commute)

lemma ip4tos_loop_last:
  assumes "rd addr 3 = Some b" and "length (out @ dec_text (unat b)) < length p"
  shows "ip4tos_loop addr (out @ drop (length out) p) 3 (length out) =
    Some (out @ dec_text (unat b) @ 0 # drop (Suc (length (out @ dec_text (unat b)))) p,
          length (out @ dec_text (unat b)))"
  using assms
  by (simp add: ip4tos_loop.simps [of _ _ 3] ip4tos_loop.simps [of _ _ 4] ipv4_tostring_text add.commute)

lemma ip4tos_text:
  assumes "length a = 4" and "16 \<le> length p"
  shows "ip4tos a p = Some (ip4_text a @ 0 # drop (Suc (length (ip4_text a))) p, length (ip4_text a))"
proof -
  define t where "t i = dec_text (unat (a ! i)) @ [chr_dot]" for i
  have len: "length (t i) \<le> 4" for i
    using dec_text_byte_length [of "a ! i"] by (simp add: t_def)
  have rds: "rd a i = Some (a ! i)" if "i < 4" for i
    using that assms by (simp add: rd_inside)
  have "ip4tos a p = ip4tos_loop a ([] @ drop (length ([] :: byte list)) p) 0 (length ([] :: byte list))"
    by (simp add: ip4tos_def)
  also have "\<dots> = ip4tos_loop a (([] @ t 0) @ drop (length ([] @ t 0)) p) (Suc 0) (length ([] @ t 0))"
    by (rule ip4tos_loop_dot [OF _ rds t_def]) (use len [of 0] assms in auto)
  also have "\<dots> = ip4tos_loop a ((([] @ t 0) @ t (Suc 0)) @ drop (length (([] @ t 0) @ t (Suc 0))) p)
      (Suc (Suc 0)) (length (([] @ t 0) @ t (Suc 0)))"
    by (rule ip4tos_loop_dot [OF _ rds t_def]) (use len [of 0] len [of "Suc 0"] assms in auto)
  also have "\<dots> = ip4tos_loop a (((([] @ t 0) @ t (Suc 0)) @ t 2) @
      drop (length ((([] @ t 0) @ t (Suc 0)) @ t 2)) p) 3 (length ((([] @ t 0) @ t (Suc 0)) @ t 2))"
    using ip4tos_loop_dot [OF _ rds t_def, of 2 "t 0 @ t (Suc 0)" p]
      len [of 0] len [of "Suc 0"] len [of 2] assms by (simp add: numeral_2_eq_2 numeral_3_eq_3)
  also have "\<dots> = Some (ip4_text a @ 0 # drop (Suc (length (ip4_text a))) p, length (ip4_text a))"
    using ip4tos_loop_last [OF rds, of "t 0 @ t (Suc 0) @ t 2" p]
      len [of 0] len [of "Suc 0"] len [of 2] len [of 3] assms
    by (simp add: t_def ip4_text_def)
  finally show ?thesis .
qed

section \<open>Parsing is exact\<close>

text \<open>
  The grammar of dotted decimal: the fields of the list are in order, each nonempty and all
  digits with its value below 256, dots between them, and the text ends or is cut by a NUL.
\<close>

definition dec_value :: "byte list \<Rightarrow> nat" where
  "dec_value d = foldl (\<lambda>v c. v * 10 + unat (c - chr_0)) 0 d"

definition dec_field :: "byte list \<Rightarrow> byte \<Rightarrow> bool" where
  "dec_field d v \<longleftrightarrow> d \<noteq> [] \<and> list_all is_digit d \<and> dec_value d = unat v"

fun ip4_syntax :: "byte list \<Rightarrow> byte list \<Rightarrow> bool" where
  "ip4_syntax [] xs = False"
| "ip4_syntax [v] xs = (\<exists>d rest. xs = d @ rest \<and> dec_field d v \<and> (rest = [] \<or> hd rest = 0))"
| "ip4_syntax (v # vs) xs = (\<exists>d rest. xs = d @ chr_dot # rest \<and> dec_field d v \<and> ip4_syntax vs rest)"

lemma foldl_dec_ge: "b \<le> foldl (\<lambda>v c. v * 10 + unat (c - chr_0)) b d"
proof (induction d arbitrary: b)
  case (Cons c d)
  have "b \<le> b * 10 + unat (c - chr_0)" by simp
  also have "\<dots> \<le> foldl (\<lambda>v c. v * 10 + unat (c - chr_0)) (b * 10 + unat (c - chr_0)) d"
    by (rule Cons.IH)
  finally show ?case by simp
qed simp

text \<open>What the inner loop computes, on the text from the cursor to \<open>len\<close>.\<close>

lemma stoip4_digits_scan:
  assumes "len \<le> length s" and "i \<le> len" and "b \<le> 255"
  shows "stoip4_digits s len i b =
    (let d = takeWhile is_digit (drop i (take len s));
         v = foldl (\<lambda>v c. v * 10 + unat (c - chr_0)) b d
     in Some (if v > 255 then Inl () else Inr (i + length d, v)))"
  using assms
proof (induction s len i b rule: stoip4_digits.induct)
  case (1 s len i b)
  show ?case
  proof (cases "i < len")
    case True
    define c where "c = s ! i"
    have c: "rd s i = Some c" using True 1 by (simp add: rd_inside c_def)
    have split: "drop i (take len s) = c # drop (Suc i) (take len s)"
      using True 1 by (simp add: c_def Cons_nth_drop_Suc [symmetric])
    let ?b = "b * 10 + unat (c - chr_0)"
    show ?thesis
    proof (cases "is_digit c \<and> ?b \<le> 255")
      case digit: True
      then have "stoip4_digits s len i b = stoip4_digits s len (Suc i) ?b"
        using True c by (subst stoip4_digits.simps) (simp add: Let_def)
      then show ?thesis
        using 1(1) [OF True c] digit True "1.prems" by (simp add: split Let_def)
    next
      case False
      moreover have "255 < foldl (\<lambda>v c. v * 10 + unat (c - chr_0)) ?b d" if "255 < ?b" for d
        using foldl_dec_ge [of ?b d] that by linarith
      ultimately show ?thesis
        using True c "1.prems" by (subst stoip4_digits.simps) (auto simp add: split Let_def)
    qed
  next
    case False
    then show ?thesis using "1.prems" by (subst stoip4_digits.simps) simp
  qed
qed

text \<open>A parser on the text itself, without cursor and destination: the reference for the loop.\<close>

fun ip4_parse :: "nat \<Rightarrow> byte list \<Rightarrow> byte list option" where
  "ip4_parse 0 xs = None"
| "ip4_parse (Suc k) xs =
     (let d = takeWhile is_digit xs; r = dropWhile is_digit xs in
      if d = [] \<or> dec_value d > 255 then None
      else if k = 0 then (if r = [] \<or> hd r = 0 then Some [of_nat (dec_value d)] else None)
      else if r = [] \<or> hd r \<noteq> chr_dot then None
      else map_option ((#) (of_nat (dec_value d))) (ip4_parse k (tl r)))"

lemma not_digit [simp]: "\<not> is_digit chr_dot" "\<not> is_digit 0"
  by (simp_all add: is_digit_def)

lemma takeWhile_field:
  "list_all P d \<Longrightarrow> r = [] \<or> \<not> P (hd r) \<Longrightarrow> takeWhile P (d @ r) = d \<and> dropWhile P (d @ r) = r"
  by (induction d) (cases r; simp)+

lemma dec_field_takeWhile:
  "dec_field (takeWhile is_digit xs) v \<longleftrightarrow>
     takeWhile is_digit xs \<noteq> [] \<and> dec_value (takeWhile is_digit xs) = unat v"
  by (auto simp: dec_field_def list_all_iff dest: set_takeWhileD)

lemma ip4_syntax_last:
  "ip4_syntax [v] xs \<longleftrightarrow> dec_field (takeWhile is_digit xs) v \<and>
     (dropWhile is_digit xs = [] \<or> hd (dropWhile is_digit xs) = 0)"
proof
  assume "ip4_syntax [v] xs"
  then obtain d r where dr: "xs = d @ r" "dec_field d v" "r = [] \<or> hd r = 0" by auto
  then have "takeWhile is_digit xs = d \<and> dropWhile is_digit xs = r"
    unfolding dr(1) by (intro takeWhile_field) (auto simp: dec_field_def)
  with dr show "dec_field (takeWhile is_digit xs) v \<and>
      (dropWhile is_digit xs = [] \<or> hd (dropWhile is_digit xs) = 0)"
    by simp
next
  assume "dec_field (takeWhile is_digit xs) v \<and>
      (dropWhile is_digit xs = [] \<or> hd (dropWhile is_digit xs) = 0)"
  then show "ip4_syntax [v] xs"
    unfolding ip4_syntax.simps
    by (intro exI [of _ "takeWhile is_digit xs"] exI [of _ "dropWhile is_digit xs"]) simp
qed

lemma ip4_syntax_more:
  assumes "vs \<noteq> []"
  shows "ip4_syntax (v # vs) xs \<longleftrightarrow> dec_field (takeWhile is_digit xs) v \<and>
     dropWhile is_digit xs \<noteq> [] \<and> hd (dropWhile is_digit xs) = chr_dot \<and>
     ip4_syntax vs (tl (dropWhile is_digit xs))"
proof
  assume "ip4_syntax (v # vs) xs"
  with assms obtain d r where "xs = d @ chr_dot # r" "dec_field d v" "ip4_syntax vs r"
    by (cases vs) auto
  then show "dec_field (takeWhile is_digit xs) v \<and>
     dropWhile is_digit xs \<noteq> [] \<and> hd (dropWhile is_digit xs) = chr_dot \<and>
     ip4_syntax vs (tl (dropWhile is_digit xs))"
    using takeWhile_field [of is_digit d "chr_dot # r"] by (auto simp: dec_field_def)
next
  assume r: "dec_field (takeWhile is_digit xs) v \<and>
     dropWhile is_digit xs \<noteq> [] \<and> hd (dropWhile is_digit xs) = chr_dot \<and>
     ip4_syntax vs (tl (dropWhile is_digit xs))"
  then have "xs = takeWhile is_digit xs @ chr_dot # tl (dropWhile is_digit xs)"
    by (metis hd_Cons_tl takeWhile_dropWhile_id)
  with r assms show "ip4_syntax (v # vs) xs" by (cases vs) auto
qed

lemma unat_of_nat_byte: "n \<le> 255 \<Longrightarrow> unat (of_nat n :: byte) = n"
  by (simp add: unat_of_nat)

lemma ip4_parse_iff: "0 < k \<Longrightarrow> ip4_parse k xs = Some vs \<longleftrightarrow> length vs = k \<and> ip4_syntax vs xs"
proof (induction k xs arbitrary: vs rule: ip4_parse.induct)
  case (2 k xs)
  let ?d = "takeWhile is_digit xs"
  let ?r = "dropWhile is_digit xs"
  have field: "dec_field ?d v \<longleftrightarrow> ?d \<noteq> [] \<and> dec_value ?d \<le> 255 \<and> v = of_nat (dec_value ?d)" for v
    using unat_byte_less [of v]
    by (auto simp: dec_field_takeWhile unat_of_nat_byte simp del: unat_byte_less)
  show ?case
  proof (cases k)
    case 0
    then show ?thesis
      by (cases vs; cases "tl vs") (auto simp: Let_def ip4_syntax_last field simp del: ip4_syntax.simps(2))
  next
    case (Suc k')
    then have IH: "ip4_parse k (tl ?r) = Some ws \<longleftrightarrow> length ws = k \<and> ip4_syntax ws (tl ?r)"
      if "\<not> (?d = [] \<or> dec_value ?d > 255)" "\<not> (?r = [] \<or> hd ?r \<noteq> chr_dot)" for ws
      using 2(1) [OF refl refl] that by simp
    show ?thesis
    proof (cases vs)
      case Nil
      then show ?thesis using Suc by (auto simp: Let_def)
    next
      case (Cons v ws)
      show ?thesis
      proof (cases "ws = []")
        case True
        then show ?thesis using Suc Cons IH by (auto simp: Let_def)
      next
        case False
        then show ?thesis
          using Suc Cons IH [of ws] by (auto simp: Let_def ip4_syntax_more field)
      qed
    qed
  qed
qed simp

text \<open>The loop computes the reference parser on the text from the cursor on.\<close>

lemma stoip4_loop_parse:
  assumes "len \<le> length s" and "i \<le> len" and "bc < 4" and "length addr = 4"
  shows "\<exists>addr'. length addr' = 4 \<and> stoip4_loop s len i bc addr =
    Some (case ip4_parse (4 - bc) (drop i (take len s)) of
            None \<Rightarrow> (False, addr') | Some vs \<Rightarrow> (True, take bc addr @ vs))"
  using assms
proof (induction s len i bc addr rule: stoip4_loop.induct)
  case (1 s len i bc addr)
  define xs where "xs = drop i (take len s)"
  define d where "d = takeWhile is_digit xs"
  define r where "r = dropWhile is_digit xs"
  define j where "j = i + length d"
  obtain k where k: "4 - bc = Suc k" using "1.prems" by (cases "4 - bc") auto
  have xs: "xs = d @ r" "length xs = len - i" using "1.prems" by (simp_all add: d_def r_def xs_def)
  then have j: "j \<le> len" using "1.prems" by (simp add: j_def)
  have r: "r = drop j (take len s)"
    using xs(1) by (metis append_eq_conv_conj drop_drop j_def xs_def add.commute)
  then have r_empty: "r = [] \<longleftrightarrow> j = len" using "1.prems" j by auto
  have rdr: "rd s j = Some (hd r)" if "j \<noteq> len"
    using that j "1.prems" by (simp add: r rd_inside hd_drop_conv_nth)
  have tlr: "tl r = drop (Suc j) (take len s)" by (simp add: r drop_Suc tl_drop)
  have d_empty: "d = [] \<longleftrightarrow> i = len \<or> \<not> is_digit (s ! i)"
    using "1.prems" by (cases "i = len") (simp_all add: d_def xs_def Cons_nth_drop_Suc [symmetric])
  have scan: "stoip4_digits s len i 0 = Some (if dec_value d > 255 then Inl () else Inr (j, dec_value d))"
    using stoip4_digits_scan [of len s i 0] "1.prems"
    by (simp add: Let_def dec_value_def d_def xs_def j_def)
  have parse: "ip4_parse (4 - bc) xs =
     (if d = [] \<or> dec_value d > 255 then None
      else if k = 0 then (if r = [] \<or> hd r = 0 then Some [of_nat (dec_value d)] else None)
      else if r = [] \<or> hd r \<noteq> chr_dot then None
      else map_option ((#) (of_nat (dec_value d))) (ip4_parse k (tl r)))"
    by (simp add: k d_def r_def Let_def)
  let ?a = "addr[bc := of_nat (dec_value d)]"
  have wra: "wr addr bc (of_nat (dec_value d)) = Some ?a" using "1.prems" by (simp add: wr_def)
  show ?case
  proof (cases "d = [] \<or> dec_value d > 255")
    case True
    then show ?thesis
      using "1.prems" d_empty scan
      by (subst stoip4_loop.simps) (auto simp: rd_def parse xs_def [symmetric] intro!: exI [of _ addr])
  next
    case field: False
    have start: "stoip4_loop s len i bc addr =
      (if 4 \<le> Suc bc then
         if j = len then Some (True, ?a) else do { c \<leftarrow> rd s j; Some (c = 0, ?a) }
       else if j = len then Some (False, ?a)
       else do { c \<leftarrow> rd s j;
                 if c \<noteq> chr_dot then Some (False, ?a) else stoip4_loop s len (Suc j) (Suc bc) ?a })"
      using field "1.prems" d_empty scan wra by (subst stoip4_loop.simps) (auto simp: rd_def Let_def)
    have a_len: "length ?a = 4" using "1.prems" by simp
    have a_take: "take (Suc bc) ?a = take bc addr @ [of_nat (dec_value d)]"
      using "1.prems" by (simp add: take_Suc_conv_app_nth)
    show ?thesis
    proof (cases "k = 0")
      case True
      then have "Suc bc = 4" using k by simp
      then have "?a = take bc addr @ [of_nat (dec_value d)]" using a_take a_len by simp
      then show ?thesis
        unfolding xs_def [symmetric] parse
        using start field True \<open>Suc bc = 4\<close> r_empty rdr a_len
        by (intro exI [of _ ?a]) auto
    next
      case more: False
      then have nlast: "\<not> 4 \<le> Suc bc" using k by linarith
      show ?thesis
      proof (cases "j = len \<or> hd r \<noteq> chr_dot")
        case True
        then show ?thesis
          unfolding xs_def [symmetric] parse
          using start field more k r_empty rdr a_len
          by (intro exI [of _ ?a]) auto
      next
        case False
        then have eq: "stoip4_loop s len i bc addr = stoip4_loop s len (Suc j) (Suc bc) ?a"
          using start nlast rdr by simp
        have "\<exists>addr'. length addr' = 4 \<and> stoip4_loop s len (Suc j) (Suc bc) ?a =
          Some (case ip4_parse (4 - Suc bc) (drop (Suc j) (take len s)) of
            None \<Rightarrow> (False, addr') | Some vs \<Rightarrow> (True, take (Suc bc) ?a @ vs))"
          by (rule "1.IH") (use False j k more field "1.prems" d_empty scan wra rdr in \<open>auto simp: rd_def\<close>)
        moreover have "4 - Suc bc = k" using k by simp
        ultimately show ?thesis
          unfolding xs_def [symmetric] parse tlr
          using False field more r_empty eq a_take by (auto split: option.splits)
      qed
    qed
  qed
qed

text \<open>The whole function: total on its documented arguments, and exactly the reference parser.\<close>

lemma stoip4_parse:
  assumes "len \<le> length s" and "length dest = 4"
  shows "\<exists>addr'. length addr' = 4 \<and> stoip4 s len dest =
    Some (if len > 16 then (False, addr')
          else case ip4_parse 4 (take len s) of None \<Rightarrow> (False, addr') | Some vs \<Rightarrow> (True, vs))"
  using stoip4_loop_parse [of len s 0 0 dest] assms
  by (auto simp: stoip4_def split: option.splits)

lemma digits_are_digits: "d \<in> set (digits_of 10 n) \<Longrightarrow> is_digit (of_nat (48 + d))"
  using digits_of_bound [of 10 d n]
  by (simp add: is_digit_def word_le_nat_alt unat_of_nat del: of_nat_add)

lemma dec_text_digits: "list_all is_digit (dec_text n)"
  by (auto simp: dec_text_def list_all_iff digits_are_digits simp del: of_nat_add)

lemma dec_value_text: "dec_value (dec_text n) = n"
proof -
  have "foldl (\<lambda>v c. v * 10 + unat (c - chr_0)) b (map (\<lambda>d. of_nat (48 + d)) ds) =
      foldl (\<lambda>v d. v * 10 + d) b ds" if "\<forall>d\<in>set ds. d < 10" for b and ds
    using that by (induction ds arbitrary: b) (simp_all add: unat_of_nat)
  then show ?thesis
    using digits_of_value [of 10 n] digits_of_bound [of 10 _ n]
    by (simp add: dec_value_def dec_text_def)
qed

lemma dec_field_text: "dec_field (dec_text (unat v)) v"
  by (simp add: dec_field_def dec_text_digits dec_value_text)

lemma ip4_text_syntax:
  assumes "length a = 4" and "rest = [] \<or> hd rest = 0"
  shows "ip4_syntax a (ip4_text a @ rest)"
proof -
  obtain v0 v1 v2 v3 where a: "a = [v0, v1, v2, v3]"
    using assms(1) by (auto simp: length_Suc_conv numeral_eq_Suc)
  have "ip4_syntax [v3] (dec_text (unat v3) @ rest)"
    using assms(2) dec_field_text [of v3] by auto
  then have "ip4_syntax [v2, v3] (dec_text (unat v2) @ chr_dot # dec_text (unat v3) @ rest)"
    using dec_field_text [of v2] by (auto simp del: ip4_syntax.simps(2))
  then have "ip4_syntax [v1, v2, v3]
      (dec_text (unat v1) @ chr_dot # dec_text (unat v2) @ chr_dot # dec_text (unat v3) @ rest)"
    using dec_field_text [of v1] by (auto simp del: ip4_syntax.simps(2) ip4_syntax.simps(3) [of _ _ "[]"] simp: ip4_syntax.simps(3) [of v1])
  then show ?thesis
    using dec_field_text [of v0] unfolding a ip4_text_def
    by (auto simp del: ip4_syntax.simps simp: ip4_syntax.simps(3) [of v0])
qed

section \<open>Properties\<close>

lemma ip4_text_no_nul: "0 \<notin> set (ip4_text a)"
proof -
  have "0 \<notin> set (dec_text n)" for n
    using dec_text_digits [of n] by (auto simp: list_all_iff dest!: bspec)
  then show ?thesis by (simp add: ip4_text_def)
qed

text \<open>
  C8. \<open>stoip4\<close> reads nothing outside the \<open>len\<close> bytes it is given and writes nothing outside the
  four bytes of the destination; it succeeds exactly when those bytes are dotted decimal, with
  four nonempty decimal fields below 256, at most sixteen characters, ending at \<open>len\<close> or at a NUL,
  and then it stores the value of every field.
\<close>

theorem stoip4_exact:
  assumes "len \<le> length s" and "length dest = 4"
  shows "\<exists>ok addr. stoip4 s len dest = Some (ok, addr) \<and> length addr = 4 \<and>
    (ok \<longleftrightarrow> len \<le> 16 \<and> (\<exists>a. length a = 4 \<and> ip4_syntax a (take len s))) \<and>
    (ok \<longrightarrow> ip4_syntax addr (take len s))"
proof -
  from stoip4_parse [OF assms] obtain addr' where "length addr' = 4" and
    "stoip4 s len dest = Some (if len > 16 then (False, addr')
       else case ip4_parse 4 (take len s) of None \<Rightarrow> (False, addr') | Some vs \<Rightarrow> (True, vs))"
    by blast
  then show ?thesis
    using ip4_parse_iff [of 4 "take len s"]
    by (cases "ip4_parse 4 (take len s)") auto
qed

theorem stoip4_exact_witness:
  "\<exists>ok addr. stoip4 [49, 46, 50, 46, 51, 46, 52] 7 [0, 0, 0, 0] = Some (ok, addr) \<and> length addr = 4 \<and>
    (ok \<longleftrightarrow> (7 :: nat) \<le> 16 \<and> (\<exists>a. length a = 4 \<and> ip4_syntax a (take 7 [49, 46, 50, 46, 51, 46, 52]))) \<and>
    (ok \<longrightarrow> ip4_syntax addr (take 7 [49, 46, 50, 46, 51, 46, 52]))"
  by (rule stoip4_exact) simp_all

text \<open>
  For every address, \<open>ip4tos\<close> into a buffer of sixteen bytes stores the dotted decimal text and
  its NUL, leaves the bytes behind the sixteenth alone and returns the length of the text; and
  \<open>stoip4\<close> reads that text back as the same address.
\<close>

lemma ip4_roundtrip:
  assumes "length a = 4" and "16 \<le> length p" and "length dest = 4"
  shows "\<exists>p' n. ip4tos a p = Some (p', n) \<and> n < 16 \<and> n = length (cstr p') \<and>
    cstr p' = ip4_text a \<and> drop 16 p' = drop 16 p \<and> stoip4 p' n dest = Some (True, a)"
proof -
  let ?t = "ip4_text a"
  let ?p = "?t @ 0 # drop (Suc (length ?t)) p"
  have run: "ip4tos a p = Some (?p, length ?t)" by (rule ip4tos_text) fact+
  have c: "cstr ?p = ?t" by (rule cstr_append_nul) (rule ip4_text_no_nul)
  have "ip4_parse 4 ?t = Some a"
    using ip4_text_syntax [of a "[]"] assms(1) ip4_parse_iff [of 4 ?t a] by simp
  then have "stoip4 ?p (length ?t) dest = Some (True, a)"
    using stoip4_parse [of "length ?t" ?p dest] ip4_text_length [of a] assms(3) by auto
  moreover have "drop 16 ?p = drop 16 p"
    using ip4_text_length [of a] by (simp add: drop_Cons')
  ultimately show ?thesis
    using run c ip4_text_length [of a] by (intro exI [of _ ?p] exI [of _ "length ?t"]) simp
qed

theorem ip4_roundtrip_witness:
  "\<exists>p' n. ip4tos [192, 168, 0, 1] (replicate 16 7) = Some (p', n) \<and> n < 16 \<and> n = length (cstr p') \<and>
    cstr p' = ip4_text [192, 168, 0, 1] \<and> drop 16 p' = drop 16 (replicate 16 7) \<and>
    stoip4 p' n [0, 0, 0, 0] = Some (True, [192, 168, 0, 1])"
  by (rule ip4_roundtrip) simp_all

end
