(* ===== verification/Ip6_Print.thy ===== *)
theory Ip6_Print
  imports C_Memory
begin

unbundle bit_operations_syntax

text \<open>
  Printing of IPv6 addresses, \<open>ip6tos\<close> and \<open>ip6_prefix_tos\<close> of
  \<open>mbed-os-netsocket/common/src/libip6string/ip6tos.c\<close>, and the bit copy of \<open>libBits\<close> they use: the
  scan finds the zero run RFC 5952 asks for, and the buffer holds the text of the address.

  The size that \<open>ip6tos\<close> passes to \<open>snprintf\<close> is \<open>sizeof (p)\<close>, the size of a pointer; it is the argument
  \<open>psz\<close>, 4 on the Cortex-M targets of the SDK and 8 on a 64-bit host.
\<close>

section \<open>Bit copy\<close>

definition context_split_mask :: "nat \<Rightarrow> byte" where
  "context_split_mask split_value = ucast (- drop_bit split_value (0x100 :: u32))"

definition bitcopy :: "byte list \<Rightarrow> byte list \<Rightarrow> nat \<Rightarrow> byte list option" where
  "bitcopy dst src bits =
     (let bytes = bits div 8; bits = bits mod 8 in
      do {
        dst \<leftarrow> (if bytes \<noteq> 0 then do { vs \<leftarrow> mem_read src 0 bytes; mem_write dst 0 vs } else Some dst);
        if bits \<noteq> 0 then
          do {
            let split_bit = context_split_mask bits;
            s \<leftarrow> rd src bytes;
            d \<leftarrow> rd dst bytes;
            wr dst bytes ((s AND split_bit) OR (d AND NOT split_bit))
          }
        else Some dst
      })"

section \<open>Printing\<close>

text \<open>
  Part \<open>n\<close> of an address, high byte first.  The code advances \<open>addr\<close> by two bytes with every part
  it reads or skips, so \<open>addr\<close> is always at byte \<open>2 * n\<close>.
\<close>

definition ip6_part :: "byte list \<Rightarrow> nat \<Rightarrow> u16 option" where
  "ip6_part addr n = do { h \<leftarrow> rd addr (2 * n); l \<leftarrow> rd addr (2 * n + 1);
                          Some (push_bit 8 (ucast h) OR ucast l) }"

text \<open>The scan from a zero part to the first nonzero one (or the end).\<close>

function ip6_run_end :: "byte list \<Rightarrow> nat \<Rightarrow> nat option" where
  "ip6_run_end addr n =
     (if n < 8 then
        do { part \<leftarrow> ip6_part addr n; if part \<noteq> 0 then Some n else ip6_run_end addr (Suc n) }
      else Some n)"
  by pat_completeness auto
termination by (relation "measure (\<lambda>(a, n). 8 - n)") auto

declare ip6_run_end.simps [simp del]

lemma ip6_run_end_ge: "ip6_run_end addr n = Some m \<Longrightarrow> n \<le> m"
proof (induction addr n rule: ip6_run_end.induct)
  case (1 addr n)
  from 1(2) show ?case
    by (subst (asm) ip6_run_end.simps) (auto simp: return_iff split: if_splits dest: 1(1))
qed

function ip6_scan :: "byte list \<Rightarrow> nat \<Rightarrow> nat \<Rightarrow> nat \<Rightarrow> (nat \<times> nat) option" where
  "ip6_scan addr n zero_start zero_len =
     (if n < 8 then
        do {
          part \<leftarrow> ip6_part addr n;
          if part \<noteq> 0 then ip6_scan addr (Suc n) zero_start zero_len
          else do {
            n' \<leftarrow> ip6_run_end addr (Suc n);
            if n' - n > zero_len then ip6_scan addr (Suc n') n (n' - n)
            else ip6_scan addr (Suc n') zero_start zero_len
          }
        }
      else Some (zero_start, zero_len))"
  by pat_completeness auto
termination
  by (relation "measure (\<lambda>(a, n, zs, zl). 8 - n)") (auto dest!: ip6_run_end_ge)

declare ip6_scan.simps [simp del]

text \<open>
  The printing loop.  With \<open>zero_len = 0\<close> it would not advance at the run; that call has no result
  here, and \<open>ip6tos\<close> never makes it.
\<close>

function ip6_print :: "nat \<Rightarrow> byte list \<Rightarrow> byte list \<Rightarrow> nat \<Rightarrow> nat \<Rightarrow> nat \<Rightarrow> nat \<Rightarrow> (byte list \<times> nat) option" where
  "ip6_print psz addr buf p n zero_start zero_len =
     (if n < 8 then
        if n = zero_start then
          if zero_len = 0 then None
          else do {
            (buf, p) \<leftarrow> (if n = 0 then do { buf \<leftarrow> wr buf p chr_colon; Some (buf, Suc p) } else Some (buf, p));
            buf \<leftarrow> wr buf p chr_colon;
            ip6_print psz addr buf (Suc p) (n + zero_len) zero_start zero_len
          }
        else do {
          part \<leftarrow> ip6_part addr n;
          (buf, k) \<leftarrow> snprintf_text buf p psz (hex_text (unat part));
          if Suc n \<noteq> 8 then
            do { buf \<leftarrow> wr buf (p + k) chr_colon;
                 ip6_print psz addr buf (Suc (p + k)) (Suc n) zero_start zero_len }
          else ip6_print psz addr buf (p + k) (Suc n) zero_start zero_len
        }
      else do { buf \<leftarrow> wr buf p 0; Some (buf, p) })"
  by pat_completeness auto
termination
  by (relation "measure (\<lambda>(psz, a, b, p, n, zs, zl). 8 - n)") auto

declare ip6_print.simps [simp del]

definition ip6tos_at :: "nat \<Rightarrow> byte list \<Rightarrow> byte list \<Rightarrow> nat \<Rightarrow> (byte list \<times> nat) option" where
  "ip6tos_at psz ip6addr buf p =
     do {
       (zero_start, zero_len) \<leftarrow> ip6_scan ip6addr 0 255 1;
       (buf, p_end) \<leftarrow> ip6_print psz ip6addr buf p 0 zero_start zero_len;
       Some (buf, p_end - p)
     }"

definition ip6tos :: "nat \<Rightarrow> byte list \<Rightarrow> byte list \<Rightarrow> (byte list \<times> nat) option" where
  "ip6tos psz ip6addr buf = ip6tos_at psz ip6addr buf 0"

definition ip6_prefix_tos :: "nat \<Rightarrow> byte list \<Rightarrow> nat \<Rightarrow> byte list \<Rightarrow> (byte list \<times> nat) option" where
  "ip6_prefix_tos psz pfx prefix_len buf =
     (if prefix_len > 128 then Some (buf, 0)
      else do {
        addr \<leftarrow> bitcopy (replicate 16 0) pfx prefix_len;
        (buf, wptr) \<leftarrow> ip6tos psz addr buf;
        (buf, k) \<leftarrow> snprintf_text buf wptr psz (chr_slash # dec_text prefix_len);
        Some (buf, wptr + k)
      })"

section \<open>The bits that are copied\<close>

definition ip_bit :: "byte list \<Rightarrow> nat \<Rightarrow> bool" where
  "ip_bit a k \<longleftrightarrow> bit (a ! (k div 8)) (7 - k mod 8)"

lemma split_mask_bit: "0 < n \<Longrightarrow> n < 8 \<Longrightarrow> j < 8 \<Longrightarrow> bit (context_split_mask n) (7 - j) \<longleftrightarrow> j < n"
proof -
  have "\<forall>n \<in> set [1..<8]. \<forall>j \<in> set [0..<8]. bit (context_split_mask n) (7 - j) \<longleftrightarrow> j < n"
    by code_simp
  then show "0 < n \<Longrightarrow> n < 8 \<Longrightarrow> j < 8 \<Longrightarrow> bit (context_split_mask n) (7 - j) \<longleftrightarrow> j < n"
    by auto
qed

lemma bitcopy_bits:
  assumes "bits \<le> 8 * length dst" and "bits \<le> 8 * length src"
  shows "\<exists>d. bitcopy dst src bits = Some d \<and> length d = length dst \<and>
    (\<forall>k < 8 * length dst. ip_bit d k \<longleftrightarrow> (if k < bits then ip_bit src k else ip_bit dst k))"
proof -
  let ?n = "bits div 8" and ?r = "bits mod 8"
  define d1 where "d1 = take ?n src @ drop ?n dst"
  have le: "?n \<le> length dst" "?n \<le> length src" using assms by auto
  have d1: "(if ?n \<noteq> 0 then do { vs \<leftarrow> mem_read src 0 ?n; mem_write dst 0 vs } else Some dst) = Some d1"
    using le by (auto simp: d1_def mem_read_def mem_write_def)
  have len: "length d1 = length dst" using le by (simp add: d1_def)
  have bytes: "d1 ! i = (if i < ?n then src ! i else dst ! i)" if "i < length dst" for i
    using that le by (simp add: d1_def nth_append)
  show ?thesis
  proof (cases "?r = 0")
    case True
    then have "k div 8 < ?n \<longleftrightarrow> k < bits" for k by (auto simp: div_less_iff_less_mult)
    with bytes len d1 True show ?thesis
      by (intro exI [of _ d1]) (auto simp: bitcopy_def ip_bit_def)
  next
    case False
    let ?m = "context_split_mask ?r"
    let ?v = "(src ! ?n AND ?m) OR (dst ! ?n AND NOT ?m)"
    have "bits = 8 * ?n + ?r" "0 < ?r" using False by simp_all
    then have lt: "?n < length dst" "?n < length src" using assms by linarith+
    have run: "bitcopy dst src bits = Some (d1[?n := ?v])"
      using d1 False lt len bytes [of ?n] by (simp add: bitcopy_def Let_def rd_inside wr_inside)
    have "ip_bit (d1[?n := ?v]) k \<longleftrightarrow> (if k < bits then ip_bit src k else ip_bit dst k)" if k: "k < 8 * length dst" for k
    proof -
      have kd: "k div 8 < length dst" using k by auto
      consider "k div 8 < ?n" | "k div 8 = ?n" | "k div 8 > ?n" by linarith
      then show ?thesis
      proof cases
        case 1
        then have "k < bits" by (metis div_le_mono leD not_less)
        with 1 kd bytes len show ?thesis by (simp add: ip_bit_def)
      next
        case 2
        have "k < bits \<longleftrightarrow> k mod 8 < ?r"
          using 2 by (metis div_mult_mod_eq nat_add_left_cancel_less)
        moreover have "bit ?m (7 - k mod 8) \<longleftrightarrow> k mod 8 < ?r"
          using False by (intro split_mask_bit) auto
        ultimately show ?thesis using 2 kd len by (auto simp: ip_bit_def bit_simps)
      next
        case 3
        then have "\<not> k < bits" by (meson div_le_mono leD less_imp_le_nat)
        with 3 kd bytes len show ?thesis by (simp add: ip_bit_def)
      qed
    qed
    with run len show ?thesis by auto
  qed
qed

section \<open>The zero run\<close>

definition ip6_parts :: "byte list \<Rightarrow> nat list" where
  "ip6_parts a = map (\<lambda>n. unat (a ! (2 * n)) * 256 + unat (a ! (2 * n + 1))) [0..<8]"

definition zero_run :: "nat list \<Rightarrow> nat \<Rightarrow> nat \<Rightarrow> bool" where
  "zero_run ps s l \<longleftrightarrow> 0 < l \<and> s + l \<le> length ps \<and> (\<forall>i. s \<le> i \<and> i < s + l \<longrightarrow> ps ! i = 0)"

text \<open>RFC 5952: the longest run of at least two zero parts, the leftmost of equals.\<close>

definition longest_run :: "nat list \<Rightarrow> nat \<Rightarrow> nat \<Rightarrow> bool" where
  "longest_run ps s l \<longleftrightarrow> 2 \<le> l \<and> zero_run ps s l \<and>
     (\<forall>s' l'. zero_run ps s' l' \<longrightarrow> l' < l \<or> l' = l \<and> s \<le> s')"

lemma ip6_parts_length [simp]: "length (ip6_parts a) = 8"
  by (simp add: ip6_parts_def)

lemma byte_pair: "push_bit 8 (ucast (h :: byte)) OR (ucast (l :: byte)) = (of_nat (unat h * 256 + unat l) :: u16)"
proof -
  have "push_bit 8 (ucast h :: u16) OR ucast l = push_bit 8 (ucast h) + ucast l"
    by (rule disjunctive_add_eq_or [symmetric], rule bit_word_eqI) (auto simp: bit_simps dest: bit_imp_le_length)
  then show ?thesis
    by (simp add: push_bit_eq_mult)
qed

lemma ip6_parts_bound: "n < 8 \<Longrightarrow> ip6_parts a ! n < 65536"
proof -
  assume "n < 8"
  moreover have "unat h * 256 + unat l < 65536" for h l :: byte
    using unat_byte_less [of h] unat_byte_less [of l] by linarith
  ultimately show ?thesis by (simp add: ip6_parts_def)
qed

lemma ip6_part_eq:
  assumes "length a = 16" and "n < 8"
  shows "ip6_part a n = Some (of_nat (ip6_parts a ! n))"
  using assms by (simp add: ip6_part_def rd_inside byte_pair ip6_parts_def)

lemma u16_of_nat_eq_0: "k < 65536 \<Longrightarrow> (of_nat k :: u16) = 0 \<longleftrightarrow> k = 0"
  by (simp add: unat_0_iff [symmetric] unat_of_nat)

text \<open>What the scan knows before part \<open>n\<close>: the best run among the parts below \<open>n\<close>.\<close>

definition best_run :: "nat list \<Rightarrow> nat \<Rightarrow> nat \<Rightarrow> nat \<Rightarrow> bool" where
  "best_run ps n s l \<longleftrightarrow>
     (if l = 1 then s = 255 \<and> (\<forall>s' l'. zero_run ps s' l' \<and> s' + l' \<le> n \<longrightarrow> l' \<le> 1)
      else 2 \<le> l \<and> zero_run ps s l \<and> s + l \<le> n \<and>
        (\<forall>s' l'. zero_run ps s' l' \<and> s' + l' \<le> n \<longrightarrow> l' < l \<or> l' = l \<and> s \<le> s'))"

lemma zero_run_zero: "zero_run ps s l \<Longrightarrow> s \<le> i \<Longrightarrow> i < s + l \<Longrightarrow> ps ! i = 0"
  by (simp add: zero_run_def)

lemma zero_run_pos: "zero_run ps s l \<Longrightarrow> 0 < l"
  by (simp add: zero_run_def)

lemma best_run_cong:
  assumes "\<And>s' l'. zero_run ps s' l' \<Longrightarrow> s' + l' \<le> n \<longleftrightarrow> s' + l' \<le> m"
  shows "best_run ps n s l \<longleftrightarrow> best_run ps m s l"
  using assms unfolding best_run_def by (auto split: if_splits)

lemma best_run_skip:
  assumes "ps ! n \<noteq> 0"
  shows "best_run ps (Suc n) s l \<longleftrightarrow> best_run ps n s l"
proof (rule best_run_cong)
  fix s' l' assume r: "zero_run ps s' l'"
  then show "s' + l' \<le> Suc n \<longleftrightarrow> s' + l' \<le> n"
    using assms zero_run_zero [OF r, of n] by (cases "s' + l' = Suc n") (auto simp: zero_run_def)
qed

lemma best_run_le: "best_run ps n s l \<Longrightarrow> zero_run ps s' l' \<Longrightarrow> s' + l' \<le> n \<Longrightarrow> l' < l \<or> l' = l \<and> (l = 1 \<or> s \<le> s')"
  by (cases "l = 1") (auto simp: best_run_def le_Suc_eq dest!: spec [of _ s'] spec [of _ l'] dest: zero_run_pos)

lemma best_run_extend:
  assumes best: "best_run ps n s l" and run: "zero_run ps n (m - n)" "n < m"
    and start: "n = 0 \<or> ps ! (n - 1) \<noteq> 0" and stop: "m = length ps \<or> ps ! m \<noteq> 0"
  shows "best_run ps (Suc m) (if m - n > l then n else s) (max l (m - n))"
proof -
  have inside: "s' + l' \<le> n \<or> n \<le> s' \<and> s' + l' \<le> m" if r: "zero_run ps s' l'" "s' + l' \<le> Suc m" for s' l'
  proof -
    have "s' + l' \<le> m"
      using r stop zero_run_zero [OF r(1), of m] by (cases "s' + l' = Suc m") (auto simp: zero_run_def)
    moreover have "\<not> (s' < n \<and> n < s' + l')"
      using start zero_run_zero [OF r(1), of "n - 1"] by (cases n) auto
    ultimately show ?thesis using r(1) by (auto simp: zero_run_def)
  qed
  have l1: "1 \<le> l" using best by (auto simp: best_run_def split: if_splits)
  show ?thesis
  proof (cases "m - n > l")
    case True
    have "l' < m - n \<or> l' = m - n \<and> n \<le> s'" if r: "zero_run ps s' l'" "s' + l' \<le> Suc m" for s' l'
    proof (cases "s' + l' \<le> n")
      case a: True
      then show ?thesis using best_run_le [OF best r(1) a] True by auto
    qed (use inside [OF r] in auto)
    then show ?thesis using True run l1 by (auto simp: best_run_def)
  next
    case False
    have "l' < l \<or> l' = l \<and> (l = 1 \<or> s \<le> s')" if r: "zero_run ps s' l'" "s' + l' \<le> Suc m" for s' l'
    proof (cases "s' + l' \<le> n")
      case a: True
      show ?thesis by (rule best_run_le [OF best r(1) a])
    next
      case b: False
      then have "l' \<le> l" "n \<le> s'" using inside [OF r] False by auto
      moreover have "l = 1 \<or> s + l \<le> n" using best by (auto simp: best_run_def split: if_splits)
      ultimately show ?thesis by linarith
    qed
    then show ?thesis using best False run(2)
      by (auto simp: best_run_def max_def split: if_splits)
  qed
qed

text \<open>The two scan loops find it.\<close>

lemma ip6_run_end_spec:
  assumes "length a = 16" and "n \<le> 8"
  shows "\<exists>m. ip6_run_end a n = Some m \<and> n \<le> m \<and> m \<le> 8 \<and>
    (\<forall>i. n \<le> i \<and> i < m \<longrightarrow> ip6_parts a ! i = 0) \<and> (m = 8 \<or> ip6_parts a ! m \<noteq> 0)"
  using assms
proof (induction a n rule: ip6_run_end.induct)
  case (1 a n)
  show ?case
  proof (cases "n < 8 \<and> ip6_parts a ! n = 0")
    case True
    then obtain m where m: "ip6_run_end a (Suc n) = Some m" "Suc n \<le> m" "m \<le> 8"
      "\<forall>i. Suc n \<le> i \<and> i < m \<longrightarrow> ip6_parts a ! i = 0" "m = 8 \<or> ip6_parts a ! m \<noteq> 0"
      using 1 by (auto simp: ip6_part_eq)
    moreover have "ip6_run_end a n = Some m"
      using True m 1 by (subst ip6_run_end.simps) (simp add: ip6_part_eq)
    moreover have "ip6_parts a ! i = 0" if "n \<le> i" "i < m" for i
      using True m(4) that by (cases "i = n") auto
    ultimately show ?thesis by auto
  next
    case False
    then show ?thesis
      using 1(2,3) ip6_parts_bound [of n a]
      by (subst ip6_run_end.simps) (auto simp: ip6_part_eq u16_of_nat_eq_0)
  qed
qed

lemma ip6_scan_spec:
  assumes "length a = 16" and "best_run (ip6_parts a) n zs zl" and "n = 0 \<or> 8 < n \<or> ip6_parts a ! (n - 1) \<noteq> 0"
  shows "\<exists>s l. ip6_scan a n zs zl = Some (s, l) \<and> best_run (ip6_parts a) 8 s l"
  using assms
proof (induction a n zs zl rule: ip6_scan.induct)
  case (1 a n zs zl)
  let ?ps = "ip6_parts a"
  consider "8 \<le> n" | "n < 8" "?ps ! n \<noteq> 0" | "n < 8" "?ps ! n = 0" by linarith
  then show ?case
  proof cases
    case 1
    have "best_run ?ps n zs zl \<longleftrightarrow> best_run ?ps 8 zs zl"
      using 1 by (intro best_run_cong) (auto simp: zero_run_def)
    with "1.prems"(2) have "best_run ?ps 8 zs zl" by simp
    then show ?thesis using 1 by (subst ip6_scan.simps) auto
  next
    case 2
    then have part: "ip6_part a n = Some (of_nat (?ps ! n))" "of_nat (?ps ! n) \<noteq> (0 :: u16)"
      using "1.prems"(1) ip6_parts_bound [of n a] by (auto simp: ip6_part_eq u16_of_nat_eq_0)
    have "\<exists>s l. ip6_scan a (Suc n) zs zl = Some (s, l) \<and> best_run ?ps 8 s l"
      using "1.prems" 2 by (intro "1.IH"(1) [OF _ part]) (auto simp: best_run_skip)
    then show ?thesis using part 2 by (subst ip6_scan.simps) auto
  next
    case 3
    then have part: "ip6_part a n = Some 0"
      using "1.prems"(1) by (simp add: ip6_part_eq)
    from 3 obtain m where m: "ip6_run_end a (Suc n) = Some m" "Suc n \<le> m" "m \<le> 8"
      "\<forall>i. Suc n \<le> i \<and> i < m \<longrightarrow> ?ps ! i = 0" "m = 8 \<or> ?ps ! m \<noteq> 0"
      using ip6_run_end_spec [of a "Suc n"] "1.prems"(1) by auto
    have "?ps ! i = 0" if "n \<le> i" "i < m" for i
      using m(4) 3(2) that by (cases "i = n") auto
    then have run: "zero_run ?ps n (m - n)" using m by (auto simp: zero_run_def)
    have ext: "best_run ?ps (Suc m) (if m - n > zl then n else zs) (max zl (m - n))"
      using "1.prems" m run 3 by (intro best_run_extend) auto
    have next': "Suc m = 0 \<or> 8 < Suc m \<or> ?ps ! (Suc m - 1) \<noteq> 0" using m by auto
    show ?thesis
    proof (cases "m - n > zl")
      case True
      with ext have "best_run ?ps (Suc m) n (m - n)" by simp
      from "1.IH"(2) [OF 3(1) part _ m(1) True "1.prems"(1) this next'] show ?thesis
        using 3 part m True by (subst ip6_scan.simps) simp
    next
      case False
      with ext have "best_run ?ps (Suc m) zs zl" by simp
      from "1.IH"(3) [OF 3(1) part _ m(1) False "1.prems"(1) this next'] show ?thesis
        using 3 part m False by (subst ip6_scan.simps) simp
    qed
  qed
qed

section \<open>Printing is correct\<close>

text \<open>
  The bytes one part leaves in the buffer: its hexadecimal text, or, when the size given to
  \<open>snprintf\<close> is too small for it, the first \<open>psz - 1\<close> digits and a NUL.
\<close>

definition part_image :: "nat \<Rightarrow> nat \<Rightarrow> byte list" where
  "part_image psz v = (let t = hex_text v in if length t < psz then t else take (psz - 1) t @ [0])"

text \<open>Parts with a colon between them, and with a colon behind each.\<close>

fun ip6_join :: "(nat \<Rightarrow> byte list) \<Rightarrow> nat list \<Rightarrow> byte list" where
  "ip6_join enc [] = []"
| "ip6_join enc [v] = enc v"
| "ip6_join enc (v # vs) = enc v @ chr_colon # ip6_join enc vs"

definition ip6_each :: "(nat \<Rightarrow> byte list) \<Rightarrow> nat list \<Rightarrow> byte list" where
  "ip6_each enc vs = concat (map (\<lambda>v. enc v @ [chr_colon]) vs)"

definition ip6_shape :: "(nat \<Rightarrow> byte list) \<Rightarrow> nat list \<Rightarrow> nat \<Rightarrow> nat \<Rightarrow> byte list" where
  "ip6_shape enc ps zs zl =
     (if zs < length ps then
        ip6_each enc (take zs ps) @ (if zs = 0 then [chr_colon] else []) @ chr_colon # ip6_join enc (drop (zs + zl) ps)
      else ip6_join enc ps)"

text \<open>RFC 5952 text: the shape with the hexadecimal parts and the longest zero run left out.\<close>

definition ip6_text :: "byte list \<Rightarrow> byte list \<Rightarrow> bool" where
  "ip6_text a t \<longleftrightarrow>
     (if \<exists>zs zl. longest_run (ip6_parts a) zs zl
      then \<exists>zs zl. longest_run (ip6_parts a) zs zl \<and> t = ip6_shape hex_text (ip6_parts a) zs zl
      else t = ip6_join hex_text (ip6_parts a))"

lemma hex_text_length: "v < 65536 \<Longrightarrow> length (hex_text v) \<le> 4"
  using digits_of_length [of 16 v 3] by (simp add: hex_text_def)

lemma part_image_length: "4 \<le> psz \<Longrightarrow> v < 65536 \<Longrightarrow> length (part_image psz v) = length (hex_text v)"
  using hex_text_length [of v] by (auto simp: part_image_def Let_def)

lemma part_image_full: "5 \<le> psz \<Longrightarrow> v < 65536 \<Longrightarrow> part_image psz v = hex_text v"
  using hex_text_length [of v] by (auto simp: part_image_def Let_def)

lemma ip6_join_Cons: "vs \<noteq> [] \<Longrightarrow> ip6_join enc (v # vs) = enc v @ chr_colon # ip6_join enc vs"
  by (cases vs) auto

text \<open>One formatted part and the byte that overwrites its NUL.\<close>

lemma snprintf_part:
  assumes "4 \<le> psz" and "v < 65536" and "length (out @ hex_text v) < length b"
  shows "\<exists>b'. snprintf_text (out @ drop (length out) b) (length out) psz (hex_text v) = Some (b', length (hex_text v)) \<and>
    wr b' (length out + length (hex_text v)) c =
      Some ((out @ part_image psz v @ [c]) @ drop (length (out @ part_image psz v @ [c])) b)"
proof -
  let ?t = "hex_text v" and ?rest = "drop (length out) b"
  have len: "length ?t \<le> 4" by (rule hex_text_length) fact
  show ?thesis
  proof (cases "length ?t < psz")
    case True
    then show ?thesis
      using assms by (simp add: snprintf_text_def mem_write_def part_image_def Let_def cmem add.commute)
  next
    case False
    with assms(1) len have psz: "psz = length ?t" "?t \<noteq> []" by auto
    then obtain x xs where xs: "drop (length out + psz) b = x # xs"
      using assms(3) list_split_first [of "length out + psz" b] by auto
    then have "drop (Suc (length out + psz)) b = xs"
      by (metis drop_Suc list.sel(3) tl_drop)
    with xs show ?thesis
      using assms psz by (simp add: snprintf_text_def mem_write_def part_image_def Let_def cmem add.commute)
  qed
qed

lemma ip6_print_done: "8 \<le> n \<Longrightarrow> ip6_print psz a b p n zs zl = do { b \<leftarrow> wr b p 0; Some (b, p) }"
  by (subst ip6_print.simps) simp

lemma ip6_print_part:
  assumes "length a = 16" and "4 \<le> psz" and "n < 8" and "n \<noteq> zs"
    and "length (out @ part_image psz (ip6_parts a ! n)) < length b"
  shows "ip6_print psz a (out @ drop (length out) b) (length out) n zs zl =
    (let out' = out @ part_image psz (ip6_parts a ! n) in
     if Suc n \<noteq> 8 then
       ip6_print psz a ((out' @ [chr_colon]) @ drop (length (out' @ [chr_colon])) b) (length (out' @ [chr_colon])) (Suc n) zs zl
     else Some (out' @ 0 # drop (Suc (length out')) b, length out'))"
proof -
  let ?v = "ip6_parts a ! n"
  have v: "?v < 65536" "unat (of_nat ?v :: u16) = ?v" "length (part_image psz ?v) = length (hex_text ?v)"
    using ip6_parts_bound [OF assms(3), of a] assms(2) by (simp_all add: unat_of_nat part_image_length)
  from assms(5) v(3) obtain b' where
    "snprintf_text (out @ drop (length out) b) (length out) psz (hex_text ?v) = Some (b', length (hex_text ?v))"
    "wr b' (length out + length (hex_text ?v)) (if Suc n \<noteq> 8 then chr_colon else 0) =
      Some ((out @ part_image psz ?v @ [if Suc n \<noteq> 8 then chr_colon else 0]) @
        drop (length (out @ part_image psz ?v @ [if Suc n \<noteq> 8 then chr_colon else 0])) b)"
    using snprintf_part [OF assms(2) v(1), of out b "if Suc n \<noteq> 8 then chr_colon else 0"] by auto
  then show ?thesis
    using assms v by (subst ip6_print.simps) (auto simp: ip6_part_eq ip6_print_done Let_def)
qed

text \<open>Behind the zero run, and when there is none.\<close>

lemma ip6_print_tail:
  assumes "length a = 16" and "4 \<le> psz" and "n \<le> 8" and "zs < n \<or> 8 \<le> zs"
    and "t = ip6_join (part_image psz) (drop n (ip6_parts a))" and "length (out @ t) < length b"
  shows "ip6_print psz a (out @ drop (length out) b) (length out) n zs zl =
    Some (out @ t @ 0 # drop (Suc (length (out @ t))) b, length (out @ t))"
  using assms
proof (induction "8 - n" arbitrary: n out t)
  case 0
  then have n: "n = 8" "t = []" by simp_all
  from 0 obtain x xs where "drop (length out) b = x # xs"
    using list_split_first [of "length out" b] n by auto
  moreover from this have "drop (Suc (length out)) b = xs" by (metis drop_Suc list.sel(3) tl_drop)
  ultimately show ?case using n by (subst ip6_print.simps) (simp add: cmem)
next
  case (Suc k)
  then have n: "n < 8" by simp
  let ?v = "ip6_parts a ! n"
  have split: "drop n (ip6_parts a) = ?v # drop (Suc n) (ip6_parts a)"
    using n by (simp add: Cons_nth_drop_Suc)
  show ?case
  proof (cases "Suc n = 8")
    case True
    have "t = part_image psz ?v" using Suc.prems(5) True unfolding split by simp
    then show ?thesis
      using ip6_print_part [of a psz n zs out b zl] Suc.prems n True by (auto simp: Let_def)
  next
    case False
    let ?t = "ip6_join (part_image psz) (drop (Suc n) (ip6_parts a))"
    let ?out = "out @ part_image psz ?v @ [chr_colon]"
    have t: "t = part_image psz ?v @ chr_colon # ?t"
      using Suc.prems(5) False n unfolding split by (subst (asm) ip6_join_Cons) auto
    have "ip6_print psz a (?out @ drop (length ?out) b) (length ?out) (Suc n) zs zl =
      Some (?out @ ?t @ 0 # drop (Suc (length (?out @ ?t))) b, length (?out @ ?t))"
      by (rule Suc.hyps(1)) (use Suc t in auto)
    then show ?thesis
      using ip6_print_part [of a psz n zs out b zl] Suc.prems(1,2,3,4,6) n False t by (auto simp: Let_def)
  qed
qed

text \<open>Before it.\<close>

lemma ip6_print_head:
  assumes "length a = 16" and "4 \<le> psz" and "n \<le> zs" and "zs + zl \<le> 8" and "0 < zl"
    and "t = ip6_each (part_image psz) (drop n (take zs (ip6_parts a))) @ (if zs = 0 then [chr_colon] else []) @
      chr_colon # ip6_join (part_image psz) (drop (zs + zl) (ip6_parts a))"
    and "length (out @ t) < length b"
  shows "ip6_print psz a (out @ drop (length out) b) (length out) n zs zl =
    Some (out @ t @ 0 # drop (Suc (length (out @ t))) b, length (out @ t))"
  using assms
proof (induction "zs - n" arbitrary: n out t)
  case 0
  then have n: "n = zs" by simp
  let ?c = "(if zs = 0 then [chr_colon] else []) @ [chr_colon]"
  let ?t = "ip6_join (part_image psz) (drop (zs + zl) (ip6_parts a))"
  have t: "t = ?c @ ?t" using 0 n by (simp add: ip6_each_def)
  have "ip6_print psz a ((out @ ?c) @ drop (length (out @ ?c)) b) (length (out @ ?c)) (zs + zl) zs zl =
    Some ((out @ ?c) @ ?t @ 0 # drop (Suc (length ((out @ ?c) @ ?t))) b, length ((out @ ?c) @ ?t))"
    by (rule ip6_print_tail) (use 0 t in auto)
  moreover have "ip6_print psz a (out @ drop (length out) b) (length out) n zs zl =
    ip6_print psz a ((out @ ?c) @ drop (length (out @ ?c)) b) (length (out @ ?c)) (zs + zl) zs zl"
  proof -
    have "\<exists>x y r. drop (length out) b = x # y # r" using 0 t by (intro length_gt_1) auto
    then obtain x y r where r: "drop (length out) b = x # y # r" by blast
    then have "drop (Suc (length out)) b = y # r" "drop (Suc (Suc (length out))) b = r"
      by (metis drop_Suc list.sel(3) tl_drop)+
    with r show ?thesis using 0 n by (subst ip6_print.simps) (simp add: cmem)
  qed
  ultimately show ?case using t by simp
next
  case (Suc k)
  let ?v = "ip6_parts a ! n"
  have n: "n < zs" "n < 8" using Suc by linarith+
  have split: "drop n (take zs (ip6_parts a)) = ?v # drop (Suc n) (take zs (ip6_parts a))"
    using n by (simp add: Cons_nth_drop_Suc [symmetric])
  let ?t = "ip6_each (part_image psz) (drop (Suc n) (take zs (ip6_parts a))) @ (if zs = 0 then [chr_colon] else []) @
      chr_colon # ip6_join (part_image psz) (drop (zs + zl) (ip6_parts a))"
  let ?out = "out @ part_image psz ?v @ [chr_colon]"
  have t: "t = part_image psz ?v @ chr_colon # ?t"
    using Suc.prems(6) unfolding split by (simp add: ip6_each_def)
  have "ip6_print psz a (?out @ drop (length ?out) b) (length ?out) (Suc n) zs zl =
    Some (?out @ ?t @ 0 # drop (Suc (length (?out @ ?t))) b, length (?out @ ?t))"
    by (rule Suc.hyps(1)) (use Suc t n in auto)
  then show ?case
    using ip6_print_part [of a psz n zs out b zl] Suc.prems(1,2,3,4,5,7) n t by (simp add: Let_def)
qed

text \<open>The whole function, for any size of a pointer from 4 on.\<close>

lemma ip6_join_length: "(\<And>v. v \<in> set vs \<Longrightarrow> length (enc v) \<le> 4) \<Longrightarrow> length (ip6_join enc vs) \<le> 5 * length vs - 1"
proof (induction enc vs rule: ip6_join.induct)
  case (3 enc v w vs)
  from 3(2) [of v] 3(1) [OF 3(2)] show ?case by simp
qed simp_all

lemma ip6_each_length: "(\<And>v. v \<in> set vs \<Longrightarrow> length (enc v) \<le> 4) \<Longrightarrow> length (ip6_each enc vs) \<le> 5 * length vs"
proof (induction vs)
  case (Cons v vs)
  from Cons.prems [of v] Cons.IH [OF Cons.prems] show ?case by (simp add: ip6_each_def)
qed (simp add: ip6_each_def)

lemma ip6_shape_length:
  assumes "\<And>v. v \<in> set ps \<Longrightarrow> length (enc v) \<le> 4" and "length ps = 8" and "zs < 8 \<Longrightarrow> 2 \<le> zl \<and> zs + zl \<le> 8"
  shows "length (ip6_shape enc ps zs zl) \<le> 39"
proof (cases "zs < 8")
  case True
  have "length (ip6_each enc (take zs ps)) \<le> 5 * length (take zs ps)"
    by (rule ip6_each_length) (rule assms(1), erule in_set_takeD)
  moreover have "length (ip6_join enc (drop (zs + zl) ps)) \<le> 5 * length (drop (zs + zl) ps) - 1"
    by (rule ip6_join_length) (rule assms(1), erule in_set_dropD)
  moreover have "length (ip6_shape enc ps zs zl) \<le>
    length (ip6_each enc (take zs ps)) + 2 + length (ip6_join enc (drop (zs + zl) ps))"
    by (simp add: ip6_shape_def ip6_join_length ip6_each_def) (use True assms in auto)
  moreover have "5 * length (take zs ps) + 2 + (5 * length (drop (zs + zl) ps) - 1) \<le> 39"
    using True assms(2,3) by simp linarith
  ultimately show ?thesis by linarith
next
  case False
  then show ?thesis using ip6_join_length [of ps enc] assms by (simp add: ip6_shape_def)
qed

definition ip6_best :: "byte list \<Rightarrow> nat \<Rightarrow> nat \<Rightarrow> bool" where
  "ip6_best a zs zl \<longleftrightarrow> best_run (ip6_parts a) 8 zs zl"

lemma ip6_best_nolong: "ip6_best a zs 1 \<Longrightarrow> \<not> longest_run (ip6_parts a) s l"
proof
  assume "ip6_best a zs 1" and "longest_run (ip6_parts a) s l"
  moreover from this(2) have "zero_run (ip6_parts a) s l" "2 \<le> l" by (simp_all add: longest_run_def)
  moreover from this(1) have "s + l \<le> 8" by (simp add: zero_run_def)
  ultimately show False using best_run_le [of "ip6_parts a" 8 zs 1 s l] by (simp add: ip6_best_def)
qed

lemma ip6_best_cases:
  assumes "ip6_best a zs zl"
  obtains "zs = 255" "zl = 1" "\<nexists>s l. longest_run (ip6_parts a) s l"
  | "zs < 8" "2 \<le> zl" "zs + zl \<le> 8" "longest_run (ip6_parts a) zs zl"
proof (cases "zl = 1")
  case True
  with assms have "zs = 255" "\<nexists>s l. longest_run (ip6_parts a) s l"
    using ip6_best_nolong [of a zs] by (auto simp: ip6_best_def best_run_def)
  with that(1) True show ?thesis by blast
next
  case False
  with assms have "zs < 8" "2 \<le> zl" "zs + zl \<le> 8" "longest_run (ip6_parts a) zs zl"
    by (auto simp: ip6_best_def best_run_def longest_run_def zero_run_def)
  with that(2) show ?thesis by blast
qed

lemma ip6_parts_set: "v \<in> set (ip6_parts a) \<Longrightarrow> v < 65536"
  using ip6_parts_bound [of _ a] by (auto simp: in_set_conv_nth)

lemma ip6tos_image:
  assumes "length a = 16" and "4 \<le> psz" and "40 \<le> length b"
  shows "\<exists>zs zl t. ip6_best a zs zl \<and> t = ip6_shape (part_image psz) (ip6_parts a) zs zl \<and> length t < 40 \<and>
    ip6tos psz a b = Some (t @ 0 # drop (Suc (length t)) b, length t)"
proof -
  have "best_run (ip6_parts a) 0 255 1" by (auto simp: best_run_def zero_run_def)
  from ip6_scan_spec [OF assms(1) this] obtain zs zl where
    scan: "ip6_scan a 0 255 1 = Some (zs, zl)" and best: "ip6_best a zs zl"
    by (auto simp: ip6_best_def)
  let ?t = "ip6_shape (part_image psz) (ip6_parts a) zs zl"
  have len: "length ?t \<le> 39"
  proof (rule ip6_shape_length)
    show "length (part_image psz v) \<le> 4" if "v \<in> set (ip6_parts a)" for v
      using ip6_parts_set [OF that] part_image_length [OF assms(2)] hex_text_length [of v] by simp
    show "2 \<le> zl \<and> zs + zl \<le> 8" if "zs < 8"
      using that by (cases rule: ip6_best_cases [OF best]) auto
  qed simp
  have "ip6_print psz a ([] @ drop (length ([] :: byte list)) b) (length ([] :: byte list)) 0 zs zl =
    Some ([] @ ?t @ 0 # drop (Suc (length ([] @ ?t))) b, length ([] @ ?t))"
  proof (cases rule: ip6_best_cases [OF best])
    case 1
    then show ?thesis
      using len assms by (intro ip6_print_tail) (auto simp: ip6_shape_def)
  next
    case 2
    then show ?thesis
      using len assms by (intro ip6_print_head) (auto simp: ip6_shape_def)
  qed
  with scan best len show ?thesis
    by (intro exI [of _ zs] exI [of _ zl] exI [of _ ?t]) (simp add: ip6tos_def ip6tos_at_def)
qed

end
