(* ===== verification/Ip6_Parse.thy ===== *)
theory Ip6_Parse
  imports Ip4_String Ip6_Print
begin

unbundle bit_operations_syntax

text \<open>
  Parsing of IPv6 text, \<open>stoip6\<close> and \<open>sipv6_prefixlength\<close> of
  \<open>mbed-os-netsocket/common/src/libip6string/stoip6.c\<close>, and the properties of the IPv6 conversions:
  printed text parses back, and the parser is safe on every string.

  \<open>size_t\<close> is 32 bits wide, as on the Cortex-M targets of the SDK, and wraps around.
\<close>

section \<open>Parsing\<close>

definition is_hex :: "byte \<Rightarrow> bool" where
  "is_hex c \<longleftrightarrow>
     (chr_A \<le> c AND NOT 0x20 \<and> c AND NOT 0x20 \<le> chr_F) \<or> (chr_0 \<le> c \<and> c \<le> chr_9)"

function hex_loop :: "byte list \<Rightarrow> nat \<Rightarrow> u16 \<Rightarrow> u16 option" where
  "hex_loop s p val =
     do {
       c \<leftarrow> rd s p;
       if chr_0 \<le> c \<and> c \<le> chr_9 then hex_loop s (Suc p) (push_bit 4 val OR ucast (c - chr_0))
       else if chr_A \<le> c \<and> c \<le> chr_F then hex_loop s (Suc p) (push_bit 4 val OR (10 + ucast (c - chr_A)))
       else if chr_a \<le> c \<and> c \<le> chr_f then hex_loop s (Suc p) (push_bit 4 val OR (10 + ucast (c - chr_a)))
       else Some val
     }"
  by pat_completeness auto
termination
  by (relation "measure (\<lambda>(s, p, v). length s - p)") (auto simp: return_iff)

declare hex_loop.simps [simp del]

definition hex :: "byte list \<Rightarrow> nat \<Rightarrow> u16 option" where
  "hex s p = hex_loop s p 0"

definition common_write_16_bit :: "u16 \<Rightarrow> byte list \<Rightarrow> nat \<Rightarrow> (byte list \<times> nat) option" where
  "common_write_16_bit val dest ptr =
     do { dest \<leftarrow> wr dest ptr (ucast (drop_bit 8 val));
          dest \<leftarrow> wr dest (Suc ptr) (ucast val);
          Some (dest, Suc (Suc ptr)) }"

text \<open>The seek for \<open>:\<close> or the end; \<open>Inl ()\<close> is the jump to \<open>error\<close>.\<close>

function stoip6_seek :: "byte list \<Rightarrow> nat \<Rightarrow> u32 \<Rightarrow> (unit + nat \<times> u32) option" where
  "stoip6_seek s q len =
     (if len \<noteq> 0 then
        do {
          c \<leftarrow> rd s q;
          if c \<noteq> 0 \<and> c \<noteq> chr_colon then
            if \<not> is_hex c then Some (Inl ()) else stoip6_seek s (Suc q) (len - 1)
          else Some (Inr (q, len))
        }
      else Some (Inr (q, len)))"
  by pat_completeness auto
termination
  by (relation "measure (\<lambda>(s, q, len). length s - q)") (auto simp: return_iff)

declare stoip6_seek.simps [simp del]

lemma stoip6_seek_ge: "stoip6_seek s q len = Some (Inr (q', len')) \<Longrightarrow> q \<le> q'"
proof (induction s q len rule: stoip6_seek.induct)
  case (1 s q len)
  from 1(2) show ?case
    by (subst (asm) stoip6_seek.simps) (auto simp: return_iff split: if_splits dest: 1(1))
qed

text \<open>
  The main loop; \<open>Inl dest\<close> is the jump to \<open>error\<close>.  \<open>addr\<close> is the write position in \<open>dest\<close>.
\<close>

function stoip6_loop ::
  "byte list \<Rightarrow> nat \<Rightarrow> u32 \<Rightarrow> nat \<Rightarrow> int \<Rightarrow> byte list \<Rightarrow> nat \<Rightarrow> (byte list + nat \<times> int \<times> byte list) option" where
  "stoip6_loop s p len field_no coloncolon dest addr =
     (if len = 0 then Some (Inr (field_no, coloncolon, dest))
      else do {
        c \<leftarrow> rd s p;
        if c = 0 then Some (Inr (field_no, coloncolon, dest))
        else do {
          r \<leftarrow> stoip6_seek s p len;
          case r of
            Inl _ \<Rightarrow> Some (Inl dest)
          | Inr (q, len) \<Rightarrow>
              if q - p > 4 then Some (Inl dest)
              else if field_no = 8 then Some (Inl dest)
              else do {
                v \<leftarrow> hex s p;
                (dest, addr) \<leftarrow> common_write_16_bit v dest addr;
                let field_no = Suc field_no;
                if len \<noteq> 0 then
                  do {
                    q0 \<leftarrow> rd s q;
                    dbl \<leftarrow> (if q0 = chr_colon then do { q1 \<leftarrow> rd s (Suc q); Some (q1 = chr_colon) } else Some False);
                    if dbl then
                      if coloncolon \<noteq> -1 then Some (Inl dest)
                      else stoip6_loop s (Suc (Suc q)) (len - 2) field_no (int field_no) dest addr
                    else stoip6_loop s (Suc q) (len - 1) field_no coloncolon dest addr
                  }
                else stoip6_loop s (Suc q) len field_no coloncolon dest addr
              }
        }
      })"
  by pat_completeness auto
termination
  by (relation "measure (\<lambda>(s, p, len, f, cc, d, a). length s - p)")
    (auto simp: return_iff dest!: stoip6_seek_ge)

declare stoip6_loop.simps [simp del]

definition stoip6_error :: "byte list \<Rightarrow> (bool \<times> byte list) option" where
  "stoip6_error dest = do { dest \<leftarrow> mem_set dest 0 0 16; Some (False, dest) }"

definition stoip6 :: "byte list \<Rightarrow> u32 \<Rightarrow> byte list \<Rightarrow> (bool \<times> byte list) option" where
  "stoip6 ip6addr len dest =
     (if len \<ge> 40 then stoip6_error dest
      else do {
        r \<leftarrow> stoip6_loop ip6addr 0 len 0 (-1) dest 0;
        case r of
          Inl dest \<Rightarrow> stoip6_error dest
        | Inr (field_no, coloncolon, dest) \<Rightarrow>
            if coloncolon \<noteq> -1 then
              do {
                let head_size = 2 * nat coloncolon;
                let inserted_size = 2 * (8 - field_no);
                let tail_size = 16 - head_size - inserted_size;
                dest \<leftarrow> mem_move dest (head_size + inserted_size) head_size tail_size;
                dest \<leftarrow> mem_set dest head_size 0 inserted_size;
                Some (True, dest)
              }
            else if field_no \<noteq> 8 then stoip6_error dest
            else Some (True, dest)
      })"

subsection \<open>Prefix length\<close>

function strchr :: "byte list \<Rightarrow> nat \<Rightarrow> byte \<Rightarrow> nat option option" where
  "strchr s p c =
     do { x \<leftarrow> rd s p;
          if x = c then Some (Some p) else if x = 0 then Some None else strchr s (Suc p) c }"
  by pat_completeness auto
termination
  by (relation "measure (\<lambda>(s, p, c). length s - p)") (auto simp: return_iff)

declare strchr.simps [simp del]

text \<open>
  \<open>strtoul (s, 0, 10)\<close>: leading white space, an optional sign, then decimal digits; the value wraps
  for a negated one and is \<open>ULONG_MAX\<close> when the digits do not fit \<open>unsigned long\<close> (32 bits).
\<close>

function skip_space :: "byte list \<Rightarrow> nat \<Rightarrow> nat option" where
  "skip_space s p = do { x \<leftarrow> rd s p; if x = 32 \<or> 9 \<le> x \<and> x \<le> 13 then skip_space s (Suc p) else Some p }"
  by pat_completeness auto
termination
  by (relation "measure (\<lambda>(s, p). length s - p)") (auto simp: return_iff)

function dec_loop :: "byte list \<Rightarrow> nat \<Rightarrow> nat \<Rightarrow> nat option" where
  "dec_loop s p v =
     do { x \<leftarrow> rd s p; if chr_0 \<le> x \<and> x \<le> chr_9 then dec_loop s (Suc p) (v * 10 + unat (x - chr_0)) else Some v }"
  by pat_completeness auto
termination
  by (relation "measure (\<lambda>(s, p, v). length s - p)") (auto simp: return_iff)

declare skip_space.simps [simp del] dec_loop.simps [simp del]

definition strtoul_10 :: "byte list \<Rightarrow> nat \<Rightarrow> u32 option" where
  "strtoul_10 s p =
     do {
       p \<leftarrow> skip_space s p;
       x \<leftarrow> rd s p;
       v \<leftarrow> dec_loop s (if x = 43 \<or> x = 45 then Suc p else p) 0;
       Some (if v > 4294967295 then 4294967295 else if x = 45 then - of_nat v else of_nat v)
     }"

definition sipv6_prefixlength :: "byte list \<Rightarrow> byte option" where
  "sipv6_prefixlength ip6addr =
     do { r \<leftarrow> strchr ip6addr 0 chr_slash;
          case r of None \<Rightarrow> Some 0 | Some p \<Rightarrow> do { v \<leftarrow> strtoul_10 ip6addr (p + 1); Some (ucast v) } }"

section \<open>Parsing is correct\<close>

lemma u32_of_nat_eq_0: "k < 4294967296 \<Longrightarrow> (of_nat k :: u32) = 0 \<longleftrightarrow> k = 0"
  by (simp add: unat_0_iff [symmetric] unat_of_nat)

definition hex_digit :: "byte \<Rightarrow> nat" where
  "hex_digit c = (if chr_0 \<le> c \<and> c \<le> chr_9 then unat c - 48
     else if chr_A \<le> c \<and> c \<le> chr_F then unat c - 55 else unat c - 87)"

definition hex_value :: "byte list \<Rightarrow> nat" where
  "hex_value h = foldl (\<lambda>v c. v * 16 + hex_digit c) 0 h"

lemma is_hex_iff: "is_hex c \<longleftrightarrow> chr_0 \<le> c \<and> c \<le> chr_9 \<or> chr_A \<le> c \<and> c \<le> chr_F \<or> chr_a \<le> c \<and> c \<le> chr_f"
proof -
  have "\<forall>n \<in> set [0..<256]. is_hex (of_nat n) \<longleftrightarrow> chr_0 \<le> of_nat n \<and> of_nat n \<le> chr_9 \<or>
    chr_A \<le> of_nat n \<and> of_nat n \<le> chr_F \<or> chr_a \<le> of_nat n \<and> of_nat n \<le> chr_f"
    by code_simp
  then have "is_hex (of_nat (unat c)) \<longleftrightarrow> chr_0 \<le> of_nat (unat c) \<and> of_nat (unat c) \<le> chr_9 \<or>
    chr_A \<le> of_nat (unat c) \<and> of_nat (unat c) \<le> chr_F \<or> chr_a \<le> of_nat (unat c) \<and> of_nat (unat c) \<le> chr_f"
    using unat_byte_less [of c] by (auto simp del: of_nat_unat unat_byte_less)
  then show ?thesis by simp
qed


lemma u16_shift_or: "d < 16 \<Longrightarrow> push_bit 4 v OR of_nat d = (v * 16 + of_nat d :: u16)"
proof -
  assume d: "d < 16"
  have "push_bit 4 v AND of_nat d = (0 :: u16)"
  proof (rule bit_word_eqI)
    fix n assume "n < LENGTH(16)"
    have "\<not> bit d n" if "4 \<le> n"
    proof -
      have "d < 2 ^ n" using d that power_increasing [of 4 n "2 :: nat"] by simp
      then show ?thesis by (simp add: bit_iff_odd)
    qed
    then show "bit (push_bit 4 v AND of_nat d) n \<longleftrightarrow> bit (0 :: u16) n"
      by (auto simp: bit_simps not_le)
  qed
  then show ?thesis
    by (simp add: disjunctive_add_eq_or [symmetric] push_bit_eq_mult mult.commute)
qed

lemma unat_minus_byte: "b \<le> c \<Longrightarrow> unat (c - b) = unat c - unat (b :: byte)"
  by (simp add: unat_sub)

lemma ucast_byte_of_nat: "(ucast (c :: byte) :: u16) = of_nat (unat c)"
  by simp

lemma hex_loop_digit:
  assumes "rd s p = Some c" and "is_hex c"
  shows "hex_loop s p v = hex_loop s (Suc p) (v * 16 + of_nat (hex_digit c))" and "hex_digit c < 16"
proof -
  consider "chr_0 \<le> c" "c \<le> chr_9" | "chr_A \<le> c" "c \<le> chr_F" | "chr_a \<le> c" "c \<le> chr_f"
    using assms(2) by (auto simp: is_hex_iff)
  then have "hex_digit c < 16 \<and> hex_loop s p v = hex_loop s (Suc p) (v * 16 + of_nat (hex_digit c))"
  proof cases
    case 1
    then have "ucast (c - chr_0) = (of_nat (hex_digit c) :: u16)" "hex_digit c < 16"
      by (simp_all add: hex_digit_def unat_minus_byte ucast_byte_of_nat word_le_nat_alt del: of_nat_unat)
    with 1 show ?thesis
      using assms(1) by (subst hex_loop.simps) (simp add: u16_shift_or)
  next
    case 2
    then have n: "\<not> c \<le> chr_9" and d: "hex_digit c = 10 + (unat c - 65)"  "unat c \<le> 70" "65 \<le> unat c"
      by (auto simp: hex_digit_def word_le_nat_alt)
    have "10 + ucast (c - chr_A) = (of_nat (hex_digit c) :: u16)"
      using 2 by (simp only: d unat_minus_byte ucast_byte_of_nat of_nat_add) simp
    moreover have "hex_digit c < 16" using d by linarith
    moreover have "hex_loop s p v = hex_loop s (Suc p) (push_bit 4 v OR (10 + ucast (c - chr_A)))"
      using assms(1) n 2 by (subst hex_loop.simps) simp
    ultimately show ?thesis by (simp only: u16_shift_or simp_thms)
  next
    case 3
    then have n: "\<not> c \<le> chr_9" "\<not> c \<le> chr_F" and d: "hex_digit c = 10 + (unat c - 97)"  "unat c \<le> 102" "97 \<le> unat c"
      by (auto simp: hex_digit_def word_le_nat_alt)
    have "10 + ucast (c - chr_a) = (of_nat (hex_digit c) :: u16)"
      using 3 by (simp only: d unat_minus_byte ucast_byte_of_nat of_nat_add) simp
    moreover have "hex_digit c < 16" using d by linarith
    moreover have "hex_loop s p v = hex_loop s (Suc p) (push_bit 4 v OR (10 + ucast (c - chr_a)))"
      using assms(1) n 3 by (subst hex_loop.simps) simp
    ultimately show ?thesis by (simp only: u16_shift_or simp_thms)
  qed
  then show "hex_loop s p v = hex_loop s (Suc p) (v * 16 + of_nat (hex_digit c))" and "hex_digit c < 16" by auto
qed

lemma hex_loop_stop: "rd s p = Some c \<Longrightarrow> \<not> is_hex c \<Longrightarrow> hex_loop s p v = Some v"
  by (subst hex_loop.simps) (auto simp: is_hex_iff)

lemma hex_loop_run:
  assumes "list_all is_hex h" and "\<not> is_hex c"
  shows "hex_loop (pre @ h @ c # post) (length pre) v =
    Some (foldl (\<lambda>v c. v * 16 + of_nat (hex_digit c)) v h)"
  using assms(1)
proof (induction h arbitrary: pre v)
  case Nil
  then show ?case using assms(2) by (simp add: hex_loop_stop cmem)
next
  case (Cons x h)
  then show ?case
    using Cons.IH [of "pre @ [x]"] by (simp add: hex_loop_digit(1) [of _ _ x] cmem)
qed

lemma hex_run:
  assumes "list_all is_hex h" and "\<not> is_hex c"
  shows "hex (pre @ h @ c # post) (length pre) = Some (of_nat (hex_value h))"
proof -
  have "foldl (\<lambda>v c. v * 16 + of_nat (hex_digit c)) (of_nat v) h =
      (of_nat (foldl (\<lambda>v c. v * 16 + hex_digit c) v h) :: u16)" for v
  proof (induction h arbitrary: v)
    case (Cons x h)
    show ?case using Cons.IH [of "v * 16 + hex_digit x"] by simp
  qed simp
  from this [of 0] show ?thesis
    using hex_loop_run [OF assms] by (simp add: hex_def hex_value_def)
qed

lemma stoip6_seek_run:
  assumes "list_all is_hex h" and "m = 0 \<or> c = 0 \<or> c = chr_colon" and "length h + m < 4294967296"
  shows "stoip6_seek (pre @ h @ c # post) (length pre) (of_nat (length h + m)) =
    Some (Inr (length pre + length h, of_nat m))"
  using assms
proof (induction h arbitrary: pre)
  case Nil
  then show ?case by (subst stoip6_seek.simps) (auto simp: cmem)
next
  case (Cons x h)
  then have x: "x \<noteq> 0" "x \<noteq> chr_colon" "is_hex x" by (auto simp: is_hex_iff)
  have "stoip6_seek (pre @ (x # h) @ c # post) (length pre) (of_nat (length (x # h) + m)) =
    stoip6_seek ((pre @ [x]) @ h @ c # post) (length (pre @ [x])) (of_nat (length h + m))"
    using x Cons.prems(3) u32_of_nat_eq_0 [of "Suc (length h + m)"]
    by (subst stoip6_seek.simps) (simp add: cmem del: of_nat_Suc, simp)
  then show ?case using Cons.IH [of "pre @ [x]"] Cons.prems by simp
qed

text \<open>An address as the bytes of its parts.\<close>

definition part_bytes :: "nat \<Rightarrow> byte list" where
  "part_bytes v = [of_nat (v div 256), of_nat v]"

lemma part_bytes_length [simp]: "length (part_bytes v) = 2"
  by (simp add: part_bytes_def)

lemma common_write_16_bit_cursor:
  assumes "v < 65536" and "2 \<le> length rest"
  shows "common_write_16_bit (of_nat v) (e @ rest) (length e) =
    Some (e @ part_bytes v @ drop 2 rest, length e + 2)"
proof -
  from assms(2) obtain x y r where rest: "rest = x # y # r"
    using length_gt_1 [of rest] by auto
  have "ucast (drop_bit 8 (of_nat v :: u16)) = (of_nat (v div 256) :: byte)"
    using assms(1) by (simp add: word_unat_eq_iff unat_drop_bit_eq drop_bit_eq_div unat_of_nat unat_div unsigned_ucast_eq take_bit_eq_mod)
  moreover have "ucast (of_nat v :: u16) = (of_nat v :: byte)"
    using assms(1) by (simp add: word_unat_eq_iff unat_of_nat unat_div unsigned_ucast_eq take_bit_eq_mod)
  ultimately show ?thesis
    by (simp add: rest common_write_16_bit_def part_bytes_def cmem)
qed

text \<open>
  One round of the loop on a field of at most four digits, when the text ends behind it, when a
  single colon follows and when a double one does.  \<open>e\<close> is the part of the address that is
  already written.
\<close>

lemma stoip6_round:
  assumes "list_all is_hex h" and "length h \<le> 4" and "hex_value h < 65536"
    and "m = 0 \<or> c = chr_colon" and "c = 0 \<or> c = chr_colon" and "0 < length h + m" and "m < 1000"
    and "length e = 2 * f" and "f < 8" and "2 \<le> length rest" and "s = pre @ h @ c # post"
  shows "stoip6_loop s (length pre) (of_nat (length h + m)) f cc (e @ rest) (2 * f) =
    (if m = 0 then Some (Inr (Suc f, cc, e @ part_bytes (hex_value h) @ drop 2 rest))
     else do {
       q1 \<leftarrow> rd post 0;
       if q1 = chr_colon then
         if cc \<noteq> -1 then Some (Inl (e @ part_bytes (hex_value h) @ drop 2 rest))
         else stoip6_loop s (length pre + length h + 2) (of_nat m - 2) (Suc f) (int (Suc f))
           (e @ part_bytes (hex_value h) @ drop 2 rest) (2 * Suc f)
       else stoip6_loop s (length pre + length h + 1) (of_nat (m - 1)) (Suc f) cc
           (e @ part_bytes (hex_value h) @ drop 2 rest) (2 * Suc f)
     })"
proof -
  have seek: "stoip6_seek s (length pre) (of_nat (length h + m)) = Some (Inr (length pre + length h, of_nat m))"
    unfolding assms(11) by (rule stoip6_seek_run) (use assms in auto)
  have hex: "hex s (length pre) = Some (of_nat (hex_value h))"
    unfolding assms(11) by (rule hex_run) (use assms in \<open>auto simp: is_hex_iff\<close>)
  have wr: "common_write_16_bit (of_nat (hex_value h)) (e @ rest) (2 * f) =
      Some (e @ part_bytes (hex_value h) @ drop 2 rest, 2 * Suc f)"
    using common_write_16_bit_cursor [OF assms(3,10), of e] assms(8) by simp
  have len: "(of_nat (length h + m) :: u32) \<noteq> 0" "(of_nat m :: u32) = 0 \<longleftrightarrow> m = 0"
    using assms(2,6,7) by (subst u32_of_nat_eq_0, simp_all add: u32_of_nat_eq_0)
  have first: "\<exists>x. rd s (length pre) = Some x \<and> x \<noteq> 0"
    using assms(1,4,6) unfolding assms(11) by (cases h) (auto simp: cmem is_hex_iff)
  have rdq: "rd s (length pre + length h) = Some c" "rd s (Suc (length pre + length h)) = rd post 0"
    unfolding assms(11) by (simp_all add: rd_append_ge)
  have m1: "(of_nat m :: u32) - 1 = of_nat (m - 1)" if "m \<noteq> 0"
    using that by (cases m) simp_all
  show ?thesis
  proof (cases "m = 0")
    case True
    with first seek hex wr len assms(2,9) show ?thesis
      by (subst stoip6_loop.simps, subst stoip6_loop.simps) (auto simp: Let_def)
  next
    case False
    then have "c = chr_colon" using assms(4) by simp
    with False first seek hex wr len rdq m1 assms(2,9) show ?thesis
      by (subst stoip6_loop.simps) (cases "rd post 0"; auto simp: Let_def)
  qed
qed

text \<open>The hexadecimal text of a part is a field of the parser with the same value.\<close>

lemma hex_chr_digit: "d < 16 \<Longrightarrow> is_hex (hex_chr d) \<and> hex_digit (hex_chr d) = d"
proof -
  have "\<forall>d \<in> set [0..<16]. is_hex (hex_chr d) \<and> hex_digit (hex_chr d) = d" by code_simp
  then show "d < 16 \<Longrightarrow> is_hex (hex_chr d) \<and> hex_digit (hex_chr d) = d" by simp
qed

lemma hex_text_field:
  assumes "v < 65536"
  shows "list_all is_hex (hex_text v)" and "length (hex_text v) \<le> 4" and "hex_value (hex_text v) = v"
    and "hex_text v \<noteq> []"
proof -
  have d: "d < 16" if "d \<in> set (digits_of 16 v)" for d
    using digits_of_bound [OF _ that] by simp
  then show "list_all is_hex (hex_text v)"
    by (auto simp: hex_text_def list_all_iff hex_chr_digit)
  show "length (hex_text v) \<le> 4" by (rule hex_text_length) fact
  have "foldl (\<lambda>v c. v * 16 + hex_digit c) b (map hex_chr ds) = foldl (\<lambda>v d. v * 16 + d) b ds"
    if "\<forall>d\<in>set ds. d < 16" for b ds
    using that by (induction ds arbitrary: b) (simp_all add: hex_chr_digit)
  then show "hex_value (hex_text v) = v"
    using d digits_of_value [of 16 v] by (simp add: hex_value_def hex_text_def)
  show "hex_text v \<noteq> []" by (simp add: hex_text_def)
qed

definition parts_bytes :: "nat list \<Rightarrow> byte list" where
  "parts_bytes vs = concat (map part_bytes vs)"

lemma parts_bytes_simps [simp]:
  "parts_bytes [] = []" "parts_bytes (v # vs) = part_bytes v @ parts_bytes vs"
  "parts_bytes (vs @ ws) = parts_bytes vs @ parts_bytes ws" "length (parts_bytes vs) = 2 * length vs"
  by (simp_all add: parts_bytes_def) (induction vs, simp_all)

text \<open>Fields with single colons between them, up to the end of the text.\<close>

lemma stoip6_join:
  assumes "\<forall>v\<in>set vs. v < 65536" and "length e = 2 * f" and "f + length vs \<le> 8" and "length e + length rest = 16"
    and "s = pre @ ip6_join hex_text vs @ 0 # post"
  shows "stoip6_loop s (length pre) (of_nat (length (ip6_join hex_text vs))) f cc (e @ rest) (2 * f) =
    Some (Inr (f + length vs, cc, e @ parts_bytes vs @ drop (2 * length vs) rest))"
  using assms
proof (induction vs arbitrary: pre f e rest)
  case Nil
  then show ?case by (subst stoip6_loop.simps) simp
next
  case (Cons v vs)
  have v: "v < 65536" using Cons.prems by simp
  note field = hex_text_field [OF v]
  show ?case
  proof (cases "vs = []")
    case True
    then show ?thesis
      using stoip6_round [of "hex_text v" 0 0 e f rest s pre post cc] field v Cons.prems by simp
  next
    case False
    let ?w = "ip6_join hex_text vs"
    have t: "ip6_join hex_text (v # vs) = hex_text v @ chr_colon # ?w" by (rule ip6_join_Cons [OF False])
    have "?w \<noteq> [] \<and> hd ?w \<noteq> chr_colon"
    proof -
      obtain x xs where vs: "vs = x # xs" using False by (cases vs) auto
      then have "x < 65536" using Cons.prems by simp
      from hex_text_field(1,4) [OF this] vs show ?thesis
        by (cases xs; cases "hex_text x") (auto simp: is_hex_iff)
    qed
    then obtain c w where w: "?w = c # w" "c \<noteq> chr_colon" by (cases ?w) auto
    have len: "length ?w \<le> 5 * length vs"
      using ip6_join_length [of vs hex_text] hex_text_field(2) Cons.prems(1) by fastforce
    have "stoip6_loop s (length (pre @ hex_text v @ [chr_colon])) (of_nat (length ?w)) (Suc f) cc
        ((e @ part_bytes v) @ drop 2 rest) (2 * Suc f) =
      Some (Inr (Suc f + length vs, cc, (e @ part_bytes v) @ parts_bytes vs @ drop (2 * length vs) (drop 2 rest)))"
      by (rule Cons.IH) (use Cons.prems t in auto)
    moreover have "stoip6_loop s (length pre) (of_nat (length (hex_text v) + Suc (length ?w))) f cc (e @ rest) (2 * f) =
      stoip6_loop s (length pre + length (hex_text v) + 1) (of_nat (length ?w)) (Suc f) cc
        (e @ part_bytes v @ drop 2 rest) (2 * Suc f)"
      using stoip6_round [of "hex_text v" "Suc (length ?w)" chr_colon e f rest s pre "?w @ 0 # post" cc]
        field v w len Cons.prems t by simp
    ultimately show ?thesis using t by (simp add: add.commute)
  qed
qed

text \<open>Fields up to a double colon.\<close>

lemma stoip6_each:
  assumes "\<forall>v\<in>set vs. v < 65536" and "vs \<noteq> []" and "length e = 2 * f" and "f + length vs \<le> 8" and "length e + length rest = 16"
    and "s = pre @ ip6_each hex_text vs @ chr_colon # w @ 0 # post" and "length w \<le> 40"
  shows "stoip6_loop s (length pre) (of_nat (length (ip6_each hex_text vs) + Suc (length w))) f (-1) (e @ rest) (2 * f) =
    stoip6_loop s (length (pre @ ip6_each hex_text vs @ [chr_colon])) (of_nat (length w)) (f + length vs) (int (f + length vs))
      (e @ parts_bytes vs @ drop (2 * length vs) rest) (2 * (f + length vs))"
  using assms
proof (induction vs arbitrary: pre f e rest)
  case (Cons v vs)
  have v: "v < 65536" using Cons.prems by simp
  note field = hex_text_field [OF v]
  let ?w = "ip6_each hex_text vs @ chr_colon # w"
  have t: "ip6_each hex_text (v # vs) = hex_text v @ chr_colon # ip6_each hex_text vs"
    by (simp add: ip6_each_def)
  have len: "length (ip6_each hex_text vs) \<le> 5 * length vs"
    using ip6_each_length [of vs hex_text] hex_text_field(2) Cons.prems(1) by fastforce
  show ?case
  proof (cases "vs = []")
    case True
    then show ?thesis
      using stoip6_round [of "hex_text v" "Suc (Suc (length w))" chr_colon e f rest s pre "?w @ 0 # post" "-1"]
        field v Cons.prems t by (simp add: ip6_each_def add.commute, simp add: numeral_2_eq_2)
  next
    case False
    then obtain x xs where vs: "vs = x # xs" by (cases vs) auto
    then have "x < 65536" using Cons.prems by simp
    from hex_text_field(1,4) [OF this] vs have "ip6_each hex_text vs \<noteq> [] \<and> hd (ip6_each hex_text vs) \<noteq> chr_colon"
      by (cases "hex_text x") (auto simp: is_hex_iff ip6_each_def)
    then obtain c w' where c: "ip6_each hex_text vs = c # w'" "c \<noteq> chr_colon"
      by (cases "ip6_each hex_text vs") auto
    have "stoip6_loop s (length (pre @ hex_text v @ [chr_colon])) (of_nat (length (ip6_each hex_text vs) + Suc (length w))) (Suc f) (-1)
        ((e @ part_bytes v) @ drop 2 rest) (2 * Suc f) =
      stoip6_loop s (length ((pre @ hex_text v @ [chr_colon]) @ ip6_each hex_text vs @ [chr_colon])) (of_nat (length w))
        (Suc f + length vs) (int (Suc f + length vs))
        ((e @ part_bytes v) @ parts_bytes vs @ drop (2 * length vs) (drop 2 rest)) (2 * (Suc f + length vs))"
      by (rule Cons.IH) (use Cons.prems t False in auto)
    moreover have "stoip6_loop s (length pre) (of_nat (length (hex_text v) + Suc (length ?w))) f (-1) (e @ rest) (2 * f) =
      stoip6_loop s (length pre + length (hex_text v) + 1) (of_nat (length ?w)) (Suc f) (-1)
        (e @ part_bytes v @ drop 2 rest) (2 * Suc f)"
      using stoip6_round [of "hex_text v" "Suc (length ?w)" chr_colon e f rest s pre "?w @ 0 # post" "-1"]
        field v c len Cons.prems t by simp
    ultimately show ?thesis using t by (simp add: add.commute add.left_commute)
  qed
qed simp

lemma parts_bytes_of_parts: "length a = 16 \<Longrightarrow> parts_bytes (ip6_parts a) = a"
proof -
  assume "length a = 16"
  then obtain a0 a1 a2 a3 a4 a5 a6 a7 a8 a9 a10 a11 a12 a13 a14 a15
    where "a = [a0, a1, a2, a3, a4, a5, a6, a7, a8, a9, a10, a11, a12, a13, a14, a15]"
    by (auto simp: length_Suc_conv numeral_eq_Suc)
  moreover have "part_bytes (unat h * 256 + unat l) = [h, l]" for h l :: byte
    by (simp add: part_bytes_def word_unat_eq_iff unat_of_nat del: of_nat_add of_nat_mult)
  ultimately show ?thesis by (simp add: ip6_parts_def upt_rec)
qed

lemma zero_run_split:
  assumes "zero_run ps s l"
  shows "ps = take s ps @ replicate l 0 @ drop (s + l) ps"
proof (rule nth_equalityI)
  show "length ps = length (take s ps @ replicate l 0 @ drop (s + l) ps)"
    using assms by (simp add: zero_run_def)
  show "ps ! i = (take s ps @ replicate l 0 @ drop (s + l) ps) ! i" if "i < length ps" for i
    using assms that by (auto simp: zero_run_def nth_append)
qed

lemma parts_bytes_zeros: "parts_bytes (replicate n 0) = replicate (2 * n) 0"
  by (induction n) (simp_all add: part_bytes_def)

text \<open>The parser on RFC 5952 text.\<close>

lemma stoip6_no_run:
  assumes "length a = 16" and "length dest = 16"
  shows "stoip6 (ip6_join hex_text (ip6_parts a) @ 0 # post) (of_nat (length (ip6_join hex_text (ip6_parts a)))) dest =
    Some (True, a)"
proof -
  let ?t = "ip6_join hex_text (ip6_parts a)"
  have "length ?t \<le> 39"
    using ip6_join_length [of "ip6_parts a" hex_text] hex_text_length ip6_parts_set by fastforce
  then have "\<not> (40 :: u32) \<le> of_nat (length ?t)" by (simp add: word_le_nat_alt unat_of_nat)
  moreover have "stoip6_loop (?t @ 0 # post) (length ([] :: byte list)) (of_nat (length ?t)) 0 (-1) ([] @ dest) (2 * 0) =
    Some (Inr (0 + length (ip6_parts a), -1, [] @ parts_bytes (ip6_parts a) @ drop (2 * length (ip6_parts a)) dest))"
    by (rule stoip6_join) (use assms ip6_parts_set in auto)
  ultimately show ?thesis using assms by (simp add: stoip6_def parts_bytes_of_parts)
qed

text \<open>The zeros that are put where the double colon stood.\<close>

lemma open_gap:
  assumes "length junk = n"
  shows "do { dest \<leftarrow> mem_move (hd_part @ tl_part @ junk) (length hd_part + n) (length hd_part) (length tl_part);
              dest \<leftarrow> mem_set dest (length hd_part) 0 n; Some (True, dest) } =
    Some (True, hd_part @ replicate n 0 @ tl_part)"
proof -
  have "mem_move (hd_part @ tl_part @ junk) (length hd_part + n) (length hd_part) (length tl_part) =
    Some (hd_part @ take n (tl_part @ junk) @ tl_part)"
    using assms by (simp add: mem_move_def mem_read_def mem_write_def add.commute)
  moreover have "length (take n (tl_part @ junk)) = length (replicate n (0 :: byte))"
    using assms by simp
  ultimately show ?thesis by (simp add: mem_set_def mem_write_cursor del: take_append length_take)
qed

lemma stoip6_insert:
  assumes "length hs + length ts \<le> 8" and "length junk = 16 - 2 * (length hs + length ts)"
    and "n = 8 - (length hs + length ts)"
  shows "do { dest \<leftarrow> mem_move (parts_bytes hs @ parts_bytes ts @ junk) (2 * length hs + 2 * n) (2 * length hs)
                (16 - 2 * length hs - 2 * n);
              dest \<leftarrow> mem_set dest (2 * length hs) 0 (2 * n); Some (True, dest) } =
    Some (True, parts_bytes (hs @ replicate n 0 @ ts))"
proof -
  have len: "16 - 2 * length hs - 2 * n = 2 * length ts" "length junk = 2 * n"
    using assms by auto
  from open_gap [OF len(2), of "parts_bytes hs" "parts_bytes ts"] show ?thesis
    unfolding len(1) by (simp add: parts_bytes_zeros)
qed

lemma stoip6_with_run:
  assumes "length a = 16" and "length dest = 16" and "longest_run (ip6_parts a) zs zl"
    and "t = ip6_shape hex_text (ip6_parts a) zs zl"
  shows "stoip6 (t @ 0 # post) (of_nat (length t)) dest = Some (True, a)"
proof -
  let ?ps = "ip6_parts a"
  have zl: "2 \<le> zl" "zs + zl \<le> 8" "zero_run ?ps zs zl"
    using assms(3) by (auto simp: longest_run_def zero_run_def)
  let ?ts = "drop (zs + zl) ?ps" and ?w = "ip6_join hex_text (drop (zs + zl) ?ps)"
  define hs where "hs = (if zs = 0 then [0] else take zs ?ps)"
  have "length hs = max zs 1" using zl by (auto simp: hs_def)
  then have hs: "length hs = max zs 1" "hs \<noteq> []" "\<forall>v\<in>set hs. v < 65536" "\<forall>v\<in>set ?ts. v < 65536"
    using zl ip6_parts_set [of _ a] by (auto simp: hs_def dest: in_set_takeD in_set_dropD)
  have w: "length ?w \<le> 40"
    using ip6_join_length [of ?ts hex_text] hex_text_length hs(4) by fastforce
  define pre where "pre = (if zs = 0 then [] else ip6_each hex_text (take zs ?ps)) @ (if zs = 0 then [chr_colon] else [])"
  have t: "t = pre @ chr_colon # ?w"
    using zl assms(4) by (simp add: ip6_shape_def pre_def ip6_each_def)
  have "length t \<le> 39"
    unfolding assms(4) by (rule ip6_shape_length) (use zl ip6_parts_set hex_text_length in auto)
  then have len: "\<not> (40 :: u32) \<le> of_nat (length t)" by (simp add: word_le_nat_alt unat_of_nat)
  have head: "stoip6_loop (t @ 0 # post) 0 (of_nat (length t)) 0 (-1) dest 0 =
    stoip6_loop (t @ 0 # post) (length (pre @ [chr_colon])) (of_nat (length ?w)) (length hs) (int (length hs))
      (parts_bytes hs @ drop (2 * length hs) dest) (2 * length hs)"
  proof (cases "zs = 0")
    case True
    then show ?thesis
      using stoip6_round [of "[]" "Suc (Suc (length ?w))" chr_colon "[]" 0 dest "t @ 0 # post" "[]" "chr_colon # ?w @ 0 # post" "-1"]
        t w assms(2) by (simp add: pre_def hs_def hex_value_def)
  next
    case False
    then have "hs = take zs ?ps" "pre = ip6_each hex_text hs" by (simp_all add: hs_def pre_def)
    then show ?thesis
      using stoip6_each [of hs "[]" 0 dest "t @ 0 # post" "[]" ?w post] hs zl w t assms(2) False by simp
  qed
  have tail: "stoip6_loop (t @ 0 # post) (length (pre @ [chr_colon])) (of_nat (length ?w)) (length hs) (int (length hs))
      (parts_bytes hs @ drop (2 * length hs) dest) (2 * length hs) =
    Some (Inr (length hs + length ?ts, int (length hs),
      parts_bytes hs @ parts_bytes ?ts @ drop (2 * length ?ts) (drop (2 * length hs) dest)))"
    by (rule stoip6_join) (use hs zl t assms(2) in auto)
  let ?n = "8 - (length hs + length ?ts)"
  have "hs @ replicate ?n 0 @ ?ts = take zs ?ps @ replicate zl 0 @ ?ts"
  proof (cases "zs = 0")
    case True
    then show ?thesis using zl by (cases zl) (auto simp: hs_def)
  qed (use zl in \<open>simp add: hs_def\<close>)
  also have "\<dots> = ?ps" using zero_run_split [OF zl(3)] by simp
  finally have all: "parts_bytes (hs @ replicate ?n 0 @ ?ts) = a"
    using parts_bytes_of_parts [OF assms(1)] by simp
  have ins: "do { dest \<leftarrow> mem_move (parts_bytes hs @ parts_bytes ?ts @ drop (2 * length ?ts) (drop (2 * length hs) dest))
        (2 * length hs + 2 * ?n) (2 * length hs) (16 - 2 * length hs - 2 * ?n);
      dest \<leftarrow> mem_set dest (2 * length hs) 0 (2 * ?n); Some (True, dest) } =
    Some (True, parts_bytes (hs @ replicate ?n 0 @ ?ts))"
    by (rule stoip6_insert) (use hs(1) zl assms(2) in auto)
  have "stoip6 (t @ 0 # post) (of_nat (length t)) dest =
    do { dest \<leftarrow> mem_move (parts_bytes hs @ parts_bytes ?ts @ drop (2 * length ?ts) (drop (2 * length hs) dest))
        (2 * length hs + 2 * ?n) (2 * length hs) (16 - 2 * length hs - 2 * ?n);
      dest \<leftarrow> mem_set dest (2 * length hs) 0 (2 * ?n); Some (True, dest) }"
    unfolding stoip6_def using len by (simp only: if_False head tail) (simp add: Let_def)
  then show ?thesis unfolding ins all .
qed

section \<open>The text in the buffer\<close>

lemma ip6_join_cong: "(\<And>v. v \<in> set vs \<Longrightarrow> f v = g v) \<Longrightarrow> ip6_join f vs = ip6_join g vs"
  by (induction f vs rule: ip6_join.induct) auto

lemma ip6_each_cong: "(\<And>v. v \<in> set vs \<Longrightarrow> f v = g v) \<Longrightarrow> ip6_each f vs = ip6_each g vs"
  by (induction vs) (auto simp: ip6_each_def)

lemma ip6_shape_cong:
  assumes "\<And>v. v \<in> set ps \<Longrightarrow> f v = g v"
  shows "ip6_shape f ps zs zl = ip6_shape g ps zs zl"
proof -
  have "ip6_each f (take zs ps) = ip6_each g (take zs ps)"
    by (rule ip6_each_cong) (rule assms, erule in_set_takeD)
  moreover have "ip6_join f (drop (zs + zl) ps) = ip6_join g (drop (zs + zl) ps)"
    by (rule ip6_join_cong) (rule assms, erule in_set_dropD)
  moreover have "ip6_join f ps = ip6_join g ps"
    by (rule ip6_join_cong) (rule assms)
  ultimately show ?thesis by (simp add: ip6_shape_def)
qed

lemma ip6_join_set: "x \<in> set (ip6_join enc vs) \<Longrightarrow> x = chr_colon \<or> (\<exists>v\<in>set vs. x \<in> set (enc v))"
  by (induction enc vs rule: ip6_join.induct) auto

lemma ip6_shape_set:
  "x \<in> set (ip6_shape enc ps zs zl) \<Longrightarrow> x = chr_colon \<or> (\<exists>v\<in>set ps. x \<in> set (enc v))"
  by (auto simp: ip6_shape_def ip6_each_def split: if_splits dest!: ip6_join_set dest: in_set_takeD in_set_dropD)

lemma ip6_shape_text: "ip6_best a zs zl \<Longrightarrow> ip6_text a (ip6_shape hex_text (ip6_parts a) zs zl)"
proof (erule ip6_best_cases)
  assume "zs = 255" "\<nexists>s l. longest_run (ip6_parts a) s l"
  then show ?thesis by (simp add: ip6_text_def ip6_shape_def)
next
  assume "longest_run (ip6_parts a) zs zl"
  then show ?thesis unfolding ip6_text_def by (subst if_P) blast+
qed

definition text_chars :: "byte list \<Rightarrow> bool" where
  "text_chars t \<longleftrightarrow> (\<forall>c\<in>set t. is_hex c \<or> c = chr_colon)"

lemma hex_shape_chars: "text_chars (ip6_shape hex_text (ip6_parts a) zs zl)"
  using hex_text_field(1) [OF ip6_parts_set [of _ a]]
  by (auto simp: text_chars_def list_all_iff dest!: ip6_shape_set)

lemma text_chars_plain: "text_chars t \<Longrightarrow> 0 \<notin> set t \<and> chr_slash \<notin> set t"
proof -
  have "\<not> (is_hex 0 \<or> 0 = chr_colon)" "\<not> (is_hex chr_slash \<or> chr_slash = chr_colon)"
    by (simp_all add: is_hex_iff)
  then show "text_chars t \<Longrightarrow> 0 \<notin> set t \<and> chr_slash \<notin> set t"
    unfolding text_chars_def by blast
qed

lemma ip6tos_text:
  assumes "length a = 16" and "5 \<le> psz" and "40 \<le> length p"
  shows "\<exists>zs zl t. ip6_best a zs zl \<and> t = ip6_shape hex_text (ip6_parts a) zs zl \<and> length t < 40 \<and>
    ip6tos psz a p = Some (t @ 0 # drop (Suc (length t)) p, length t)"
proof -
  have "ip6_shape (part_image psz) (ip6_parts a) zs zl = ip6_shape hex_text (ip6_parts a) zs zl" for zs zl
    by (rule ip6_shape_cong) (simp add: part_image_full assms(2) ip6_parts_set)
  then show ?thesis using ip6tos_image [of a psz p] assms by simp
qed

lemma stoip6_shape:
  assumes "ip6_best a zs zl" and "length a = 16" and "length dest = 16"
    and "t = ip6_shape hex_text (ip6_parts a) zs zl"
  shows "stoip6 (t @ 0 # post) (of_nat (length t)) dest = Some (True, a)"
  using assms(1)
proof (cases rule: ip6_best_cases)
  case 1
  then show ?thesis using stoip6_no_run [OF assms(2,3)] assms(4) by (simp add: ip6_shape_def)
next
  case 2
  then show ?thesis using stoip6_with_run [OF assms(2,3)] assms(4) by simp
qed

section \<open>Properties\<close>



lemma part_image_nul:
  assumes "v < 65536" and "4096 \<le> v"
  shows "0 \<in> set (part_image 4 v)"
proof -
  have v: "v div 16 div 16 = v div 256" "v div 256 div 16 = v div 4096" "16 \<le> v div 16" "16 \<le> v div 256"
    using assms(2) by (simp_all add: div_mult2_eq [symmetric])
  have "digits_of 16 v = digits_of 16 (v div 4096) @ [v div 256 mod 16, v div 16 mod 16, v mod 16]"
    using assms(2) v by (simp add: digits_of.simps [of 16 v] digits_of.simps [of 16 "v div 16"]
      digits_of.simps [of 16 "v div 256"])
  then have "4 \<le> length (hex_text v)" by (simp add: hex_text_def Suc_le_eq)
  then show ?thesis by (simp add: part_image_def Let_def)
qed

text \<open>A part that is not in the zero run is in the text.\<close>

lemma ip6_shape_member:
  assumes "ip6_best a zs zl" and "v \<in> set (ip6_parts a)" and "v \<noteq> 0" and "x \<in> set (enc v)"
  shows "x \<in> set (ip6_shape enc (ip6_parts a) zs zl)"
proof -
  have join: "w \<in> set ws \<Longrightarrow> x \<in> set (enc w) \<Longrightarrow> x \<in> set (ip6_join enc ws)" for w ws
    by (induction enc ws rule: ip6_join.induct) auto
  show ?thesis
    using assms(1)
  proof (cases rule: ip6_best_cases)
    case 1
    then show ?thesis using join [OF assms(2,4)] by (simp add: ip6_shape_def)
  next
    case 2
    then have "ip6_parts a = take zs (ip6_parts a) @ replicate zl 0 @ drop (zs + zl) (ip6_parts a)"
      by (intro zero_run_split) (simp add: longest_run_def)
    with assms(2,3) have "v \<in> set (take zs (ip6_parts a)) \<or> v \<in> set (drop (zs + zl) (ip6_parts a))"
      by (metis UnE in_set_replicate set_append)
    then show ?thesis
      using 2 join [OF _ assms(4)] assms(4) by (auto simp: ip6_shape_def ip6_each_def)
  qed
qed

text \<open>
  Where pointers are four bytes wide, as on the Cortex-M targets, the size \<open>sizeof (p)\<close> given to
  \<open>snprintf\<close> is too small for a part of four digits: for every address with such a part the string in
  the buffer ends inside it, while the returned length counts all of it.
\<close>

lemma ip6tos_truncates:
  assumes "length a = 16" and "40 \<le> length p" and "\<exists>v\<in>set (ip6_parts a). 4096 \<le> v"
  shows "\<exists>p' n. ip6tos 4 a p = Some (p', n) \<and> length (cstr p') < n"
proof -
  from ip6tos_image [OF assms(1) _ assms(2), of 4] obtain zs zl t where
    t: "ip6_best a zs zl" "t = ip6_shape (part_image 4) (ip6_parts a) zs zl"
      "ip6tos 4 a p = Some (t @ 0 # drop (Suc (length t)) p, length t)" by auto
  from assms(3) obtain v where v: "v \<in> set (ip6_parts a)" "4096 \<le> v" by blast
  then have "0 \<in> set t"
    unfolding t(2) using t(1) part_image_nul [of v] ip6_parts_set [of v a]
    by (intro ip6_shape_member [of _ _ _ v]) auto
  then obtain us ws where "t = us @ 0 # ws" "0 \<notin> set us" by (meson split_list_first)
  then have "cstr (t @ 0 # drop (Suc (length t)) p) = us" "length us < length t"
    using cstr_append_nul [of us "ws @ 0 # drop (Suc (length t)) p"] by simp_all
  with t(3) show ?thesis by auto
qed

theorem ip6tos_truncates_witness:
  "\<exists>p' n. ip6tos 4 [32, 1, 13, 184, 0, 0, 0, 0, 0, 0, 0, 0, 0, 0, 0, 1] (replicate 40 7) = Some (p', n) \<and>
    length (cstr p') < n"
  by (rule ip6tos_truncates) (simp_all add: ip6_parts_def upt_rec)

text \<open>The text and number of a prefix.\<close>

lemma strchr_first: "0 \<notin> set t \<Longrightarrow> c \<notin> set t \<Longrightarrow> strchr (pre @ t @ c # post) (length pre) c = Some (Some (length pre + length t))"
proof (induction t arbitrary: pre)
  case Nil
  then show ?case by (subst strchr.simps) (simp add: cmem)
next
  case (Cons x t)
  then show ?case using Cons.IH [of "pre @ [x]"] by (subst strchr.simps) (auto simp: cmem)
qed

lemma dec_loop_run:
  assumes "list_all is_digit d"
  shows "dec_loop (pre @ d @ 0 # post) (length pre) v = Some (foldl (\<lambda>v c. v * 10 + unat (c - chr_0)) v d)"
  using assms
proof (induction d arbitrary: pre v)
  case Nil
  then show ?case by (subst dec_loop.simps) (simp add: cmem)
next
  case (Cons x d)
  then show ?case using Cons.IH [of "pre @ [x]"] by (subst dec_loop.simps) (simp add: cmem is_digit_def)
qed

lemma strtoul_run:
  assumes "list_all is_digit d" and "d \<noteq> []" and "dec_value d < 4294967296"
  shows "strtoul_10 (pre @ d @ 0 # post) (length pre) = Some (of_nat (dec_value d))"
proof -
  from assms(1,2) obtain x d' where d: "d = x # d'" "chr_0 \<le> x" "x \<le> chr_9"
    by (cases d) (auto simp: is_digit_def)
  then have x: "\<not> (x = 32 \<or> 9 \<le> x \<and> x \<le> 13)" "x \<noteq> 43" "x \<noteq> 45"
    by (auto simp: word_le_nat_alt)
  then have "skip_space (pre @ d @ 0 # post) (length pre) = Some (length pre)"
    using d by (subst skip_space.simps) (auto simp: cmem)
  then show ?thesis
    using d x assms dec_loop_run [of d pre post 0]
    by (simp add: strtoul_10_def cmem dec_value_def)
qed

text \<open>
  For every prefix of at most 128 bits, \<open>ip6_prefix_tos\<close> into a buffer of 44 bytes (with pointers
  of at least five) writes the text of the address whose first \<open>prefix_len\<close> bits are those of
  the prefix and whose others are zero, then a slash and the length, and \<open>sipv6_prefixlength\<close> reads
  the length back.
\<close>

lemma ip6_prefix_roundtrip:
  assumes "length pfx = 16" and "5 \<le> psz" and "44 \<le> length p" and "prefix_len \<le> 128"
  shows "\<exists>m t p' n. length m = 16 \<and> (\<forall>k < 128. ip_bit m k \<longleftrightarrow> k < prefix_len \<and> ip_bit pfx k) \<and>
    ip6_text m t \<and> ip6_prefix_tos psz pfx prefix_len p = Some (p', n) \<and>
    cstr p' = t @ chr_slash # dec_text prefix_len \<and> n = length (cstr p') \<and>
    sipv6_prefixlength p' = Some (of_nat prefix_len)"
proof -
  from bitcopy_bits [of prefix_len "replicate 16 0" pfx] assms(1,4) obtain m where
    m: "bitcopy (replicate 16 0) pfx prefix_len = Some m" "length m = 16"
      "\<forall>k<128. ip_bit m k \<longleftrightarrow> (if k < prefix_len then ip_bit pfx k else ip_bit (replicate 16 0) k)" by auto
  have zero: "\<not> ip_bit (replicate 16 0) k" if "k < 128" for k
    using that by (simp add: ip_bit_def)
  from ip6tos_text [OF m(2) assms(2), of p] assms(3) obtain zs zl t where
    t: "ip6_best m zs zl" "t = ip6_shape hex_text (ip6_parts m) zs zl" "length t < 40"
      "ip6tos psz m p = Some (t @ 0 # drop (Suc (length t)) p, length t)" by auto
  have plain: "0 \<notin> set t" "chr_slash \<notin> set t"
    using text_chars_plain [OF hex_shape_chars] t(2) by auto
  let ?d = "dec_text prefix_len"
  have "length ?d \<le> 3"
    using digits_of_length [of 10 prefix_len 2] assms(4) by (simp add: dec_text_def)
  moreover have "0 \<notin> set ?d"
    using dec_text_digits [of prefix_len] by (auto simp: list_all_iff is_digit_def)
  ultimately have d: "length ?d \<le> 3" "list_all is_digit ?d" "dec_value ?d = prefix_len" "?d \<noteq> []" "0 \<notin> set ?d"
    by (simp_all add: dec_text_digits dec_value_text)
  let ?p = "t @ (chr_slash # ?d) @ 0 # drop (Suc (length t + Suc (length ?d))) p"
  have "snprintf_text (t @ 0 # drop (Suc (length t)) p) (length t) psz (chr_slash # ?d) = Some (?p, Suc (length ?d))"
    using assms(2,3) d(1) t(3) by (auto simp: snprintf_text_def mem_write_def add.commute)
  then have run: "ip6_prefix_tos psz pfx prefix_len p = Some (?p, length t + Suc (length ?d))"
    using m(1) t(4) assms(4) by (simp add: ip6_prefix_tos_def)
  have c: "cstr ?p = t @ chr_slash # ?d"
    using cstr_append_nul [of "t @ chr_slash # ?d"] plain(1) d(5) by simp
  have "strchr ?p 0 chr_slash = Some (Some (length t))"
    using strchr_first [OF plain, of "[]"] by simp
  moreover have "strtoul_10 ?p (length t + 1) = Some (of_nat prefix_len)"
    using strtoul_run [of ?d "t @ [chr_slash]"] d assms(4) by simp
  moreover have "ucast (of_nat prefix_len :: u32) = (of_nat prefix_len :: byte)"
    using assms(4) by (simp add: word_unat_eq_iff unat_of_nat unsigned_ucast_eq take_bit_eq_mod)
  ultimately have "sipv6_prefixlength ?p = Some (of_nat prefix_len)"
    by (simp add: sipv6_prefixlength_def)
  with run c m(2,3) zero t(1,2) ip6_shape_text [OF t(1)] show ?thesis
    by (intro exI [of _ m] exI [of _ t] exI [of _ ?p] exI [of _ "length t + Suc (length ?d)"]) auto
qed

theorem ip6_prefix_roundtrip_witness:
  "\<exists>m t p' n. length m = 16 \<and> (\<forall>k < 128. ip_bit m k \<longleftrightarrow> k < 48 \<and> ip_bit (replicate 16 255) k) \<and>
    ip6_text m t \<and> ip6_prefix_tos 8 (replicate 16 255) 48 (replicate 44 0) = Some (p', n) \<and>
    cstr p' = t @ chr_slash # dec_text 48 \<and> n = length (cstr p') \<and>
    sipv6_prefixlength p' = Some (of_nat 48)"
  by (rule ip6_prefix_roundtrip) simp_all

section \<open>Safety of the parser\<close>

text \<open>
  The string ends with the NUL at index \<open>L\<close> and holds none before; the cursor and what is left of
  \<open>len\<close> stay in step.
\<close>

definition ends_at :: "byte list \<Rightarrow> nat \<Rightarrow> bool" where
  "ends_at s L \<longleftrightarrow> rd s L = Some 0 \<and> (\<forall>i<L. s ! i \<noteq> 0) \<and> L < 40"

lemma ends_at_rd: "ends_at s L \<Longrightarrow> i \<le> L \<Longrightarrow> \<exists>x. rd s i = Some x \<and> (x = 0 \<longleftrightarrow> i = L)"
  by (cases "i = L") (auto simp: ends_at_def return_iff rd_def split: if_splits)

lemma hex_loop_total:
  assumes "ends_at s L" and "p \<le> L"
  shows "\<exists>v. hex_loop s p v0 = Some v"
  using assms
proof (induction s p v0 rule: hex_loop.induct)
  case (1 s p v0)
  from ends_at_rd [OF 1(4,5)] obtain x where x: "rd s p = Some x" "x = 0 \<longleftrightarrow> p = L" by blast
  show ?case
  proof (cases "is_hex x")
    case True
    then have "Suc p \<le> L" using x 1(5) by (auto simp: is_hex_iff)
    then show ?thesis
      using x 1 by (subst hex_loop.simps) auto
  qed (use x hex_loop_stop in auto)
qed

lemma stoip6_seek_total:
  assumes "ends_at s L" and "q + unat len = L" and "q \<le> L"
  shows "stoip6_seek s q len = Some (Inl ()) \<or>
    (\<exists>q' len'. stoip6_seek s q len = Some (Inr (q', len')) \<and> q \<le> q' \<and> q' + unat len' = L \<and>
      (len' \<noteq> 0 \<longrightarrow> rd s q' = Some chr_colon))"
  using assms
proof (induction s q len rule: stoip6_seek.induct)
  case (1 s q len)
  from ends_at_rd [OF 1(2,4)] obtain x where x: "rd s q = Some x" "x = 0 \<longleftrightarrow> q = L" by blast
  show ?case
  proof (cases "len \<noteq> 0 \<and> x \<noteq> chr_colon \<and> is_hex x")
    case True
    then have "0 < unat len" by (simp add: unat_gt_0)
    then have "unat (len - 1) = unat len - 1" by (simp add: unat_minus_one True)
    then have "Suc q + unat (len - 1) = L" "Suc q \<le> L" using 1(3) \<open>0 < unat len\<close> by auto
    moreover have "stoip6_seek s q len = stoip6_seek s (Suc q) (len - 1)"
      using True x by (subst stoip6_seek.simps) (auto simp: is_hex_iff)
    ultimately show ?thesis
      using 1(1) [of x] 1(2) x True by (auto simp: is_hex_iff)
  next
    case False
    have "q = L \<Longrightarrow> len = 0" using 1(3) by (simp add: unat_0_iff)
    then show ?thesis
      using False x 1(3) by (subst (1 2) stoip6_seek.simps) auto
  qed
qed

text \<open>The loop stays inside the string and the address, and counts at most eight fields.\<close>

definition loop_ok :: "byte list + nat \<times> int \<times> byte list \<Rightarrow> bool" where
  "loop_ok r \<longleftrightarrow> (case r of Inl d \<Rightarrow> length d = 16
     | Inr (f, cc, d) \<Rightarrow> length d = 16 \<and> f \<le> 8 \<and> (cc = -1 \<or> 0 \<le> cc \<and> cc \<le> int f))"

lemma common_write_16_bit_total:
  assumes "f < 8" and "length dest = 16"
  shows "\<exists>d. common_write_16_bit v dest (2 * f) = Some (d, 2 * Suc f) \<and> length d = 16"
  using assms by (simp add: common_write_16_bit_def wr_def)

lemma stoip6_loop_total:
  assumes "ends_at s L" and "p + unat len = L \<or> len = 0" and "length dest = 16" and "f \<le> 8"
    and "cc = -1 \<or> 0 \<le> cc \<and> cc \<le> int f"
  shows "\<exists>r. stoip6_loop s p len f cc dest (2 * f) = Some r \<and> loop_ok r"
  using assms
proof (induction "L - p" arbitrary: p len f cc dest rule: less_induct)
  case less
  show ?case
  proof (cases "len = 0")
    case True
    then show ?thesis using less.prems by (subst stoip6_loop.simps) (simp add: loop_ok_def)
  next
    case len: False
    then have len_pos: "0 < unat len" "p < L" "p + unat len = L" using less.prems by (auto simp: unat_gt_0)
    with ends_at_rd [OF less.prems(1), of p] obtain x where x: "rd s p = Some x" "x \<noteq> 0" by auto
    note start = stoip6_loop.simps [of s p len f cc dest "2 * f"]
    from stoip6_seek_total [OF less.prems(1) len_pos(3)] len_pos(2)
    consider "stoip6_seek s p len = Some (Inl ())"
      | q len' where "stoip6_seek s p len = Some (Inr (q, len'))" "p \<le> q" "q + unat len' = L"
          "len' \<noteq> 0 \<longrightarrow> rd s q = Some chr_colon" by auto
    then show ?thesis
    proof cases
      case 1
      then show ?thesis using x len less.prems unfolding start by (simp add: loop_ok_def)
    next
      case 2
      show ?thesis
      proof (cases "q - p > 4 \<or> f = 8")
        case True
        then show ?thesis using 2 x len less.prems unfolding start by (auto simp: loop_ok_def)
      next
        case False
        then have f: "f < 8" using less.prems by auto
        from hex_loop_total [OF less.prems(1), of p] len_pos obtain v where v: "hex s p = Some v"
          by (auto simp: hex_def)
        from common_write_16_bit_total [OF f less.prems(3)] obtain d where
          d: "common_write_16_bit v dest (2 * f) = Some (d, 2 * Suc f)" "length d = 16" by blast
        have goon: "\<exists>r. stoip6_loop s p' l' (Suc f) cc' d (2 * Suc f) = Some r \<and> loop_ok r"
          if "L - p' < L - p" "p' + unat l' = L \<or> l' = 0" "cc' = cc \<or> cc' = int (Suc f)" for p' l' cc'
          by (rule less.hyps [OF that(1) less.prems(1) that(2) d(2)]) (use that(3) less.prems(5) f in auto)
        show ?thesis
        proof (cases "len' = 0")
          case True
          with 2 have "q = L" by simp
          then have "stoip6_loop s p len f cc dest (2 * f) = stoip6_loop s (Suc q) 0 (Suc f) cc d (2 * Suc f)"
            using 2 x len v d False True unfolding start by (simp add: Let_def)
          then show ?thesis using goon [of "Suc q" 0 cc] \<open>q = L\<close> len_pos by auto
        next
          case more: False
          then have q: "rd s q = Some chr_colon" "q < L" using 2 by (auto simp: unat_0_iff [symmetric])
          from ends_at_rd [OF less.prems(1), of "Suc q"] q(2) obtain y where
            y: "rd s (Suc q) = Some y" "y = 0 \<longleftrightarrow> Suc q = L" by auto
          have l1: "unat (len' - 1) = unat len' - 1" "0 < unat len'"
            using more by (simp_all add: unat_minus_one unat_gt_0)
          show ?thesis
          proof (cases "y = chr_colon")
            case True
            then have "Suc q < L" using y q by (cases "Suc q = L") auto
            then have "unat (len' - 2) = unat len' - 2"
              using 2 by (subst unat_sub) (auto simp: word_le_nat_alt)
            moreover have "stoip6_loop s p len f cc dest (2 * f) =
              (if cc \<noteq> -1 then Some (Inl d) else stoip6_loop s (Suc (Suc q)) (len' - 2) (Suc f) (int (Suc f)) d (2 * Suc f))"
              using 2 x len v d False more True q y unfolding start by (simp add: Let_def)
            moreover have "L - Suc (Suc q) < L - p" "Suc (Suc q) + (unat len' - 2) = L"
              using \<open>Suc q < L\<close> 2(2,3) len_pos by linarith+
            ultimately show ?thesis
              using goon [of "Suc (Suc q)" "len' - 2" "int (Suc f)"] d(2) by (auto simp: loop_ok_def)
          next
            case single: False
            then have "stoip6_loop s p len f cc dest (2 * f) = stoip6_loop s (Suc q) (len' - 1) (Suc f) cc d (2 * Suc f)"
              using 2 x len v d False more q y unfolding start by (simp add: Let_def)
            then show ?thesis
              using goon [of "Suc q" "len' - 1" cc] 2 l1 q len_pos by auto
          qed
        qed
      qed
    qed
  qed
qed

lemma stoip6_error_eq: "length d = 16 \<Longrightarrow> stoip6_error d = Some (False, replicate 16 0)"
  by (simp add: stoip6_error_def mem_set_def mem_write_def)

text \<open>
  C7. Given a string and its length, \<open>stoip6\<close> returns for every content of the string: it reads
  nothing behind the NUL and writes nothing outside the sixteen bytes of the destination, and when it
  refuses the text the destination holds sixteen zeros.
\<close>

theorem stoip6_safe:
  assumes "0 \<notin> set t" and "length t < 4294967296" and "length dest = 16"
  shows "\<exists>ok d. stoip6 (t @ [0]) (of_nat (length t)) dest = Some (ok, d) \<and> length d = 16 \<and>
    (\<not> ok \<longrightarrow> d = replicate 16 0)"
proof (cases "length t < 40")
  case False
  then have "(40 :: u32) \<le> of_nat (length t)" using assms(2) by (simp add: word_le_nat_alt unat_of_nat)
  then show ?thesis using stoip6_error_eq [OF assms(3)] by (auto simp: stoip6_def)
next
  case True
  then have short: "\<not> (40 :: u32) \<le> of_nat (length t)" by (simp add: word_le_nat_alt unat_of_nat)
  have "ends_at (t @ [0]) (length t)"
    using True assms(1) by (auto simp: ends_at_def nth_append cmem) (metis nth_mem)
  moreover have "unat (of_nat (length t) :: u32) = length t" using True by (simp add: unat_of_nat)
  ultimately obtain r where r: "stoip6_loop (t @ [0]) 0 (of_nat (length t)) 0 (-1) dest 0 = Some r" "loop_ok r"
    using stoip6_loop_total [of "t @ [0]" "length t" 0 "of_nat (length t)" dest 0 "-1"] assms(3) by auto
  show ?thesis
  proof (cases r)
    case (Inl d)
    then show ?thesis using r short stoip6_error_eq by (auto simp: stoip6_def loop_ok_def)
  next
    case (Inr z)
    obtain f cc d where z: "z = (f, cc, d)" by (cases z) auto
    have ok: "length d = 16" "f \<le> 8" "cc = -1 \<or> 0 \<le> cc \<and> nat cc \<le> f" using r(2) Inr z by (auto simp: loop_ok_def)
    show ?thesis
    proof (cases "cc = -1")
      case True
      then show ?thesis using r(1) Inr z short ok stoip6_error_eq [OF ok(1)] by (auto simp: stoip6_def)
    next
      case False
      then have "\<exists>d'. mem_move d (2 * nat cc + 2 * (8 - f)) (2 * nat cc) (16 - 2 * nat cc - 2 * (8 - f)) = Some d' \<and> length d' = 16"
        using ok by (auto simp: mem_move_def mem_read_def mem_write_def)
      then show ?thesis
        using r(1) Inr z short ok False by (auto simp: stoip6_def Let_def mem_set_def mem_write_def)
    qed
  qed
qed

theorem stoip6_safe_witness:
  "\<exists>ok d. stoip6 ([58, 58, 49] @ [0]) (of_nat (length [58 :: byte, 58, 49])) (replicate 16 7) = Some (ok, d) \<and>
    length d = 16 \<and> (\<not> ok \<longrightarrow> d = replicate 16 0)"
  by (rule stoip6_safe) simp_all

text \<open>
  The parser does not refuse two forms that are not IPv6 text: a single leading colon is read as a
  zero part, and a single trailing colon is ignored; and a length that cuts a double colon in two
  makes it read behind the end of the string.
\<close>

lemma stoip6_lenient:
  "stoip6 [58, 49, 58, 50, 58, 51, 58, 52, 58, 53, 58, 54, 58, 55, 0] 14 (replicate 16 9) =
     Some (True, [0, 0, 0, 1, 0, 2, 0, 3, 0, 4, 0, 5, 0, 6, 0, 7]) \<and>
   stoip6 [49, 58, 50, 58, 51, 58, 52, 58, 53, 58, 54, 58, 55, 58, 56, 58, 0] 16 (replicate 16 9) =
     Some (True, [0, 1, 0, 2, 0, 3, 0, 4, 0, 5, 0, 6, 0, 7, 0, 8]) \<and>
   stoip6 [58, 58, 49, 0] 1 (replicate 16 9) = None"
  by code_simp

end
