(* ===== verification/Extern.thy ===== *)
theory Extern
  imports C_Memory "HOL-Library.State_Monad"
begin

text \<open>
  Prelude for the components with state: the outside world and how the code talks to it.

  Code that is not part of the repository (the CMSIS-RTOS kernel, the socket library, TLS, lwIP, NetX,
  the Ethernet driver) is a parameter \<open>env\<close> of every definition that calls it: a function that answers
  a call from the history of all earlier calls and answers.  So a theorem about the code holds for
  every behaviour of that outside, failures included, unless it states what it relies on.  The
  history, newest call first, is part of the state, and theorems about the order of calls speak of it.

  The state of a component is a record that extends \<open>world\<close>; \<open>fault\<close> is set by an access the C program
  may not make (a dangling pointer, an index out of bounds) and never reset.
\<close>

section \<open>Calls and answers\<close>

record reply =
  ret :: int
  outs :: "int list"
  payload :: "byte list"

record 'c world =
  history :: "('c \<times> reply) list"
  fault :: bool

type_synonym 'c env = "('c \<times> reply) list \<Rightarrow> 'c \<Rightarrow> reply"

abbreviation return :: "'a \<Rightarrow> ('s, 'a) state" where "return \<equiv> State_Monad.return"

definition gets :: "('s \<Rightarrow> 'a) \<Rightarrow> ('s, 'a) state" where
  "gets f = State (\<lambda>s. (f s, s))"

definition modify :: "('s \<Rightarrow> 's) \<Rightarrow> ('s, unit) state" where
  "modify f = State (\<lambda>s. ((), f s))"

definition extern :: "'c env \<Rightarrow> 'c \<Rightarrow> (('c, 'z) world_scheme, reply) state" where
  "extern env c = State (\<lambda>s. let r = env (history s) c in (r, s\<lparr>history := (c, r) # history s\<rparr>))"

definition call :: "'c env \<Rightarrow> 'c \<Rightarrow> (('c, 'z) world_scheme, int) state" where
  "call env c = do { r \<leftarrow> extern env c; return (ret r) }"

definition tell :: "'c env \<Rightarrow> 'c \<Rightarrow> (('c, 'z) world_scheme, unit) state" where
  "tell env c = do { r \<leftarrow> extern env c; return () }"

definition crash :: "(('c, 'z) world_scheme, unit) state" where
  "crash = modify (\<lambda>s. s\<lparr>fault := True\<rparr>)"

definition do_if :: "bool \<Rightarrow> ('s, unit) state \<Rightarrow> ('s, unit) state" where
  "do_if b m = (if b then m else return ())"

text \<open>The calls a state has behind it, oldest first.\<close>

definition calls :: "('c, 'z) world_scheme \<Rightarrow> 'c list" where
  "calls s = rev (map fst (history s))"

section \<open>Weakest preconditions\<close>

text \<open>
  \<open>wp m Q s\<close>: the run of \<open>m\<close> from \<open>s\<close> ends with a value and a state that satisfy \<open>Q\<close>.  The collection
  \<open>wp\<close> computes it, so a property of an operation becomes a statement about its branches.
\<close>

definition wp :: "('s, 'a) state \<Rightarrow> ('a \<Rightarrow> 's \<Rightarrow> bool) \<Rightarrow> 's \<Rightarrow> bool" where
  "wp m Q s \<longleftrightarrow> (case run_state m s of (a, s') \<Rightarrow> Q a s')"

named_theorems wp "weakest preconditions of the state monad"

lemma wp_State: "wp (State f) Q s \<longleftrightarrow> (case f s of (a, s') \<Rightarrow> Q a s')"
  by (simp add: wp_def)

lemma wp_return [wp]: "wp (return a) Q s \<longleftrightarrow> Q a s"
  by (simp add: wp_def)

lemma wp_bind [wp]: "wp (m \<bind> f) Q s \<longleftrightarrow> wp m (\<lambda>a. wp (f a) Q) s"
  by (simp add: wp_def split: prod.split)

lemma wp_gets [wp]: "wp (gets f) Q s \<longleftrightarrow> Q (f s) s"
  by (simp add: wp_def gets_def)

lemma wp_modify [wp]: "wp (modify f) Q s \<longleftrightarrow> Q () (f s)"
  by (simp add: wp_def modify_def)

lemma wp_extern [wp]:
  "wp (extern env c) Q s \<longleftrightarrow>
    Q (env (history s) c) (s\<lparr>history := (c, env (history s) c) # history s\<rparr>)"
  by (simp add: wp_def extern_def Let_def)

lemma wp_call [wp]:
  "wp (call env c) Q s \<longleftrightarrow>
    Q (ret (env (history s) c)) (s\<lparr>history := (c, env (history s) c) # history s\<rparr>)"
  by (simp add: call_def wp)

lemma wp_tell [wp]:
  "wp (tell env c) Q s \<longleftrightarrow> Q () (s\<lparr>history := (c, env (history s) c) # history s\<rparr>)"
  by (simp add: tell_def wp)

lemma wp_crash [wp]: "wp crash Q s \<longleftrightarrow> Q () (s\<lparr>fault := True\<rparr>)"
  by (simp add: crash_def wp)

lemma wp_do_if [wp]: "wp (do_if b m) Q s \<longleftrightarrow> (if b then wp m Q s else Q () s)"
  by (simp add: do_if_def wp)

lemma wp_if [wp]: "wp (if b then m else n) Q s \<longleftrightarrow> (if b then wp m Q s else wp n Q s)"
  by simp

lemma wp_case_option [wp]:
  "wp (case x of None \<Rightarrow> m | Some y \<Rightarrow> f y) Q s \<longleftrightarrow> (case x of None \<Rightarrow> wp m Q s | Some y \<Rightarrow> wp (f y) Q s)"
  by (cases x) simp_all

lemma wp_case_prod [wp]: "wp (case p of (a, b) \<Rightarrow> f a b) Q s \<longleftrightarrow> (case p of (a, b) \<Rightarrow> wp (f a b) Q s)"
  by (cases p) simp

lemma wp_let [wp]: "wp (Let x f) Q s \<longleftrightarrow> (let y = x in wp (f y) Q s)"
  by (simp add: Let_def)

lemma wp_mono: "wp m P s \<Longrightarrow> (\<And>a s'. P a s' \<Longrightarrow> Q a s') \<Longrightarrow> wp m Q s"
  by (auto simp: wp_def split: prod.splits)

lemma wp_cong: "(\<And>a t. P a t = Q a t) \<Longrightarrow> wp m P s = wp m Q s"
  by (simp add: wp_def)

lemma wp_then: "wp m P s \<Longrightarrow> (\<And>a t. P a t \<Longrightarrow> wp (f a) Q t) \<Longrightarrow> wp (m \<bind> f) Q s"
  unfolding wp_bind by (rule wp_mono)

lemma wp_total: "wp m (\<lambda>_ _. True) s"
  by (simp add: wp_def split: prod.split)

lemma wp_conj: "wp m P s \<Longrightarrow> wp m Q s \<Longrightarrow> wp m (\<lambda>a s'. P a s' \<and> Q a s') s"
  by (auto simp: wp_def split: prod.splits)

lemma wp_run: "wp m Q s \<longleftrightarrow> Q (fst (run_state m s)) (snd (run_state m s))"
  by (simp add: wp_def split: prod.split)

lemma wp_run_eq: "run_state m s = (a, s') \<Longrightarrow> wp m Q s \<longleftrightarrow> Q a s'"
  by (simp add: wp_def)

lemma wp_exact: "wp m (\<lambda>a s'. a = b \<and> s' = t) s \<longleftrightarrow> run_state m s = (b, t)"
  by (auto simp: wp_def split: prod.splits)

section \<open>Invariants\<close>

text \<open>
  \<open>keeps P m\<close>: every run of \<open>m\<close> from a state with \<open>P\<close> ends in one.  The collection \<open>keeps\<close> splits a
  program into its calls and assignments, so an invariant is checked on those alone.
\<close>

definition keeps :: "('s \<Rightarrow> bool) \<Rightarrow> ('s, 'a) state \<Rightarrow> bool" where
  "keeps P m \<longleftrightarrow> (\<forall>s. P s \<longrightarrow> wp m (\<lambda>_. P) s)"

named_theorems keeps "rules that split a program for an invariant"

lemma keepsI: "(\<And>s. P s \<Longrightarrow> wp m (\<lambda>_. P) s) \<Longrightarrow> keeps P m"
  by (simp add: keeps_def)

lemma keepsD: "keeps P m \<Longrightarrow> P s \<Longrightarrow> wp m (\<lambda>_. P) s"
  by (simp add: keeps_def)

lemma keeps_bind [keeps]: "keeps P m \<Longrightarrow> (\<And>a. keeps P (f a)) \<Longrightarrow> keeps P (m \<bind> f)"
  by (auto simp: keeps_def wp_bind intro: wp_mono)

lemma keeps_return [keeps]: "keeps P (return a)"
  by (simp add: keeps_def wp)

lemma keeps_gets [keeps]: "keeps P (gets f)"
  by (simp add: keeps_def wp)

lemma keeps_if [keeps]: "(b \<Longrightarrow> keeps P m) \<Longrightarrow> (\<not> b \<Longrightarrow> keeps P n) \<Longrightarrow> keeps P (if b then m else n)"
  by simp

lemma keeps_do_if [keeps]: "(b \<Longrightarrow> keeps P m) \<Longrightarrow> keeps P (do_if b m)"
  by (simp add: do_if_def keeps_return)

lemma keeps_option [keeps]:
  "(x = None \<Longrightarrow> keeps P m) \<Longrightarrow> (\<And>y. x = Some y \<Longrightarrow> keeps P (f y)) \<Longrightarrow>
    keeps P (case x of None \<Rightarrow> m | Some y \<Rightarrow> f y)"
  by (cases x) simp_all

lemma keeps_nat [keeps]:
  "(n = 0 \<Longrightarrow> keeps P m) \<Longrightarrow> (\<And>k. n = Suc k \<Longrightarrow> keeps P (f k)) \<Longrightarrow>
    keeps P (case n of 0 \<Rightarrow> m | Suc k \<Rightarrow> f k)"
  by (cases n) simp_all

lemma keeps_prod [keeps]: "(\<And>a b. p = (a, b) \<Longrightarrow> keeps P (f a b)) \<Longrightarrow> keeps P (case p of (a, b) \<Rightarrow> f a b)"
  by (cases p) simp

lemma keeps_let [keeps]: "(\<And>y. keeps P (f y)) \<Longrightarrow> keeps P (Let x f)"
  by (simp add: Let_def)

lemma keeps_modify [keeps]: "(\<And>s. P s \<Longrightarrow> P (f s)) \<Longrightarrow> keeps P (modify f)"
  by (simp add: keeps_def wp)

lemma keeps_extern [keeps]:
  "(\<And>s r. P s \<Longrightarrow> P (s\<lparr>history := (c, r) # history s\<rparr>)) \<Longrightarrow> keeps P (extern env c)"
  by (simp add: keeps_def wp)

lemma keeps_call [keeps]:
  "(\<And>s r. P s \<Longrightarrow> P (s\<lparr>history := (c, r) # history s\<rparr>)) \<Longrightarrow> keeps P (call env c)"
  by (simp add: keeps_def wp)

lemma keeps_tell [keeps]:
  "(\<And>s r. P s \<Longrightarrow> P (s\<lparr>history := (c, r) # history s\<rparr>)) \<Longrightarrow> keeps P (tell env c)"
  by (simp add: keeps_def wp)

lemma keeps_crash [keeps]: "(\<And>s. P s \<Longrightarrow> P (s\<lparr>fault := True\<rparr>)) \<Longrightarrow> keeps P crash"
  by (simp add: keeps_def wp)

text \<open>Two assertions on the result of one run.\<close>

lemma wp_keeps: "wp m Q s \<Longrightarrow> keeps P m \<Longrightarrow> P s \<Longrightarrow> wp m (\<lambda>a t. Q a t \<and> P t) s"
  by (rule wp_conj) (auto dest: keepsD)

lemma wp_seq:
  "keeps P m \<Longrightarrow> P s \<Longrightarrow> (\<And>a t. P t \<Longrightarrow> wp (f a) Q t) \<Longrightarrow> wp (m \<bind> f) Q s"
  unfolding wp_bind by (rule wp_mono [OF keepsD])

text \<open>
  \<open>ensures P Q m\<close>: besides, the value the run ends with satisfies \<open>Q\<close>.  A part whose value does not matter
  is passed over with \<open>ensures_skip\<close>.
\<close>

definition ensures :: "('s \<Rightarrow> bool) \<Rightarrow> ('a \<Rightarrow> bool) \<Rightarrow> ('s, 'a) state \<Rightarrow> bool" where
  "ensures P Q m \<longleftrightarrow> (\<forall>s. P s \<longrightarrow> wp m (\<lambda>a t. P t \<and> Q a) s)"

lemma ensuresD: "ensures P Q m \<Longrightarrow> P s \<Longrightarrow> wp m (\<lambda>a t. P t \<and> Q a) s"
  by (simp add: ensures_def)

lemma ensures_keeps: "ensures P Q m \<Longrightarrow> keeps P m"
  by (auto simp: ensures_def keeps_def elim!: wp_mono)

lemma ensures_return: "Q a \<Longrightarrow> ensures P Q (return a)"
  by (simp add: ensures_def wp)

lemma ensures_bind: "ensures P R m \<Longrightarrow> (\<And>a. R a \<Longrightarrow> ensures P Q (f a)) \<Longrightarrow> ensures P Q (m \<bind> f)"
  unfolding ensures_def wp_bind by (auto elim!: wp_mono)

lemma ensures_skip: "keeps P m \<Longrightarrow> (\<And>a. ensures P Q (f a)) \<Longrightarrow> ensures P Q (m \<bind> f)"
  unfolding ensures_def keeps_def wp_bind by (auto elim!: wp_mono)

lemma ensures_if: "(b \<Longrightarrow> ensures P Q m) \<Longrightarrow> (\<not> b \<Longrightarrow> ensures P Q n) \<Longrightarrow> ensures P Q (if b then m else n)"
  by simp

lemma ensures_let: "(\<And>y. y = x \<Longrightarrow> ensures P Q (f y)) \<Longrightarrow> ensures P Q (Let x f)"
  by (simp add: Let_def)

lemma ensures_prod: "(\<And>a b. p = (a, b) \<Longrightarrow> ensures P Q (f a b)) \<Longrightarrow> ensures P Q (case p of (a, b) \<Rightarrow> f a b)"
  by (cases p) simp

section \<open>CMSIS-RTOS2\<close>

text \<open>
  The kernel calls the code makes (\<open>components/cmsis_5/mocks/inc/cmsis_os2.h\<close> declares them).
  Identifiers are nonzero numbers, 0 is \<open>NULL\<close>; status codes are the \<open>osStatus_t\<close> values.
\<close>

datatype os_call =
    OsKernelGetTickCount | OsKernelGetTickFreq | OsKernelGetState
  | OsKernelLock | OsKernelRestoreLock int | OsDelay u32
  | OsThreadNew nat int u32 int | OsThreadTerminate int | OsThreadExit
  | OsMutexNew | OsMutexDelete int | OsMutexAcquire int u32 | OsMutexRelease int
  | OsSemaphoreNew u32 u32 | OsSemaphoreDelete int | OsSemaphoreAcquire int u32 | OsSemaphoreRelease int
  | OsMessageQueueNew u32 u32 | OsMessageQueueDelete int
  | OsMessageQueuePut int int u32 | OsMessageQueueGet int u32
  | OsEventFlagsNew | OsEventFlagsDelete int | OsEventFlagsSet int u32 | OsEventFlagsClear int u32
  | OsEventFlagsWait int u32 u32 u32
  | OsTimerNew int | OsTimerStart int u32 | OsTimerStop int | OsTimerDelete int

abbreviation (input) osOK :: int where "osOK \<equiv> 0"
abbreviation (input) osWaitForever :: u32 where "osWaitForever \<equiv> 0xFFFFFFFF"
abbreviation (input) osFlagsWaitAny :: u32 where "osFlagsWaitAny \<equiv> 0"
abbreviation (input) osFlagsNoClear :: u32 where "osFlagsNoClear \<equiv> 2"
abbreviation (input) osFlagsError :: u32 where "osFlagsError \<equiv> 0x80000000"

end
