(* ===== verification/C_Heap.thy ===== *)
theory C_Heap
  imports Extern
begin

text \<open>
  Prelude: a heap of objects.  A heap lists its live blocks, each with its address, its size in bytes
  and the object in it.  \<open>malloc\<close> of the C library is documented to return a null pointer or the
  address of a block that overlaps no live one; here the address is asked of the environment, and an
  address that does not fit counts as the null pointer, so the environment's answers give every
  behaviour of a correct allocator and no other.
\<close>

type_synonym 'o heap = "(nat \<times> nat \<times> 'o) list"

definition h_get :: "'o heap \<Rightarrow> nat \<Rightarrow> 'o option" where
  "h_get h a = map_option snd (map_of h a)"

definition h_size :: "'o heap \<Rightarrow> nat \<Rightarrow> nat" where
  "h_size h a = (case map_of h a of None \<Rightarrow> 0 | Some (n, x) \<Rightarrow> n)"

definition h_put :: "'o heap \<Rightarrow> nat \<Rightarrow> 'o \<Rightarrow> 'o heap" where
  "h_put h a x = map (\<lambda>(b, n, y). if b = a then (b, n, x) else (b, n, y)) h"

definition h_free :: "'o heap \<Rightarrow> nat \<Rightarrow> 'o heap" where
  "h_free h a = filter (\<lambda>(b, n, y). b \<noteq> a) h"

definition h_fits :: "'o heap \<Rightarrow> nat \<Rightarrow> nat \<Rightarrow> bool" where
  "h_fits h a n \<longleftrightarrow> 0 < a \<and> a + n \<le> 4294967296 \<and>
     list_all (\<lambda>(b, m, y). b \<noteq> a \<and> (a + n \<le> b \<or> b + m \<le> a)) h"

definition h_alloc :: "'o heap \<Rightarrow> nat \<Rightarrow> nat \<Rightarrow> 'o \<Rightarrow> nat \<times> 'o heap" where
  "h_alloc h a n x = (if h_fits h a n then (a, (a, n, x) # h) else (0, h))"

text \<open>Live blocks have distinct nonzero addresses and do not overlap.\<close>

fun heap_ok :: "'o heap \<Rightarrow> bool" where
  "heap_ok [] = True"
| "heap_ok ((a, n, x) # h) = (h_fits h a n \<and> heap_ok h)"

section \<open>Lemmas\<close>

lemma h_get_Nil [simp]: "h_get [] a = None"
  by (simp add: h_get_def)

lemma h_get_Cons [simp]: "h_get ((b, n, x) # h) a = (if a = b then Some x else h_get h a)"
  by (simp add: h_get_def)

lemma h_size_Cons [simp]: "h_size ((b, n, x) # h) a = (if a = b then n else h_size h a)"
  by (simp add: h_size_def)

lemma h_put_Nil [simp]: "h_put [] a x = []"
  by (simp add: h_put_def)

lemma h_put_Cons [simp]:
  "h_put ((b, n, y) # h) a x = (b, n, if b = a then x else y) # h_put h a x"
  by (simp add: h_put_def)

lemma h_get_put [simp]:
  "h_get (h_put h a x) b = (if b = a then map_option (\<lambda>_. x) (h_get h a) else h_get h b)"
  by (induction h) auto

lemma h_size_put [simp]: "h_size (h_put h a x) b = h_size h b"
  by (induction h) (auto simp: h_size_def)

lemma h_fits_put [simp]: "h_fits (h_put h a x) b n \<longleftrightarrow> h_fits h b n"
  unfolding h_fits_def by (induction h) auto

lemma heap_ok_put [simp]: "heap_ok (h_put h a x) \<longleftrightarrow> heap_ok h"
  by (induction h rule: heap_ok.induct) auto

lemma h_fits_free: "h_fits h b n \<Longrightarrow> h_fits (h_free h a) b n"
  by (auto simp: h_fits_def h_free_def list_all_iff)

lemma heap_ok_free: "heap_ok h \<Longrightarrow> heap_ok (h_free h a)"
proof (induction h rule: heap_ok.induct)
  case (2 b n x h)
  then show ?case using h_fits_free [of h b n a] by (simp add: h_free_def)
qed (simp add: h_free_def)

lemma h_get_free [simp]: "h_get (h_free h a) b = (if b = a then None else h_get h b)"
  by (induction h) (auto simp: h_free_def)

lemma h_size_free [simp]: "b \<noteq> a \<Longrightarrow> h_size (h_free h a) b = h_size h b"
  by (induction h) (auto simp: h_size_def h_free_def)

lemma h_free_Cons:
  "h_free ((b, n, x) # h) a = (if b = a then h_free h a else (b, n, x) # h_free h a)"
  by (simp add: h_free_def)

lemma h_free_commute: "h_free (h_free h a) b = h_free (h_free h b) a"
  by (induction h) (auto simp: h_free_def)

lemma h_free_put: "h_free (h_put h a x) a = h_free h a"
  by (induction h) (auto simp: h_free_def)

lemma h_free_fresh: "h_get h a = None \<Longrightarrow> h_free h a = h"
  by (induction h) (auto simp: h_free_def split: if_splits)

lemma h_put_fresh: "h_get h a = None \<Longrightarrow> h_put h a x = h"
  by (induction h) (auto split: if_splits)

lemma h_fits_fresh: "h_fits h a n \<Longrightarrow> h_get h a = None \<and> 0 < a"
  by (induction h) (auto simp: h_fits_def)

lemma heap_ok_get_pos: "heap_ok h \<Longrightarrow> h_get h a = Some x \<Longrightarrow> 0 < a"
  by (induction h rule: heap_ok.induct) (auto simp: h_fits_def split: if_splits)

lemma heap_ok_get_range: "heap_ok h \<Longrightarrow> h_get h a = Some x \<Longrightarrow> a + h_size h a \<le> 4294967296"
  by (induction h rule: heap_ok.induct) (auto simp: h_fits_def split: if_splits)

lemma h_get_null [simp]: "heap_ok h \<Longrightarrow> h_get h 0 = None"
  using heap_ok_get_pos by fastforce

lemma heap_ok_disjoint:
  assumes "heap_ok h" and "h_get h a = Some x" and "h_get h b = Some y" and "a \<noteq> b"
  shows "a + h_size h a \<le> b \<or> b + h_size h b \<le> a"
proof -
  have fits: "h_fits h c n \<Longrightarrow> h_get h d = Some z \<Longrightarrow> c + n \<le> d \<or> d + h_size h d \<le> c" for h :: "'a heap" and c d n z
    by (induction h) (auto simp: h_fits_def split: if_splits)
  from assms show ?thesis
  proof (induction h rule: heap_ok.induct)
    case (2 c n z h)
    then show ?case using fits [of h c n a x] fits [of h c n b y] by (auto split: if_splits)
  qed simp
qed

end
