(* ===== verification/Net_Buffer.thy ===== *)
theory Net_Buffer
  imports Extern
begin

text \<open>
  The network buffer interface of MCU-Driver-HAL as the drivers use it: a memory manager is a table
  of functions (\<open>mdh_network_stack_memory_manager_vtable_t\<close>), and what a client may rely on is the
  locale \<open>network_buffers\<close>.  A buffer is known by its address, 0 is \<open>NULL\<close>.

  A pointer to memory that is read is the bytes that can be read there (\<open>None\<close> for \<open>NULL\<close>); an
  operation that stores through a pointer returns the bytes it stores there, and takes whether the
  pointer is nonnull.
\<close>

record 's vtable =
  vt_alloc_from_heap :: "u32 \<Rightarrow> u32 \<Rightarrow> ('s, nat) state"
  vt_alloc_from_static_pool :: "(u32 \<Rightarrow> u32 \<Rightarrow> ('s, nat) state) option"
  vt_get_static_pool_alloc_unit :: "(u32 \<Rightarrow> ('s, u32) state) option"
  vt_free :: "nat \<Rightarrow> ('s, unit) state"
  vt_copy :: "nat \<Rightarrow> nat \<Rightarrow> ('s, unit) state"
  vt_copy_to_buf :: "byte list option \<Rightarrow> u32 \<Rightarrow> nat \<Rightarrow> ('s, u32) state"
  vt_copy_from_buf :: "nat \<Rightarrow> bool \<Rightarrow> u32 \<Rightarrow> ('s, byte list) state"
  vt_get_payload :: "nat \<Rightarrow> ('s, nat) state"
  vt_get_payload_len :: "nat \<Rightarrow> ('s, u32) state"
  vt_set_payload_len :: "nat \<Rightarrow> u32 \<Rightarrow> ('s, unit) state"

text \<open>
  The contract.  \<open>ok\<close> is the manager's invariant, \<open>content s b\<close> the bytes of the live buffer \<open>b\<close>
  (\<open>None\<close> when \<open>b\<close> is not a live buffer) and \<open>room s b\<close> how many it can hold.
\<close>

locale network_buffers =
  fixes vt :: "'s vtable"
    and ok :: "'s \<Rightarrow> bool"
    and content :: "'s \<Rightarrow> nat \<Rightarrow> byte list option"
    and room :: "'s \<Rightarrow> nat \<Rightarrow> nat"
  assumes alloc: "ok s \<Longrightarrow> unat n + unat al < 4294967296 \<Longrightarrow>
      wp (vt_alloc_from_heap vt n al) (\<lambda>b t. ok t \<and>
        (b = 0 \<longrightarrow> content t = content s \<and> room t = room s) \<and>
        (b \<noteq> 0 \<longrightarrow> content s b = None \<and> room t b = unat n \<and>
           (\<exists>xs. content t = (content s)(b \<mapsto> xs) \<and> length xs = unat n) \<and>
           (\<forall>c. content s c \<noteq> None \<longrightarrow> room t c = room s c))) s"
    and copy_to: "ok s \<Longrightarrow> content s b = Some old \<Longrightarrow> unat n \<le> length xs \<Longrightarrow> unat n \<le> room s b \<Longrightarrow>
      wp (vt_copy_to_buf vt (Some xs) n b) (\<lambda>r t. ok t \<and> r = n \<and>
        content t = (content s)(b \<mapsto> take (unat n) xs) \<and> room t = room s) s"
    and copy_from: "ok s \<Longrightarrow> content s b = Some xs \<Longrightarrow>
      wp (vt_copy_from_buf vt b True n) (\<lambda>r t. t = s \<and> r = take (unat n) xs) s"
    and payload_len: "ok s \<Longrightarrow> content s b = Some xs \<Longrightarrow>
      wp (vt_get_payload_len vt b) (\<lambda>r t. t = s \<and> unat r = length xs) s"
    and release: "ok s \<Longrightarrow> content s b = Some xs \<Longrightarrow>
      wp (vt_free vt b) (\<lambda>r t. ok t \<and> content t = (content s)(b := None) \<and>
        (\<forall>c. c \<noteq> b \<longrightarrow> room t c = room s c)) s"
    and null: "ok s \<Longrightarrow> content s 0 = None"
begin

text \<open>What is copied in comes out, up to the size asked for.\<close>

lemma copy_roundtrip:
  assumes "ok s" and "content s b = Some old" and "unat n \<le> length xs" and "unat n \<le> room s b"
  shows "wp (do { r \<leftarrow> vt_copy_to_buf vt (Some xs) n b; vt_copy_from_buf vt b True m })
    (\<lambda>ys t. ok t \<and> ys = take (unat m) (take (unat n) xs) \<and> content t b = Some (take (unat n) xs)) s"
  using copy_to [OF assms] unfolding wp_bind
proof (rule wp_mono)
  fix r t
  assume t: "ok t \<and> r = n \<and> content t = (content s)(b \<mapsto> take (unat n) xs) \<and> room t = room s"
  then have "wp (vt_copy_from_buf vt b True m) (\<lambda>ys u. u = t \<and> ys = take (unat m) (take (unat n) xs)) t"
    by (intro copy_from) auto
  then show "wp (vt_copy_from_buf vt b True m)
      (\<lambda>ys u. ok u \<and> ys = take (unat m) (take (unat n) xs) \<and> content u b = Some (take (unat n) xs)) t"
    by (rule wp_mono) (use t in auto)
qed

text \<open>A buffer that is allocated, filled and freed leaves the live buffers as they were.\<close>

lemma alloc_free:
  assumes "ok s" and "unat n + unat al < 4294967296"
  shows "wp (do { b \<leftarrow> vt_alloc_from_heap vt n al;
                  if b = 0 then return () else vt_free vt b }) (\<lambda>_ t. ok t \<and> content t = content s) s"
  using alloc [OF assms] unfolding wp_bind
proof (rule wp_mono)
  fix b t
  assume t: "ok t \<and> (b = 0 \<longrightarrow> content t = content s \<and> room t = room s) \<and>
    (b \<noteq> 0 \<longrightarrow> content s b = None \<and> room t b = unat n \<and>
      (\<exists>xs. content t = (content s)(b \<mapsto> xs) \<and> length xs = unat n) \<and>
      (\<forall>c. content s c \<noteq> None \<longrightarrow> room t c = room s c))"
  show "wp (if b = 0 then return () else vt_free vt b) (\<lambda>_ t. ok t \<and> content t = content s) t"
  proof (cases "b = 0")
    case True
    then show ?thesis using t by (simp add: wp)
  next
    case False
    then obtain xs where xs: "content t = (content s)(b \<mapsto> xs)" "content s b = None" using t by auto
    then have "wp (vt_free vt b) (\<lambda>_ u. ok u \<and> content u = (content t)(b := None) \<and>
        (\<forall>c. c \<noteq> b \<longrightarrow> room u c = room t c)) t"
      using t by (intro release) auto
    then have "wp (vt_free vt b) (\<lambda>_ u. ok u \<and> content u = content s) t"
      by (rule wp_mono) (use xs in \<open>auto simp: fun_upd_idem\<close>)
    with False show ?thesis by simp
  qed
qed

end

end
