(* ===== verification/Iotsdk_Memory.thy ===== *)
theory Iotsdk_Memory
  imports C_Heap Net_Buffer
begin

text \<open>
  The memory manager of \<open>utils/iotsdk_memory_manager.c\<close> over the C heap (\<open>utils/iotsdk_alloc.c\<close>): a
  buffer is a header and a block whose data start at an aligned address.  \<open>size_t\<close>, \<open>uint32_t\<close> and
  pointers are 32 bits wide.  The last section shows that the table of its operations meets the
  contract \<open>network_buffers\<close>.
\<close>

section \<open>State\<close>

record priv_memory_buf =
  allocated_memory :: nat
  buf_data :: nat
  capacity :: u32
  buf_len :: u32

datatype mm_block = Raw "byte list" | Header priv_memory_buf

datatype mm_call = Malloc u32

record mm = "mm_call world" +
  heap :: "mm_block heap"

text \<open>\<open>iotsdk_alloc_malloc\<close>; the bytes of a new block are whatever the environment says.\<close>

definition iotsdk_alloc_malloc :: "mm_call env \<Rightarrow> u32 \<Rightarrow> (byte list \<Rightarrow> mm_block) \<Rightarrow> ('z mm_scheme, nat) state" where
  "iotsdk_alloc_malloc env n mk =
     do {
       r \<leftarrow> extern env (Malloc n);
       h \<leftarrow> gets heap;
       let bytes = pad (unat n) (payload r);
       let (p, h') = h_alloc h (nat (ret r)) (unat n) (mk bytes);
       modify (heap_update (\<lambda>_. h'));
       return p
     }"

definition iotsdk_alloc_free :: "nat \<Rightarrow> ('z mm_scheme, unit) state" where
  "iotsdk_alloc_free p =
     (if p = 0 then return ()
      else do {
        h \<leftarrow> gets heap;
        case h_get h p of None \<Rightarrow> crash | Some x \<Rightarrow> modify (heap_update (\<lambda>h. h_free h p))
      })"

text \<open>A read of the header behind a buffer pointer, and a write to it.\<close>

definition no_buf :: priv_memory_buf where
  "no_buf = \<lparr>allocated_memory = 0, buf_data = 0, capacity = 0, buf_len = 0\<rparr>"

definition read_buf :: "nat \<Rightarrow> ('z mm_scheme, priv_memory_buf) state" where
  "read_buf b =
     do {
       h \<leftarrow> gets heap;
       case h_get h b of Some (Header bd) \<Rightarrow> return bd | _ \<Rightarrow> do { crash; return no_buf }
     }"

definition write_buf :: "nat \<Rightarrow> priv_memory_buf \<Rightarrow> ('z mm_scheme, unit) state" where
  "write_buf b bd =
     do {
       h \<leftarrow> gets heap;
       case h_get h b of Some (Header _) \<Rightarrow> modify (heap_update (\<lambda>h. h_put h b (Header bd))) | _ \<Rightarrow> crash
     }"

text \<open>The bytes of the block a data pointer points into, from the pointer on.\<close>

definition load :: "priv_memory_buf \<Rightarrow> nat \<Rightarrow> ('z mm_scheme, byte list) state" where
  "load bd n =
     do {
       h \<leftarrow> gets heap;
       case h_get h (allocated_memory bd) of
         Some (Raw raw) \<Rightarrow>
           (case mem_read raw (buf_data bd - allocated_memory bd) n of
              Some vs \<Rightarrow> return vs | None \<Rightarrow> do { crash; return [] })
       | _ \<Rightarrow> do { crash; return [] }
     }"

definition store :: "priv_memory_buf \<Rightarrow> byte list \<Rightarrow> ('z mm_scheme, unit) state" where
  "store bd vs =
     do {
       h \<leftarrow> gets heap;
       case h_get h (allocated_memory bd) of
         Some (Raw raw) \<Rightarrow>
           (case mem_write raw (buf_data bd - allocated_memory bd) vs of
              Some raw' \<Rightarrow> modify (heap_update (\<lambda>h. h_put h (allocated_memory bd) (Raw raw')))
            | None \<Rightarrow> crash)
       | _ \<Rightarrow> crash
     }"

section \<open>Operations\<close>

text \<open>\<open>sizeof (priv_memory_buf_t)\<close> is four words.  The new header's fields are set when all is known.\<close>

definition aligned_data :: "nat \<Rightarrow> u32 \<Rightarrow> nat" where
  "aligned_data p align =
     (if align \<noteq> 0 then
        let remainder = p mod unat align in
        if remainder \<noteq> 0 then
          let offset = align - of_nat remainder;
              offset = (if offset \<ge> align then align else offset)
          in p + unat offset
        else p
      else p)"

definition alloc_from_heap :: "mm_call env \<Rightarrow> u32 \<Rightarrow> u32 \<Rightarrow> ('z mm_scheme, nat) state" where
  "alloc_from_heap env sz align =
     (if sz = 0 then return 0
      else do {
        buf \<leftarrow> iotsdk_alloc_malloc env 16 (\<lambda>_. Header no_buf);
        if buf = 0 then return 0
        else do {
          mem \<leftarrow> iotsdk_alloc_malloc env (sz + align) Raw;
          if mem = 0 then do { iotsdk_alloc_free buf; return 0 }
          else do {
            write_buf buf \<lparr>allocated_memory = mem, buf_data = aligned_data mem align, capacity = sz, buf_len = sz\<rparr>;
            return buf
          }
        }
      })"

definition free_buf :: "nat \<Rightarrow> ('z mm_scheme, unit) state" where
  "free_buf buf =
     (if buf = 0 then return ()
      else do {
        buffer \<leftarrow> read_buf buf;
        iotsdk_alloc_free (allocated_memory buffer);
        iotsdk_alloc_free buf
      })"

text \<open>\<open>memcpy\<close> between overlapping objects is undefined.\<close>

definition copy :: "nat \<Rightarrow> nat \<Rightarrow> ('z mm_scheme, unit) state" where
  "copy source destination =
     (if source = 0 \<or> destination = 0 then return ()
      else do {
        src_buf \<leftarrow> read_buf source;
        dst_buf \<leftarrow> read_buf destination;
        if capacity dst_buf < capacity src_buf then return ()
        else do {
          let n = unat (buf_len src_buf);
          do_if (buf_data src_buf < buf_data dst_buf + n \<and> buf_data dst_buf < buf_data src_buf + n) crash;
          vs \<leftarrow> load src_buf n;
          store dst_buf vs;
          write_buf destination (dst_buf\<lparr>buf_len := buf_len src_buf\<rparr>)
        }
      })"

definition copy_to_buf :: "byte list option \<Rightarrow> u32 \<Rightarrow> nat \<Rightarrow> ('z mm_scheme, u32) state" where
  "copy_to_buf ptr sz buf =
     (case ptr of None \<Rightarrow> return 0
      | Some mem \<Rightarrow>
          if buf = 0 then return 0
          else do {
            dst_buf \<leftarrow> read_buf buf;
            if sz > capacity dst_buf then return 0
            else do {
              do_if (length mem < unat sz) crash;
              store dst_buf (take (unat sz) mem);
              write_buf buf (dst_buf\<lparr>buf_len := sz\<rparr>);
              return sz
            }
          })"

definition copy_from_buf :: "nat \<Rightarrow> bool \<Rightarrow> u32 \<Rightarrow> ('z mm_scheme, byte list) state" where
  "copy_from_buf buf ptr sz =
     (if \<not> ptr \<or> buf = 0 then return []
      else do {
        src_buf \<leftarrow> read_buf buf;
        let sz = (if sz > buf_len src_buf then buf_len src_buf else sz);
        load src_buf (unat sz)
      })"

definition get_payload :: "nat \<Rightarrow> ('z mm_scheme, nat) state" where
  "get_payload buf = (if buf = 0 then return 0 else do { b \<leftarrow> read_buf buf; return (buf_data b) })"

definition get_payload_len :: "nat \<Rightarrow> ('z mm_scheme, u32) state" where
  "get_payload_len buf = (if buf = 0 then return 0 else do { b \<leftarrow> read_buf buf; return (buf_len b) })"

definition set_payload_len :: "nat \<Rightarrow> u32 \<Rightarrow> ('z mm_scheme, unit) state" where
  "set_payload_len buf sz =
     (if buf = 0 then return ()
      else do {
        buffer \<leftarrow> read_buf buf;
        if sz > capacity buffer then return ()
        else write_buf buf (buffer\<lparr>buf_len := sz\<rparr>)
      })"

definition gsc_vtable :: "mm_call env \<Rightarrow> 'z mm_scheme vtable" where
  "gsc_vtable env =
     \<lparr>vt_alloc_from_heap = alloc_from_heap env,
      vt_alloc_from_static_pool = None,
      vt_get_static_pool_alloc_unit = None,
      vt_free = free_buf,
      vt_copy = copy,
      vt_copy_to_buf = copy_to_buf,
      vt_copy_from_buf = copy_from_buf,
      vt_get_payload = get_payload,
      vt_get_payload_len = get_payload_len,
      vt_set_payload_len = set_payload_len\<rparr>"

section \<open>The invariant\<close>

text \<open>
  The data of a buffer lie inside its own block, its length is at most its capacity, and no two
  buffers share a block.
\<close>

definition buf_ok :: "mm_block heap \<Rightarrow> priv_memory_buf \<Rightarrow> bool" where
  "buf_ok h bd \<longleftrightarrow> (\<exists>raw. h_get h (allocated_memory bd) = Some (Raw raw) \<and>
     length raw = h_size h (allocated_memory bd) \<and>
     allocated_memory bd \<le> buf_data bd \<and>
     buf_data bd + unat (capacity bd) \<le> allocated_memory bd + length raw \<and>
     buf_len bd \<le> capacity bd)"

definition bufs_ok :: "mm_block heap \<Rightarrow> bool" where
  "bufs_ok h \<longleftrightarrow> heap_ok h \<and>
     (\<forall>b bd. h_get h b = Some (Header bd) \<longrightarrow> buf_ok h bd) \<and>
     (\<forall>b c bd cd. h_get h b = Some (Header bd) \<and> h_get h c = Some (Header cd) \<and> b \<noteq> c \<longrightarrow>
        allocated_memory bd \<noteq> allocated_memory cd)"

definition mm_ok :: "'z mm_scheme \<Rightarrow> bool" where
  "mm_ok s \<longleftrightarrow> \<not> fault s \<and> bufs_ok (heap s)"

definition bytes_at :: "mm_block heap \<Rightarrow> priv_memory_buf \<Rightarrow> byte list option" where
  "bytes_at h bd = (case h_get h (allocated_memory bd) of
     Some (Raw raw) \<Rightarrow> Some (take (unat (buf_len bd)) (drop (buf_data bd - allocated_memory bd) raw))
   | _ \<Rightarrow> None)"

definition heap_content :: "mm_block heap \<Rightarrow> nat \<Rightarrow> byte list option" where
  "heap_content h b = (case h_get h b of Some (Header bd) \<Rightarrow> bytes_at h bd | _ \<Rightarrow> None)"

definition heap_room :: "mm_block heap \<Rightarrow> nat \<Rightarrow> nat" where
  "heap_room h b = (case h_get h b of Some (Header bd) \<Rightarrow> unat (capacity bd) | _ \<Rightarrow> 0)"

abbreviation mm_content :: "'z mm_scheme \<Rightarrow> nat \<Rightarrow> byte list option" where
  "mm_content s \<equiv> heap_content (heap s)"

abbreviation mm_room :: "'z mm_scheme \<Rightarrow> nat \<Rightarrow> nat" where
  "mm_room s \<equiv> heap_room (heap s)"

lemma aligned_data_bounds:
  "p \<le> aligned_data p al" "al \<noteq> 0 \<Longrightarrow> aligned_data p al < p + unat al" "aligned_data p 0 = p"
  "al \<noteq> 0 \<Longrightarrow> aligned_data p al mod unat al = 0"
proof -
  have *: "aligned_data p al = (if p mod unat al = 0 then p else p + (unat al - p mod unat al))" if "al \<noteq> 0"
  proof -
    have al: "0 < unat al" using that by (simp add: unat_gt_0)
    let ?m = "p mod unat al"
    have m: "?m < unat al" "?m < 4294967296"
      using al mod_less_divisor [OF al, of p] unat_u32_less [of al] by (simp_all del: unat_u32_less)
    then have "unat (of_nat ?m :: u32) = ?m" by (simp add: unat_of_nat)
    then have "unat (al - of_nat ?m) = unat al - ?m"
      using m by (subst unat_sub) (simp_all add: word_le_nat_alt)
    then show ?thesis
      using that by (auto simp: aligned_data_def Let_def word_le_nat_alt)
  qed
  show "p \<le> aligned_data p al" by (cases "al = 0") (auto simp: * , simp add: aligned_data_def)
  show "aligned_data p 0 = p" by (simp add: aligned_data_def)
  show "aligned_data p al < p + unat al" if "al \<noteq> 0"
    using that * [OF that] by (auto simp: unat_gt_0)
  show "aligned_data p al mod unat al = 0" if "al \<noteq> 0"
  proof (cases "p mod unat al = 0")
    case False
    have "p mod unat al < unat al" using that by (simp add: unat_gt_0)
    then have "p + (unat al - p mod unat al) = (p - p mod unat al) + unat al"
      by simp
    then show ?thesis using False * [OF that] by (simp add: minus_mod_eq_mult_div)
  qed (use * [OF that] in simp)
qed

lemma buf_ok_content: "buf_ok h bd \<Longrightarrow> \<exists>xs. bytes_at h bd = Some xs \<and> length xs = unat (buf_len bd)"
  by (auto simp: buf_ok_def bytes_at_def word_le_nat_alt min_def)

lemma mm_contentE:
  assumes "mm_ok s" and "mm_content s b = Some xs"
  obtains bd raw where "h_get (heap s) b = Some (Header bd)" "h_get (heap s) (allocated_memory bd) = Some (Raw raw)"
    "allocated_memory bd \<le> buf_data bd" "buf_data bd + unat (capacity bd) \<le> allocated_memory bd + length raw"
    "unat (buf_len bd) \<le> unat (capacity bd)" "xs = take (unat (buf_len bd)) (drop (buf_data bd - allocated_memory bd) raw)"
    "length xs = unat (buf_len bd)" "b \<noteq> 0"
proof -
  from assms(2) obtain bd where b: "h_get (heap s) b = Some (Header bd)" "bytes_at (heap s) bd = Some xs"
    by (auto simp: heap_content_def split: option.splits mm_block.splits)
  with assms(1) have "buf_ok (heap s) bd" "b \<noteq> 0"
    using heap_ok_get_pos [of "heap s" b] by (auto simp: mm_ok_def bufs_ok_def)
  then show ?thesis
    using b that buf_ok_content [OF \<open>buf_ok (heap s) bd\<close>]
    by (auto simp: buf_ok_def bytes_at_def word_le_nat_alt)
qed

lemma mm_ok_header: "mm_ok s \<Longrightarrow> h_get (heap s) b = Some (Header bd) \<Longrightarrow> \<exists>xs. mm_content s b = Some xs"
  using buf_ok_content by (fastforce simp: mm_ok_def bufs_ok_def heap_content_def)

lemma wp_read_buf [wp]:
  "h_get (heap s) b = Some (Header bd) \<Longrightarrow> wp (read_buf b) Q s \<longleftrightarrow> Q bd s"
  by (simp add: read_buf_def wp)

lemma wp_write_buf [wp]:
  "h_get (heap s) b = Some (Header bd) \<Longrightarrow>
    wp (write_buf b bd') Q s \<longleftrightarrow> Q () (heap_update (\<lambda>h. h_put h b (Header bd')) s)"
  by (simp add: write_buf_def wp)

section \<open>The operations meet the contract\<close>

lemma wp_malloc:
  assumes "\<And>s' . s' = s\<lparr>history := (Malloc n, env (history s) (Malloc n)) # history s\<rparr> \<Longrightarrow> Q 0 s'"
    and "\<And>a bytes. h_fits (heap s) a (unat n) \<Longrightarrow> length bytes = unat n \<Longrightarrow>
      Q a (s\<lparr>history := (Malloc n, env (history s) (Malloc n)) # history s, heap := (a, unat n, mk bytes) # heap s\<rparr>)"
  shows "wp (iotsdk_alloc_malloc env n mk) Q s"
  using assms by (auto simp: iotsdk_alloc_malloc_def wp h_alloc_def Let_def)

lemma mm_ok_history [simp]: "mm_ok (s\<lparr>history := x\<rparr>) = mm_ok s"
  by (simp add: mm_ok_def)

lemma h_get_fresh: "h_fits h a n \<Longrightarrow> h_get h b \<noteq> None \<Longrightarrow> b \<noteq> a"
  using h_fits_fresh by fastforce

lemma alloc_from_heap_spec:
  assumes "mm_ok s" and "unat sz + unat align < 4294967296"
  shows "wp (alloc_from_heap env sz align) (\<lambda>b t. mm_ok t \<and>
    (b = 0 \<longrightarrow> heap t = heap s) \<and>
    (b \<noteq> 0 \<longrightarrow> sz \<noteq> 0 \<and> h_get (heap s) b = None \<and> (\<exists>m bytes. h_get (heap s) m = None \<and> m \<noteq> b \<and>
       length bytes = unat sz + unat align \<and>
       heap t = (m, unat sz + unat align, Raw bytes) #
         (b, 16, Header \<lparr>allocated_memory = m, buf_data = aligned_data m align, capacity = sz, buf_len = sz\<rparr>) # heap s))) s"
proof -
  have sum: "unat (sz + align) = unat sz + unat align"
    using assms(2) by (simp add: unat_word_ariths)
  have ok: "\<not> fault s" "heap_ok (heap s)" "bufs_ok (heap s)"
    using assms(1) by (auto simp: mm_ok_def bufs_ok_def)
  show ?thesis
  proof (cases "sz = 0")
    case True
    then show ?thesis using assms(1) by (simp add: alloc_from_heap_def wp)
  next
    case False
    have put: "h_put ((m, k, Raw bytes) # (b, 16, Header no_buf) # heap s) b x =
      (m, k, Raw bytes) # (b, 16, x) # heap s" if "h_get (heap s) b = None" "m \<noteq> b" for m k bytes b x
    proof -
      have "h_put h b x = h" if "h_get h b = None" for h :: "mm_block heap"
        using that by (induction h) (auto split: if_splits)
      then show ?thesis using that by simp
    qed
    have free: "h_free ((b, 16, x) # heap s) b = heap s" if "h_get (heap s) b = None" for b x
    proof -
      have "h_free h b = h" if "h_get h b = None" for h :: "mm_block heap"
        using that by (induction h) (auto simp: h_free_def split: if_splits)
      then show ?thesis using that by (simp add: h_free_def)
    qed
    show ?thesis
      unfolding alloc_from_heap_def if_not_P [OF False] wp_bind
    proof (rule wp_malloc, goal_cases)
      case 1
      then show ?case using assms(1) by (simp add: wp)
    next
      case (2 b junk)
      let ?s = "s\<lparr>history := (Malloc 16, env (history s) (Malloc 16)) # history s, heap := (b, unat (16 :: u32), Header no_buf) # heap s\<rparr>"
      have b: "h_get (heap s) b = None" "0 < b" using h_fits_fresh [OF 2(1)] by auto
      have "wp (iotsdk_alloc_malloc env (sz + align) Raw \<bind> (\<lambda>mem.
          if mem = 0 then do { iotsdk_alloc_free b; return 0 }
          else do { write_buf b \<lparr>allocated_memory = mem, buf_data = aligned_data mem align, capacity = sz, buf_len = sz\<rparr>; return b }))
        (\<lambda>b t. mm_ok t \<and> (b = 0 \<longrightarrow> heap t = heap s) \<and>
          (b \<noteq> 0 \<longrightarrow> sz \<noteq> 0 \<and> h_get (heap s) b = None \<and> (\<exists>m bytes. h_get (heap s) m = None \<and> m \<noteq> b \<and>
             length bytes = unat sz + unat align \<and>
             heap t = (m, unat sz + unat align, Raw bytes) #
               (b, 16, Header \<lparr>allocated_memory = m, buf_data = aligned_data m align, capacity = sz, buf_len = sz\<rparr>) # heap s))) ?s"
        unfolding wp_bind
      proof (rule wp_malloc, goal_cases)
        case (1 s')
        then show ?case using b ok free by (simp add: wp iotsdk_alloc_free_def mm_ok_def)
      next
        case (2 m bytes)
        then have m: "m \<noteq> b" "h_get (heap s) m = None" "0 < m"
          using h_fits_fresh [OF 2(1)] by (auto split: if_splits)
        let ?hd = "\<lparr>allocated_memory = m, buf_data = aligned_data m align, capacity = sz, buf_len = sz\<rparr>"
        let ?h = "(m, unat sz + unat align, Raw bytes) # (b, 16, Header ?hd) # heap s"
        have "heap_ok ?h"
          using 2(1) \<open>h_fits (heap s) b (unat 16)\<close> ok(2) sum by (simp add: h_fits_def)
        moreover have "buf_ok ?h ?hd"
          using m 2(2) sum aligned_data_bounds(1) [of m align] aligned_data_bounds(2) [of align m] aligned_data_bounds(3) [of m] by (cases "align = 0") (auto simp: buf_ok_def)
        moreover have "buf_ok ?h cd \<and> allocated_memory cd \<noteq> m" if "h_get (heap s) c = Some (Header cd)" for c cd
          using ok(3) that m b by (fastforce simp: bufs_ok_def buf_ok_def)
        ultimately have "bufs_ok ?h"
          using ok(3) m b by (auto simp: bufs_ok_def split: if_splits)
        then show ?case
          using m b 2(2) ok(1) False sum put [OF b(1) m(1)] by (simp add: wp mm_ok_def)
      qed
      then show ?case using 2 b by simp
    qed
  qed
qed

lemma bufs_okD: "bufs_ok h \<Longrightarrow> h_get h b = Some (Header bd) \<Longrightarrow> buf_ok h bd"
  by (simp add: bufs_ok_def)

lemma bufs_ok_header:
  assumes "bufs_ok h" and "h_get h b = Some (Header bd)"
    and "allocated_memory bd' = allocated_memory bd" and "buf_data bd' = buf_data bd"
    and "capacity bd' = capacity bd" and "buf_len bd' \<le> capacity bd"
  shows "bufs_ok (h_put h b (Header bd'))"
  using assms by (auto simp: bufs_ok_def buf_ok_def split: if_splits)
    (metis mm_block.distinct(1) option.inject option.map(2))+

lemma bufs_ok_raw:
  assumes "bufs_ok h" and "h_get h a = Some (Raw raw)" and "length raw' = length raw"
  shows "bufs_ok (h_put h a (Raw raw'))"
proof -
  have "buf_ok (h_put h a (Raw raw')) bd" if "buf_ok h bd" for bd
    using that assms(2,3) by (auto simp: buf_ok_def)
  then show ?thesis
    using assms by (auto simp: bufs_ok_def split: if_splits)
qed

lemma bytes_at_put_header:
  "h_get h b = Some (Header x) \<Longrightarrow> bytes_at (h_put h b (Header bd')) bd = bytes_at h bd"
  by (auto simp: bytes_at_def split: option.splits mm_block.splits)

text \<open>A store of the first bytes of a buffer, with its new length.\<close>

lemma store_content:
  assumes "bufs_ok h" and "h_get h b = Some (Header bd)" and "unat n = length vs" and "n \<le> capacity bd"
    and "h_get h (allocated_memory bd) = Some (Raw raw)"
  shows "\<exists>raw'. mem_write raw (buf_data bd - allocated_memory bd) vs = Some raw' \<and> length raw' = length raw \<and>
    bufs_ok (h_put (h_put h (allocated_memory bd) (Raw raw')) b (Header (bd\<lparr>buf_len := n\<rparr>))) \<and>
    heap_content (h_put (h_put h (allocated_memory bd) (Raw raw')) b (Header (bd\<lparr>buf_len := n\<rparr>))) =
      (heap_content h)(b \<mapsto> vs)"
proof -
  have ok: "allocated_memory bd \<le> buf_data bd" "buf_data bd + unat (capacity bd) \<le> allocated_memory bd + length raw"
  proof -
    have "buf_ok h bd" using assms(1,2) by (simp add: bufs_ok_def)
    then show "allocated_memory bd \<le> buf_data bd" "buf_data bd + unat (capacity bd) \<le> allocated_memory bd + length raw"
      using assms(5) by (auto simp: buf_ok_def)
  qed
  let ?o = "buf_data bd - allocated_memory bd"
  have fit: "?o + length vs \<le> length raw"
    using ok assms(3,4) by (simp add: word_le_nat_alt)
  define raw' where "raw' = take ?o raw @ vs @ drop (?o + length vs) raw"
  have wr: "mem_write raw ?o vs = Some raw'" using fit by (simp add: mem_write_def raw'_def)
  have len: "length raw' = length raw" by (rule mem_write_length [OF wr])
  have ab: "allocated_memory bd \<noteq> b" using assms(2,5) by auto
  let ?h1 = "h_put h (allocated_memory bd) (Raw raw')"
  let ?h2 = "h_put ?h1 b (Header (bd\<lparr>buf_len := n\<rparr>))"
  have b1: "bufs_ok ?h1" by (rule bufs_ok_raw [OF assms(1,5) len])
  have g1: "h_get ?h1 b = Some (Header bd)" using assms(2) ab by simp
  have b2: "bufs_ok ?h2" by (rule bufs_ok_header [OF b1 g1]) (use assms(4) in simp_all)
  have "heap_content ?h2 c = ((heap_content h)(b \<mapsto> vs)) c" for c
  proof (cases "c = b")
    case True
    then show ?thesis
      using ab assms fit by (simp add: heap_content_def bytes_at_def raw'_def)
  next
    case False
    have "allocated_memory cd \<noteq> allocated_memory bd" if "h_get h c = Some (Header cd)" for cd
      using that False assms(1,2) unfolding bufs_ok_def by metis
    then show ?thesis
      using False ab assms(2,5)
      by (auto simp: heap_content_def bytes_at_def split: option.splits mm_block.splits if_splits)
  qed
  then show ?thesis using wr len b2 by auto
qed

lemma heap_room_put_header:
  "h_get h b = Some (Header x) \<Longrightarrow> capacity bd' = capacity x \<Longrightarrow> heap_room (h_put h b (Header bd')) = heap_room h"
  by (auto simp: heap_room_def fun_eq_iff)

lemma heap_room_put_raw: "h_get h a = Some (Raw x) \<Longrightarrow> heap_room (h_put h a (Raw y)) = heap_room h"
  by (auto simp: heap_room_def fun_eq_iff)

lemma copy_to_buf_spec:
  assumes "mm_ok s" and "mm_content s b = Some old" and "unat n \<le> length xs" and "unat n \<le> mm_room s b"
  shows "wp (copy_to_buf (Some xs) n b) (\<lambda>r t. mm_ok t \<and> r = n \<and>
    mm_content t = (mm_content s)(b \<mapsto> take (unat n) xs) \<and> mm_room t = mm_room s) s"
proof -
  from mm_contentE [OF assms(1,2)] obtain bd raw where
    b: "h_get (heap s) b = Some (Header bd)" "h_get (heap s) (allocated_memory bd) = Some (Raw raw)" "b \<noteq> 0" by metis
  have n: "n \<le> capacity bd" "\<not> capacity bd < n"
    using assms(4) b by (simp_all add: heap_room_def word_le_nat_alt word_less_nat_alt)
  have ok: "bufs_ok (heap s)" "\<not> fault s" using assms(1) by (auto simp: mm_ok_def)
  from store_content [OF ok(1) b(1) _ n(1) b(2), of "take (unat n) xs"] assms(3) obtain raw' where
    raw': "mem_write raw (buf_data bd - allocated_memory bd) (take (unat n) xs) = Some raw'"
      "bufs_ok (h_put (h_put (heap s) (allocated_memory bd) (Raw raw')) b (Header (bd\<lparr>buf_len := n\<rparr>)))"
      "heap_content (h_put (h_put (heap s) (allocated_memory bd) (Raw raw')) b (Header (bd\<lparr>buf_len := n\<rparr>))) =
        (heap_content (heap s))(b \<mapsto> take (unat n) xs)" by auto
  have ab: "allocated_memory bd \<noteq> b" using b by auto
  have room: "heap_room (h_put (h_put (heap s) (allocated_memory bd) (Raw raw')) b (Header (bd\<lparr>buf_len := n\<rparr>))) = heap_room (heap s)"
    using b ab by (subst heap_room_put_header [of _ _ bd]) (auto simp: heap_room_put_raw)
  show ?thesis
    using b n ok raw' assms(3) ab room
    by (auto simp: copy_to_buf_def store_def wp mm_ok_def Let_def dest: leD)
qed

lemma load_content:
  assumes "mm_ok s" and "h_get (heap s) b = Some (Header bd)" and "n \<le> unat (buf_len bd)"
  shows "wp (load bd n) (\<lambda>vs t. t = s \<and> mm_content s b \<noteq> None \<and> vs = take n (the (mm_content s b))) s"
proof -
  from mm_ok_header [OF assms(1,2)] obtain xs where "mm_content s b = Some xs" by blast
  from mm_contentE [OF assms(1) this] assms(2) obtain raw where
    "h_get (heap s) (allocated_memory bd) = Some (Raw raw)"
    "allocated_memory bd \<le> buf_data bd" "buf_data bd + unat (capacity bd) \<le> allocated_memory bd + length raw"
    "unat (buf_len bd) \<le> unat (capacity bd)"
    by (metis mm_block.inject(2) option.inject)
  moreover from this assms(3) have "buf_data bd - allocated_memory bd + n \<le> length raw" by linarith
  ultimately show ?thesis
    using assms(2,3) by (simp add: load_def wp mem_read_def heap_content_def bytes_at_def min_def)
qed

lemma copy_from_buf_spec:
  assumes "mm_ok s" and "mm_content s b = Some xs"
  shows "wp (copy_from_buf b True n) (\<lambda>r t. t = s \<and> r = take (unat n) xs) s"
proof -
  from mm_contentE [OF assms] obtain bd where
    b: "h_get (heap s) b = Some (Header bd)" "length xs = unat (buf_len bd)" "b \<noteq> 0" by metis
  let ?n = "if n > buf_len bd then buf_len bd else n"
  have "unat ?n \<le> unat (buf_len bd)" by (auto simp: word_less_nat_alt)
  from load_content [OF assms(1) b(1) this]
  have "wp (load bd (unat ?n)) (\<lambda>vs t. t = s \<and> vs = take (unat n) xs) s"
    by (rule wp_mono) (use b(2) assms(2) in \<open>auto simp: word_less_nat_alt split: if_splits\<close>)
  with b show ?thesis by (simp add: copy_from_buf_def wp Let_def)
qed

lemma get_payload_len_spec:
  assumes "mm_ok s" and "mm_content s b = Some xs"
  shows "wp (get_payload_len b) (\<lambda>r t. t = s \<and> unat r = length xs) s"
proof -
  from mm_contentE [OF assms] obtain bd where
    b: "h_get (heap s) b = Some (Header bd)" "length xs = unat (buf_len bd)" "b \<noteq> 0" by metis
  then show ?thesis by (simp add: get_payload_len_def wp)
qed

lemma free_buf_spec:
  assumes "mm_ok s" and "mm_content s b = Some xs"
  shows "wp (free_buf b) (\<lambda>r t. mm_ok t \<and> mm_content t = (mm_content s)(b := None) \<and>
    (\<forall>c. c \<noteq> b \<longrightarrow> mm_room t c = mm_room s c)) s"
proof -
  from mm_contentE [OF assms] obtain bd raw where
    b: "h_get (heap s) b = Some (Header bd)" "h_get (heap s) (allocated_memory bd) = Some (Raw raw)" "b \<noteq> 0" by metis
  have ok: "bufs_ok (heap s)" "\<not> fault s" using assms(1) by (auto simp: mm_ok_def)
  have ab: "allocated_memory bd \<noteq> b" "allocated_memory bd \<noteq> 0"
    using b ok heap_ok_get_pos [of "heap s" "allocated_memory bd"] by (auto simp: bufs_ok_def)
  let ?h = "h_free (h_free (heap s) (allocated_memory bd)) b"
  have other: "allocated_memory cd \<noteq> allocated_memory bd \<and> allocated_memory cd \<noteq> b"
    if "h_get (heap s) c = Some (Header cd)" "c \<noteq> b" for c cd
  proof -
    have "buf_ok (heap s) cd" using that ok(1) by (auto simp: bufs_ok_def)
    then have "allocated_memory cd \<noteq> b" using b(1) by (auto simp: buf_ok_def)
    then show ?thesis using that ok(1) b(1) unfolding bufs_ok_def by metis
  qed
  have "bufs_ok ?h"
  proof -
    have "buf_ok ?h cd" if c: "h_get ?h c = Some (Header cd)" for c cd
    proof -
      from c have "h_get (heap s) c = Some (Header cd)" "c \<noteq> b" by (auto split: if_splits)
      with other [OF this] ok(1) show ?thesis by (auto simp: bufs_ok_def buf_ok_def)
    qed
    then show ?thesis
      using ok(1) unfolding bufs_ok_def by (auto simp: heap_ok_free split: if_splits)
  qed
  moreover have "heap_content ?h c = ((heap_content (heap s))(b := None)) c" for c
    using other [of c] ab b
    by (auto simp: heap_content_def bytes_at_def split: option.splits mm_block.splits)
  moreover have "heap_room ?h c = heap_room (heap s) c" if "c \<noteq> b" for c
    using that b ab by (auto simp: heap_room_def)
  ultimately show ?thesis
    using b ab ok by (auto simp: free_buf_def iotsdk_alloc_free_def wp mm_ok_def fun_eq_iff)
qed

lemma alloc_from_heap_contract:
  assumes "mm_ok s" and "unat n + unat al < 4294967296"
  shows "wp (alloc_from_heap env n al) (\<lambda>b t. mm_ok t \<and>
    (b = 0 \<longrightarrow> mm_content t = mm_content s \<and> mm_room t = mm_room s) \<and>
    (b \<noteq> 0 \<longrightarrow> mm_content s b = None \<and> mm_room t b = unat n \<and>
      (\<exists>xs. mm_content t = (mm_content s)(b \<mapsto> xs) \<and> length xs = unat n) \<and>
      (\<forall>c. mm_content s c \<noteq> None \<longrightarrow> mm_room t c = mm_room s c))) s"
  using alloc_from_heap_spec [OF assms, of env]
proof (rule wp_mono, goal_cases)
  case (1 b t)
  show ?case
  proof (cases "b = 0")
    case True
    then show ?thesis using 1 by simp
  next
    case False
    with 1 obtain m bytes where ok: "mm_ok t" and
      new: "h_get (heap s) b = None" "h_get (heap s) m = None" "m \<noteq> b" and
      t: "heap t = (m, unat n + unat al, Raw bytes) #
        (b, 16, Header \<lparr>allocated_memory = m, buf_data = aligned_data m al, capacity = n, buf_len = n\<rparr>) # heap s"
      by auto
    have b: "h_get (heap t) b = Some (Header \<lparr>allocated_memory = m, buf_data = aligned_data m al, capacity = n, buf_len = n\<rparr>)"
      using t new by simp
    from mm_ok_header [OF ok b] obtain xs where xs: "mm_content t b = Some xs" by blast
    with b have len: "length xs = unat n"
      using mm_contentE [OF ok xs] by (metis mm_block.inject(2) option.inject priv_memory_buf.select_convs(4))
    have "mm_content t c = ((mm_content s)(b \<mapsto> xs)) c" for c
    proof (cases "c = b")
      case cb: False
      have "allocated_memory cd \<noteq> m \<and> allocated_memory cd \<noteq> b"
        if "h_get (heap s) c = Some (Header cd)" for cd
        using that assms(1) new by (fastforce simp: mm_ok_def bufs_ok_def buf_ok_def)
      then show ?thesis
        using cb t new by (auto simp: heap_content_def bytes_at_def split: option.splits mm_block.splits)
    qed (use xs in simp)
    then have "mm_content t = (mm_content s)(b \<mapsto> xs)" by (rule ext)
    moreover have "mm_content s b = None" "mm_room t b = unat n"
      using new b by (simp_all add: heap_content_def heap_room_def)
    moreover have "mm_room t c = mm_room s c" if "mm_content s c \<noteq> None" for c
      using that t new by (auto simp: heap_content_def heap_room_def)
    ultimately show ?thesis using False ok len by auto
  qed
qed

text \<open>The table of the operations is a memory manager.\<close>

interpretation iotsdk: network_buffers "gsc_vtable env" mm_ok mm_content mm_room
proof (unfold_locales, goal_cases)
  case (1 s n al)
  then show ?case using alloc_from_heap_contract by (simp add: gsc_vtable_def)
next
  case (2 s b old n xs)
  then show ?case using copy_to_buf_spec by (simp add: gsc_vtable_def)
next
  case (3 s b xs n)
  then show ?case using copy_from_buf_spec by (simp add: gsc_vtable_def)
next
  case (4 s b xs)
  then show ?case using get_payload_len_spec by (simp add: gsc_vtable_def)
next
  case (5 s b xs)
  then show ?case using free_buf_spec by (simp add: gsc_vtable_def)
next
  case (6 s)
  then show ?case by (simp add: heap_content_def mm_ok_def bufs_ok_def)
qed

lemma copy_spec:
  assumes "mm_ok s" and "mm_content s a = Some xs" and "mm_content s b = Some old" and "a \<noteq> b"
  shows "wp (copy a b) (\<lambda>_ t. mm_ok t \<and> mm_room t = mm_room s \<and>
    mm_content t = (if mm_room s a \<le> mm_room s b then (mm_content s)(b \<mapsto> xs) else mm_content s)) s"
proof -
  from mm_contentE [OF assms(1,2)] obtain ad ra where
    a: "h_get (heap s) a = Some (Header ad)" "h_get (heap s) (allocated_memory ad) = Some (Raw ra)" "a \<noteq> 0"
      "allocated_memory ad \<le> buf_data ad" "buf_data ad + unat (capacity ad) \<le> allocated_memory ad + length ra"
      "unat (buf_len ad) \<le> unat (capacity ad)" "length xs = unat (buf_len ad)" by metis
  from mm_contentE [OF assms(1,3)] obtain bd rb where
    b: "h_get (heap s) b = Some (Header bd)" "h_get (heap s) (allocated_memory bd) = Some (Raw rb)" "b \<noteq> 0"
      "allocated_memory bd \<le> buf_data bd" "buf_data bd + unat (capacity bd) \<le> allocated_memory bd + length rb" by metis
  have ok: "bufs_ok (heap s)" "\<not> fault s" using assms(1) by (auto simp: mm_ok_def)
  have room: "mm_room s a = unat (capacity ad)" "mm_room s b = unat (capacity bd)"
    using a b by (simp_all add: heap_room_def)
  show ?thesis
  proof (cases "capacity bd < capacity ad")
    case True
    then show ?thesis
      using a b assms(1) room by (simp add: copy_def wp word_less_nat_alt)
  next
    case False
    let ?n = "unat (buf_len ad)"
    have "wp (load ad ?n) (\<lambda>vs t. t = s \<and> vs = xs) s"
      using load_content [OF assms(1) a(1), of ?n]
      by (rule wp_mono) (use assms(2) a(7) in auto)
    then have ld: "wp (load ad ?n) Q s \<longleftrightarrow> Q xs s" for Q
      by (auto simp: wp_def split: prod.splits)
    have n: "buf_len ad \<le> capacity bd"
      using False a(6) by (simp add: word_le_nat_alt word_less_nat_alt)
    from store_content [OF ok(1) b(1) a(7)[symmetric] n b(2)] obtain rb' where
      st: "mem_write rb (buf_data bd - allocated_memory bd) xs = Some rb'"
        "bufs_ok (h_put (h_put (heap s) (allocated_memory bd) (Raw rb')) b (Header (bd\<lparr>buf_len := buf_len ad\<rparr>)))"
        "heap_content (h_put (h_put (heap s) (allocated_memory bd) (Raw rb')) b (Header (bd\<lparr>buf_len := buf_len ad\<rparr>))) =
          (heap_content (heap s))(b \<mapsto> xs)" by auto
    have ab: "allocated_memory bd \<noteq> b" using b by auto
    have r': "heap_room (h_put (h_put (heap s) (allocated_memory bd) (Raw rb')) b (Header (bd\<lparr>buf_len := buf_len ad\<rparr>))) = heap_room (heap s)"
      using b ab by (subst heap_room_put_header [of _ _ bd]) (auto simp: heap_room_put_raw)
    have apart: "(buf_data ad < buf_data bd + ?n \<and> buf_data bd < buf_data ad + ?n) = False"
    proof -
      have "length ra = h_size (heap s) (allocated_memory ad)" "length rb = h_size (heap s) (allocated_memory bd)"
        using bufs_okD [OF ok(1) a(1)] bufs_okD [OF ok(1) b(1)] a(2) b(2) by (auto simp: buf_ok_def)
      moreover have "allocated_memory ad \<noteq> allocated_memory bd"
        using ok(1) a(1) b(1) assms(4) unfolding bufs_ok_def by metis
      ultimately have "allocated_memory ad + length ra \<le> allocated_memory bd \<or>
          allocated_memory bd + length rb \<le> allocated_memory ad"
        using heap_ok_disjoint [of "heap s" "allocated_memory ad" _ "allocated_memory bd"] ok(1) a(2) b(2)
        by (auto simp: bufs_ok_def)
      moreover have "?n \<le> unat (capacity ad)" "?n \<le> unat (capacity bd)"
        using a(6) n by (simp_all add: word_le_nat_alt)
      ultimately have "\<not> (buf_data ad < buf_data bd + ?n \<and> buf_data bd < buf_data ad + ?n)"
        using a(4,5) b(4,5) by linarith
      then show ?thesis by simp
    qed
    have "wp (copy a b) Q s \<longleftrightarrow>
        Q () (heap_update ((\<lambda>h. h_put h b (Header (bd\<lparr>buf_len := buf_len ad\<rparr>))) \<circ>
          (\<lambda>h. h_put h (allocated_memory bd) (Raw rb'))) s)" for Q
      using a(1,3) b(1,2,3) st(1) ab False by (simp add: copy_def store_def wp ld Let_def apart)
    then show ?thesis
      using st(2,3) r' ok(2) room False by (simp add: mm_ok_def word_less_nat_alt)
  qed
qed

lemma set_payload_len_spec:
  assumes "mm_ok s" and "mm_content s b = Some xs"
  shows "wp (set_payload_len b n) (\<lambda>_ t. mm_ok t \<and> mm_room t = mm_room s) s"
proof -
  from mm_contentE [OF assms] obtain bd where
    b: "h_get (heap s) b = Some (Header bd)" "b \<noteq> 0" by metis
  have "bufs_ok (h_put (heap s) b (Header (bd\<lparr>buf_len := n\<rparr>)))" if "\<not> capacity bd < n"
    using assms(1) b that by (intro bufs_ok_header [OF _ b(1)]) (auto simp: mm_ok_def not_less)
  then show ?thesis
    using b assms(1) by (auto simp: set_payload_len_def wp mm_ok_def heap_room_put_header)
qed

section \<open>Properties\<close>

text \<open>
  When \<open>size + align\<close> fits 32 bits, \<open>alloc_from_heap\<close> returns \<open>NULL\<close> and leaves no block behind, or a new
  buffer of the size asked for whose data start at a multiple of the alignment and lie with their whole
  capacity inside a block of their own; every earlier block stays as it is.
\<close>

lemma alloc_from_heap_aligned:
  assumes "mm_ok s" and "unat sz + unat align < 4294967296"
  shows "wp (alloc_from_heap env sz align) (\<lambda>b t. mm_ok t \<and>
    (if b = 0 then heap t = heap s
     else h_get (heap s) b = None \<and> (\<exists>bd raw. h_get (heap t) b = Some (Header bd) \<and>
       h_get (heap t) (allocated_memory bd) = Some (Raw raw) \<and> h_get (heap s) (allocated_memory bd) = None \<and>
       capacity bd = sz \<and> buf_len bd = sz \<and> (align = 0 \<or> buf_data bd mod unat align = 0) \<and>
       allocated_memory bd \<le> buf_data bd \<and> buf_data bd + unat sz \<le> allocated_memory bd + length raw \<and>
       (\<forall>a. a \<noteq> b \<and> a \<noteq> allocated_memory bd \<longrightarrow> h_get (heap t) a = h_get (heap s) a)))) s"
  using alloc_from_heap_spec [OF assms, of env]
proof (rule wp_mono, goal_cases)
  case (1 b t)
  show ?case
  proof (cases "b = 0")
    case False
    with 1 obtain m bytes where m: "h_get (heap s) m = None" "m \<noteq> b" "length bytes = unat sz + unat align"
      "heap t = (m, unat sz + unat align, Raw bytes) #
         (b, 16, Header \<lparr>allocated_memory = m, buf_data = aligned_data m align, capacity = sz, buf_len = sz\<rparr>) # heap s"
      by auto
    have "align = 0 \<or> aligned_data m align mod unat align = 0" "m \<le> aligned_data m align"
      "aligned_data m align + unat sz \<le> m + length bytes"
      using aligned_data_bounds(1) [of m align] aligned_data_bounds(2) [of align m]
        aligned_data_bounds(3) [of m] aligned_data_bounds(4) [of align m] m(3)
      by (cases "align = 0"; simp)+
    with 1 False m show ?thesis by auto
  qed (use 1 in simp)
qed

definition no_buffers :: mm where
  "no_buffers = \<lparr>history = [], fault = False, heap = []\<rparr>"

theorem alloc_from_heap_aligned_witness:
  "wp (alloc_from_heap (\<lambda>h c. \<lparr>ret = 100 + 100 * int (length h), outs = [], payload = []\<rparr>) 60 8) (\<lambda>b t. mm_ok t \<and>
    (if b = 0 then heap t = heap no_buffers
     else h_get (heap no_buffers) b = None \<and> (\<exists>bd raw. h_get (heap t) b = Some (Header bd) \<and>
       h_get (heap t) (allocated_memory bd) = Some (Raw raw) \<and> h_get (heap no_buffers) (allocated_memory bd) = None \<and>
       capacity bd = 60 \<and> buf_len bd = 60 \<and> ((8 :: u32) = 0 \<or> buf_data bd mod unat (8 :: u32) = 0) \<and>
       allocated_memory bd \<le> buf_data bd \<and> buf_data bd + unat (60 :: u32) \<le> allocated_memory bd + length raw \<and>
       (\<forall>a. a \<noteq> b \<and> a \<noteq> allocated_memory bd \<longrightarrow> h_get (heap t) a = h_get (heap no_buffers) a)))) no_buffers"
  by (rule alloc_from_heap_aligned) (simp_all add: no_buffers_def mm_ok_def bufs_ok_def)

text \<open>
  C5. Bytes copied into one buffer, from there into a second one that has at least its capacity, and out
  again are the same bytes; no access leaves a block and every third buffer keeps its content.
\<close>

theorem buffer_transfer:
  assumes "mm_ok s" and "mm_content s a = Some xa" and "mm_content s b = Some xb" and "a \<noteq> b"
    and "unat n \<le> length xs" and "unat n \<le> mm_room s a" and "mm_room s a \<le> mm_room s b"
  shows "wp (do { r \<leftarrow> copy_to_buf (Some xs) n a; copy a b; copy_from_buf b True n })
    (\<lambda>ys t. mm_ok t \<and> ys = take (unat n) xs \<and>
      mm_content t = (mm_content s)(a \<mapsto> take (unat n) xs, b \<mapsto> take (unat n) xs)) s"
  using copy_to_buf_spec [OF assms(1,2,5,6)] unfolding wp_bind
proof (rule wp_mono)
  fix r t
  assume t: "mm_ok t \<and> r = n \<and> mm_content t = (mm_content s)(a \<mapsto> take (unat n) xs) \<and> mm_room t = mm_room s"
  then have "wp (copy a b) (\<lambda>_ u. mm_ok u \<and> mm_room u = mm_room t \<and>
      mm_content u = (if mm_room t a \<le> mm_room t b then (mm_content t)(b \<mapsto> take (unat n) xs) else mm_content t)) t"
    using assms(3,4) by (intro copy_spec) auto
  then show "wp (copy a b) (\<lambda>_. wp (copy_from_buf b True n) (\<lambda>ys u. mm_ok u \<and> ys = take (unat n) xs \<and>
      mm_content u = (mm_content s)(a \<mapsto> take (unat n) xs, b \<mapsto> take (unat n) xs))) t"
  proof (rule wp_mono)
    fix r' u
    assume "mm_ok u \<and> mm_room u = mm_room t \<and>
      mm_content u = (if mm_room t a \<le> mm_room t b then (mm_content t)(b \<mapsto> take (unat n) xs) else mm_content t)"
    then have u: "mm_ok u" "mm_content u = (mm_content s)(a \<mapsto> take (unat n) xs, b \<mapsto> take (unat n) xs)"
      using t assms(7) by auto
    then have "wp (copy_from_buf b True n) (\<lambda>ys v. v = u \<and> ys = take (unat n) (take (unat n) xs)) u"
      by (intro copy_from_buf_spec) auto
    then show "wp (copy_from_buf b True n) (\<lambda>ys u. mm_ok u \<and> ys = take (unat n) xs \<and>
      mm_content u = (mm_content s)(a \<mapsto> take (unat n) xs, b \<mapsto> take (unat n) xs)) u"
      by (rule wp_mono) (use u in auto)
  qed
qed

text \<open>A heap with two buffers, for the witnesses.\<close>

definition two_buffers :: mm where
  "two_buffers = \<lparr>history = [], fault = False,
     heap = [(400, 16, Header \<lparr>allocated_memory = 500, buf_data = 504, capacity = 4, buf_len = 0\<rparr>), (500, 8, Raw [0, 0, 0, 0, 0, 0, 0, 0]),
             (100, 16, Header \<lparr>allocated_memory = 200, buf_data = 200, capacity = 3, buf_len = 3\<rparr>), (200, 3, Raw [7, 7, 7])]\<rparr>"

lemma two_buffers_ok: "mm_ok two_buffers"
  by (auto simp: two_buffers_def mm_ok_def bufs_ok_def buf_ok_def h_fits_def split: if_splits)

theorem buffer_transfer_witness:
  "wp (do { r \<leftarrow> copy_to_buf (Some [1, 2, 3]) 2 100; copy 100 400; copy_from_buf 400 True 2 })
    (\<lambda>ys t. mm_ok t \<and> ys = take (unat (2 :: u32)) [1, 2, 3] \<and>
      mm_content t = (mm_content two_buffers)(100 \<mapsto> take (unat (2 :: u32)) [1, 2, 3], 400 \<mapsto> take (unat (2 :: u32)) [1, 2, 3])) two_buffers"
  by (rule buffer_transfer [OF two_buffers_ok, where xa = "[7, 7, 7]" and xb = "[]"])
    (simp_all add: two_buffers_def heap_content_def heap_room_def bytes_at_def)

text \<open>
  C4. The invariant of the memory manager (the data of every live buffer inside a block of its own, its
  length at most its capacity, no invalid access so far) is kept by every operation of its table, on live
  buffers and on \<open>NULL\<close>, whatever sizes are asked for; only an allocation has to fit 32 bits.
\<close>

theorem memory_manager_invariant:
  assumes "mm_ok s" and "b = 0 \<or> (\<exists>xs. mm_content s b = Some xs)" and "c = 0 \<or> (\<exists>xs. mm_content s c = Some xs)" and "b \<noteq> c"
    and "unat n + unat al < 4294967296" and "unat m \<le> length mem"
  shows "wp (alloc_from_heap env n al) (\<lambda>_. mm_ok) s \<and> wp (free_buf b) (\<lambda>_. mm_ok) s \<and>
    wp (copy b c) (\<lambda>_. mm_ok) s \<and> wp (copy_to_buf (Some mem) m b) (\<lambda>_. mm_ok) s \<and>
    wp (copy_from_buf b p m) (\<lambda>_. mm_ok) s \<and> wp (get_payload b) (\<lambda>_. mm_ok) s \<and>
    wp (get_payload_len b) (\<lambda>_. mm_ok) s \<and> wp (set_payload_len b m) (\<lambda>_. mm_ok) s"
proof (intro conjI)
  show "wp (alloc_from_heap env n al) (\<lambda>_. mm_ok) s"
    using alloc_from_heap_spec [OF assms(1,5), of env] by (rule wp_mono) auto
  show "wp (free_buf b) (\<lambda>_. mm_ok) s"
  proof (cases "b = 0")
    case False
    then obtain xs where b: "mm_content s b = Some xs" using assms(2) by auto
    from free_buf_spec [OF assms(1) this] show ?thesis by (rule wp_mono) auto
  qed (use assms(1) in \<open>simp add: free_buf_def wp\<close>)
  show "wp (copy b c) (\<lambda>_. mm_ok) s"
  proof (cases "b = 0 \<or> c = 0")
    case False
    then obtain xs ys where "mm_content s b = Some xs" "mm_content s c = Some ys" using assms(2,3) by auto
    from copy_spec [OF assms(1) this assms(4)] show ?thesis by (rule wp_mono) auto
  qed (use assms(1) in \<open>auto simp: copy_def wp\<close>)
  show "wp (copy_to_buf (Some mem) m b) (\<lambda>_. mm_ok) s"
  proof (cases "b = 0")
    case False
    then obtain xs where b: "mm_content s b = Some xs" using assms(2) by auto
    show ?thesis
    proof (cases "unat m \<le> mm_room s b")
      case True
      from copy_to_buf_spec [OF assms(1) b assms(6) this] show ?thesis by (rule wp_mono) auto
    next
      case big: False
      from mm_contentE [OF assms(1) b] obtain bd where "h_get (heap s) b = Some (Header bd)" by metis
      with big False assms(1) show ?thesis
        by (simp add: copy_to_buf_def wp heap_room_def word_less_nat_alt)
    qed
  qed (use assms(1) in \<open>simp add: copy_to_buf_def wp\<close>)
  show "wp (copy_from_buf b p m) (\<lambda>_. mm_ok) s"
  proof (cases "b = 0 \<or> \<not> p")
    case False
    then obtain xs where "mm_content s b = Some xs" using assms(2) by auto
    from copy_from_buf_spec [OF assms(1) this, of m] have "wp (copy_from_buf b True m) (\<lambda>_. mm_ok) s"
      by (rule wp_mono) (use assms(1) in auto)
    with False show ?thesis by simp
  qed (use assms(1) in \<open>auto simp: copy_from_buf_def wp\<close>)
  show "wp (get_payload b) (\<lambda>_. mm_ok) s"
  proof (cases "b = 0")
    case False
    then obtain xs where b: "mm_content s b = Some xs" using assms(2) by auto
    from mm_contentE [OF assms(1) b] obtain bd where "h_get (heap s) b = Some (Header bd)" by metis
    with assms(1) show ?thesis by (simp add: get_payload_def wp)
  qed (use assms(1) in \<open>simp add: get_payload_def wp\<close>)
  show "wp (get_payload_len b) (\<lambda>_. mm_ok) s"
  proof (cases "b = 0")
    case False
    then obtain xs where b: "mm_content s b = Some xs" using assms(2) by auto
    from get_payload_len_spec [OF assms(1) this] show ?thesis by (rule wp_mono) (use assms(1) in auto)
  qed (use assms(1) in \<open>simp add: get_payload_len_def wp\<close>)
  show "wp (set_payload_len b m) (\<lambda>_. mm_ok) s"
  proof (cases "b = 0")
    case False
    then obtain xs where b: "mm_content s b = Some xs" using assms(2) by auto
    from set_payload_len_spec [OF assms(1) this] show ?thesis by (rule wp_mono) auto
  qed (use assms(1) in \<open>simp add: set_payload_len_def wp\<close>)
qed

theorem memory_manager_invariant_witness:
  "wp (alloc_from_heap (\<lambda>h c. \<lparr>ret = 1000, outs = [], payload = []\<rparr>) 60 8) (\<lambda>_. mm_ok) two_buffers \<and>
    wp (free_buf 100) (\<lambda>_. mm_ok) two_buffers \<and>
    wp (copy 100 400) (\<lambda>_. mm_ok) two_buffers \<and> wp (copy_to_buf (Some [1]) 1 100) (\<lambda>_. mm_ok) two_buffers \<and>
    wp (copy_from_buf 100 True 1) (\<lambda>_. mm_ok) two_buffers \<and> wp (get_payload 100) (\<lambda>_. mm_ok) two_buffers \<and>
    wp (get_payload_len 100) (\<lambda>_. mm_ok) two_buffers \<and> wp (set_payload_len 100 1) (\<lambda>_. mm_ok) two_buffers"
  by (rule memory_manager_invariant [OF two_buffers_ok])
    (simp_all add: two_buffers_def heap_content_def bytes_at_def)

text \<open>
  The sum \<open>size + align\<close> is not checked: when it wraps around, a block smaller than the capacity of the
  buffer is allocated, and copying to the buffer as much as its capacity admits leaves the block.
\<close>

lemma alloc_from_heap_wraps:
  "wp (do { b \<leftarrow> alloc_from_heap (\<lambda>h c. \<lparr>ret = 100 + 100 * int (length h), outs = [], payload = []\<rparr>) 0xFFFFFFFC 8;
            r \<leftarrow> copy_to_buf (Some [1, 2, 3, 4, 5]) 5 b; return (b, r) })
    (\<lambda>(b, r) t. b \<noteq> 0 \<and> mm_room t b = 0xFFFFFFFC \<and> r = 5 \<and> fault t)
    no_buffers"
  by (simp add: no_buffers_def alloc_from_heap_def iotsdk_alloc_malloc_def wp h_alloc_def h_fits_def write_buf_def read_buf_def
    aligned_data_def copy_to_buf_def store_def mem_write_def heap_room_def Let_def)

end
