(* ===== verification/Nx_Driver.thy ===== *)
theory Nx_Driver
  imports Iotsdk_Memory
begin

unbundle bit_operations_syntax

text \<open>
  The NetX Duo link driver of \<open>nx-ip-link-mdh/src/iotsdk/nx_driver_mdh.c\<close>: the command handler NetX
  calls, and the callbacks the Ethernet driver calls.

  The state holds the \<open>device_driver_t\<close>, what the driver touches of NetX (the interface array of the one
  IP instance, the packets, the request in progress) and the state \<open>'m\<close> of the network buffer manager,
  which is reached through a table of functions as in C.  The hardware and NetX are calls to the
  environment; the answer 0 of an Ethernet call stands for \<open>MDH_EMAC_STATUS_NO_ERROR\<close>.  \<open>hal_rx\<close> is what the Ethernet driver does to the manager's buffers when it receives.
\<close>

section \<open>Constants\<close>

abbreviation (input) NX_SUCCESS :: u32 where "NX_SUCCESS \<equiv> 0"
abbreviation (input) NX_NOT_ENABLED :: u32 where "NX_NOT_ENABLED \<equiv> 0x14"
abbreviation (input) NX_ALREADY_ENABLED :: u32 where "NX_ALREADY_ENABLED \<equiv> 0x15"
abbreviation (input) NX_UNHANDLED_COMMAND :: u32 where "NX_UNHANDLED_COMMAND \<equiv> 0x44"
abbreviation (input) NX_DRIVER_ERROR :: u32 where "NX_DRIVER_ERROR \<equiv> 90"

abbreviation (input) NX_LINK_PACKET_SEND :: u32 where "NX_LINK_PACKET_SEND \<equiv> 0"
abbreviation (input) NX_LINK_INITIALIZE :: u32 where "NX_LINK_INITIALIZE \<equiv> 1"
abbreviation (input) NX_LINK_ENABLE :: u32 where "NX_LINK_ENABLE \<equiv> 2"
abbreviation (input) NX_LINK_DISABLE :: u32 where "NX_LINK_DISABLE \<equiv> 3"
abbreviation (input) NX_LINK_PACKET_BROADCAST :: u32 where "NX_LINK_PACKET_BROADCAST \<equiv> 4"
abbreviation (input) NX_LINK_ARP_SEND :: u32 where "NX_LINK_ARP_SEND \<equiv> 5"
abbreviation (input) NX_LINK_ARP_RESPONSE_SEND :: u32 where "NX_LINK_ARP_RESPONSE_SEND \<equiv> 6"
abbreviation (input) NX_LINK_RARP_SEND :: u32 where "NX_LINK_RARP_SEND \<equiv> 7"
abbreviation (input) NX_LINK_MULTICAST_JOIN :: u32 where "NX_LINK_MULTICAST_JOIN \<equiv> 8"
abbreviation (input) NX_LINK_MULTICAST_LEAVE :: u32 where "NX_LINK_MULTICAST_LEAVE \<equiv> 9"
abbreviation (input) NX_LINK_GET_STATUS :: u32 where "NX_LINK_GET_STATUS \<equiv> 10"
abbreviation (input) NX_LINK_DEFERRED_PROCESSING :: u32 where "NX_LINK_DEFERRED_PROCESSING \<equiv> 18"
abbreviation (input) NX_LINK_INTERFACE_ATTACH :: u32 where "NX_LINK_INTERFACE_ATTACH \<equiv> 19"

abbreviation (input) STATE_NOT_INITIALIZED :: byte where "STATE_NOT_INITIALIZED \<equiv> 1"
abbreviation (input) STATE_INITIALIZED :: byte where "STATE_INITIALIZED \<equiv> 3"
abbreviation (input) STATE_LINK_ENABLED :: byte where "STATE_LINK_ENABLED \<equiv> 4"

section \<open>State\<close>

datatype nx_call =
    EmacPowerUp | EmacPowerDown | EmacGetMtu | EmacGetAlign | EmacGetMacAddr
  | EmacAddMulticast "byte list" | EmacRemoveMulticast "byte list"
  | EmacTransmit nat | EmacReceive nat
  | NxMtuSet u32 u32 | NxPhysicalAddressSet u32 u32 u32 | NxMappingConfigure u32
  | NxPacketAllocate nat | NxPacketRelease nat | NxPacketTransmitRelease nat
  | NxIpDeferredReceive nat | NxArpDeferredReceive nat | NxRarpDeferredReceive nat
  | NxDriverDeferredProcessing | TxDisable | TxRestore

text \<open>An \<open>NX_INTERFACE\<close>; a pointer to one is its index in the array of the IP instance.\<close>

record nx_interface =
  link_up :: byte
  if_index :: byte
  if_msw :: u32
  if_lsw :: u32

text \<open>An \<open>NX_PACKET\<close>: the bytes of its data area; the pointers into it are offsets.\<close>

record nx_packet =
  pk_data :: "byte list"
  pk_prepend :: int
  pk_append :: int
  pk_length :: u32
  pk_version :: byte
  pk_interface :: nat

text \<open>An \<open>NX_IP_DRIVER\<close> request; \<open>req_return\<close> is the word behind \<open>nx_ip_driver_return_ptr\<close>.\<close>

record nx_request =
  req_command :: u32
  req_status :: u32
  req_msw :: u32
  req_lsw :: u32
  req_packet :: nat
  req_return :: u32
  req_interface :: nat

record 'm nx = "nx_call world" +
  dev_state :: byte
  busy_transmitting :: bool
  memory_manager :: bool
  mtu :: u32
  memory_alignment :: u32
  mac_address :: "byte list"
  outgoing_packet :: nat
  incoming_pool :: nat
  attached :: "nat option"
  deferred_event :: byte
  interfaces :: "nx_interface list"
  default_pool :: nat
  packets :: "nat \<Rightarrow> nx_packet option"
  request :: nx_request
  manager :: 'm

record 'm hal =
  hal_env :: "nx_call env"
  hal_vt :: "'m vtable"
  hal_rx :: "reply \<Rightarrow> nat \<Rightarrow> 'm \<Rightarrow> 'm"

type_synonym ('m, 'a) nx_m = "('m nx, 'a) state"

text \<open>A call through the memory manager's table; the pointer to the manager must be set.\<close>

definition with_manager :: "('m, 'a) state \<Rightarrow> ('m, 'a) nx_m" where
  "with_manager m =
     do {
       set \<leftarrow> gets memory_manager;
       do_if (\<not> set) crash;
       State (\<lambda>s. let (a, x) = run_state m (manager s) in (a, s\<lparr>manager := x\<rparr>))
     }"

definition set_status :: "u32 \<Rightarrow> ('m, unit) nx_m" where
  "set_status v = modify (\<lambda>s. s\<lparr>request := (request s)\<lparr>req_status := v\<rparr>\<rparr>)"

definition no_packet :: nx_packet where
  "no_packet = \<lparr>pk_data = [], pk_prepend = 0, pk_append = 0, pk_length = 0, pk_version = 0, pk_interface = 0\<rparr>"

definition get_packet :: "nat \<Rightarrow> ('m, nx_packet) nx_m" where
  "get_packet p = do { ps \<leftarrow> gets packets;
     case ps p of Some k \<Rightarrow> return k | None \<Rightarrow> do { crash; return no_packet } }"

definition put_packet :: "nat \<Rightarrow> nx_packet \<Rightarrow> ('m, unit) nx_m" where
  "put_packet p k = modify (\<lambda>s. s\<lparr>packets := (packets s)(p \<mapsto> k)\<rparr>)"

definition get_interface :: "nat \<Rightarrow> ('m, nx_interface) nx_m" where
  "get_interface i = do { l \<leftarrow> gets interfaces;
     if i < length l then return (l ! i)
     else do { crash; return \<lparr>link_up = 0, if_index = 0, if_msw = 0, if_lsw = 0\<rparr> } }"

definition set_link_up :: "nat \<Rightarrow> byte \<Rightarrow> ('m, unit) nx_m" where
  "set_link_up i v = do { f \<leftarrow> get_interface i;
     modify (\<lambda>s. s\<lparr>interfaces := (interfaces s)[i := f\<lparr>link_up := v\<rparr>]\<rparr>) }"

definition out_at :: "reply \<Rightarrow> nat \<Rightarrow> int" where
  "out_at r i = (if i < length (outs r) then outs r ! i else 0)"

definition bytes_of_word :: "u32 \<Rightarrow> byte list" where
  "bytes_of_word w = [ucast (drop_bit 24 w), ucast (drop_bit 16 w), ucast (drop_bit 8 w), ucast w]"

section \<open>Packets\<close>

definition remove_nx_packet_ethernet_header :: "nat \<Rightarrow> ('m, unit) nx_m" where
  "remove_nx_packet_ethernet_header p =
     do { k \<leftarrow> get_packet p;
          put_packet p (k\<lparr>pk_prepend := pk_prepend k + 14, pk_length := pk_length k - 14\<rparr>) }"

text \<open>
  The four words of the header, at offset \<open>at\<close> of the packet's data; after the swap of
  \<open>NX_CHANGE_ULONG_ENDIAN\<close> their bytes lie in network order.
\<close>

definition ether_type :: "u32 \<Rightarrow> byte \<Rightarrow> u32" where
  "ether_type command version =
     (if command = NX_LINK_ARP_SEND \<or> command = NX_LINK_ARP_RESPONSE_SEND then 0x0806
      else if command = NX_LINK_RARP_SEND then 0x8035
      else if version = 6 then 0x86dd
      else 0x0800)"

definition add_ethernet_header :: "nat \<Rightarrow> int \<Rightarrow> ('m, unit) nx_m" where
  "add_ethernet_header p at =
     do {
       rq \<leftarrow> gets request;
       f \<leftarrow> get_interface (req_interface rq);
       k \<leftarrow> get_packet p;
       let w0 = req_msw rq;
       let w1 = req_lsw rq;
       let w2 = push_bit 16 (if_msw f) OR drop_bit 16 (if_lsw f);
       let w3 = push_bit 16 (if_lsw f) OR ether_type (req_command rq) (pk_version k);
       let bytes = bytes_of_word w0 @ bytes_of_word w1 @ bytes_of_word w2 @ bytes_of_word w3;
       case (if at < 0 then None else mem_write (pk_data k) (nat at) bytes) of
         None \<Rightarrow> crash
       | Some d \<Rightarrow> put_packet p (k\<lparr>pk_data := d\<rparr>)
     }"

section \<open>Hardware\<close>

definition hardware_enable :: "'m hal \<Rightarrow> ('m, u32) nx_m" where
  "hardware_enable hal =
     do { r \<leftarrow> call (hal_env hal) EmacPowerUp; return (if r = 0 then NX_SUCCESS else NX_DRIVER_ERROR) }"

definition hardware_disable :: "'m hal \<Rightarrow> ('m, u32) nx_m" where
  "hardware_disable hal =
     do { r \<leftarrow> call (hal_env hal) EmacPowerDown; return (if r = 0 then NX_SUCCESS else NX_DRIVER_ERROR) }"

definition hardware_initialize :: "'m hal \<Rightarrow> ('m, u32) nx_m" where
  "hardware_initialize hal =
     do {
       modify (memory_manager_update (\<lambda>_. True));
       r \<leftarrow> hardware_enable hal;
       if r \<noteq> NX_SUCCESS then return NX_DRIVER_ERROR
       else do {
         m \<leftarrow> call (hal_env hal) EmacGetMtu;
         modify (mtu_update (\<lambda>_. of_int m));
         a \<leftarrow> call (hal_env hal) EmacGetAlign;
         modify (memory_alignment_update (\<lambda>_. of_int a));
         g \<leftarrow> extern (hal_env hal) EmacGetMacAddr;
         modify (mac_address_update (\<lambda>_. pad 6 (payload g)));
         if ret g \<noteq> 0 then return NX_DRIVER_ERROR
         else do { modify (busy_transmitting_update (\<lambda>_. False)); return NX_SUCCESS }
       }
     }"

text \<open>The address array of the two multicast functions.\<close>

definition multicast_address :: "u32 \<Rightarrow> u32 \<Rightarrow> byte list" where
  "multicast_address msw lsw =
     [ucast (drop_bit 8 msw), ucast msw,
      ucast (drop_bit 24 lsw), ucast (drop_bit 16 lsw), ucast (drop_bit 8 lsw), ucast lsw]"

definition hardware_multicast_join :: "'m hal \<Rightarrow> ('m, u32) nx_m" where
  "hardware_multicast_join hal =
     do { rq \<leftarrow> gets request;
          r \<leftarrow> call (hal_env hal) (EmacAddMulticast (multicast_address (req_msw rq) (req_lsw rq)));
          return (if r = 0 then NX_SUCCESS else NX_DRIVER_ERROR) }"

definition hardware_multicast_leave :: "'m hal \<Rightarrow> ('m, u32) nx_m" where
  "hardware_multicast_leave hal =
     do { rq \<leftarrow> gets request;
          r \<leftarrow> call (hal_env hal) (EmacRemoveMulticast (multicast_address (req_msw rq) (req_lsw rq)));
          return (if r = 0 then NX_SUCCESS else NX_DRIVER_ERROR) }"

definition packet_bytes :: "nx_packet \<Rightarrow> byte list option" where
  "packet_bytes k = (if 0 \<le> pk_prepend k then Some (drop (nat (pk_prepend k)) (pk_data k)) else None)"

definition hardware_send_packet :: "'m hal \<Rightarrow> nat \<Rightarrow> ('m, u32) nx_m" where
  "hardware_send_packet hal p =
     do {
       busy \<leftarrow> gets busy_transmitting;
       if busy then return NX_DRIVER_ERROR
       else do {
         k \<leftarrow> get_packet p;
         al \<leftarrow> gets memory_alignment;
         buffer \<leftarrow> with_manager (vt_alloc_from_heap (hal_vt hal) (pk_length k) al);
         if buffer = 0 then return NX_DRIVER_ERROR
         else do {
           do_if (packet_bytes k = None) crash;
           with_manager (vt_copy_to_buf (hal_vt hal) (packet_bytes k) (pk_length k) buffer);
           modify (busy_transmitting_update (\<lambda>_. True));
           transmit_outcome \<leftarrow> call (hal_env hal) (EmacTransmit buffer);
           do_if (transmit_outcome \<noteq> 0) (modify (busy_transmitting_update (\<lambda>_. False)));
           return (if transmit_outcome = 0 then NX_SUCCESS else NX_DRIVER_ERROR)
         }
       }
     }"

definition transfer_to_netx :: "'m hal \<Rightarrow> nat \<Rightarrow> ('m, bool) nx_m" where
  "transfer_to_netx hal p =
     do {
       rq \<leftarrow> gets request;
       k \<leftarrow> get_packet p;
       put_packet p (k\<lparr>pk_interface := req_interface rq\<rparr>);
       let hdr = (case packet_bytes k of None \<Rightarrow> [] | Some d \<Rightarrow> d);
       do_if (length hdr < 14) crash;
       let packet_type = push_bit 8 (ucast (hdr ! 12)) OR (ucast (hdr ! 13) :: u16);
       remove_nx_packet_ethernet_header p;
       if packet_type = 0x0800 \<or> packet_type = 0x86dd then
         do { tell (hal_env hal) (NxIpDeferredReceive p); return True }
       else if packet_type = 0x0806 then
         do { tell (hal_env hal) (NxArpDeferredReceive p); return True }
       else if packet_type = 0x8035 then
         do { tell (hal_env hal) (NxRarpDeferredReceive p); return True }
       else return False
     }"

text \<open>
  \<open>nx_packet_allocate\<close> answers with the status, the packet's address and the offset of its prepend
  pointer, and with the bytes of its data area.
\<close>

definition hardware_receive_packet :: "'m hal \<Rightarrow> ('m, u32) nx_m" where
  "hardware_receive_packet hal =
     do {
       size_max \<leftarrow> gets mtu;
       al \<leftarrow> gets memory_alignment;
       buffer \<leftarrow> with_manager (vt_alloc_from_heap (hal_vt hal) size_max al);
       if buffer = 0 then return NX_DRIVER_ERROR
       else do {
         r \<leftarrow> extern (hal_env hal) (EmacReceive buffer);
         modify (\<lambda>s. s\<lparr>manager := hal_rx hal r buffer (manager s)\<rparr>);
         if ret r \<noteq> 0 then do { with_manager (vt_free (hal_vt hal) buffer); return NX_DRIVER_ERROR }
         else do {
           pl \<leftarrow> gets incoming_pool;
           a \<leftarrow> extern (hal_env hal) (NxPacketAllocate pl);
           if ret a \<noteq> 0 then do { with_manager (vt_free (hal_vt hal) buffer); return NX_DRIVER_ERROR }
           else do {
             let p = nat (out_at a 0);
             put_packet p \<lparr>pk_data = payload a, pk_prepend = out_at a 1 + 2, pk_append = out_at a 1,
                           pk_length = 0, pk_version = 0, pk_interface = 0\<rparr>;
             k \<leftarrow> get_packet p;
             bytes \<leftarrow> with_manager (vt_copy_from_buf (hal_vt hal) buffer True size_max);
             (case (if pk_prepend k < 0 then None else mem_write (pk_data k) (nat (pk_prepend k)) bytes) of
                None \<Rightarrow> crash
              | Some d \<Rightarrow> put_packet p (k\<lparr>pk_data := d\<rparr>));
             if bytes = [] then
               do { with_manager (vt_free (hal_vt hal) buffer);
                    tell (hal_env hal) (NxPacketRelease p);
                    return NX_DRIVER_ERROR }
             else do {
               n \<leftarrow> with_manager (vt_get_payload_len (hal_vt hal) buffer);
               k \<leftarrow> get_packet p;
               put_packet p (k\<lparr>pk_length := n, pk_append := pk_prepend k + int (unat n)\<rparr>);
               with_manager (vt_free (hal_vt hal) buffer);
               ok \<leftarrow> transfer_to_netx hal p;
               do_if (\<not> ok) (tell (hal_env hal) (NxPacketRelease p));
               return NX_SUCCESS
             }
           }
         }
       }
     }"

section \<open>Link commands\<close>

definition nx_link_interface_attach :: "('m, unit) nx_m" where
  "nx_link_interface_attach =
     modify (\<lambda>s. s\<lparr>attached := Some (req_interface (request s))\<rparr>)"

definition mac_msw :: "byte list \<Rightarrow> u32" where
  "mac_msw m = push_bit 8 (ucast (m ! 0)) OR ucast (m ! 1)"

definition mac_lsw :: "byte list \<Rightarrow> u32" where
  "mac_lsw m = push_bit 24 (ucast (m ! 2)) OR push_bit 16 (ucast (m ! 3)) OR
     push_bit 8 (ucast (m ! 4)) OR ucast (m ! 5)"

definition nx_link_initialize :: "'m hal \<Rightarrow> ('m, unit) nx_m" where
  "nx_link_initialize hal =
     do {
       modify (dev_state_update (\<lambda>_. STATE_NOT_INITIALIZED));
       r \<leftarrow> hardware_initialize hal;
       if r \<noteq> NX_SUCCESS then set_status NX_DRIVER_ERROR
       else do {
         modify (\<lambda>s. s\<lparr>incoming_pool := default_pool s\<rparr>);
         rq \<leftarrow> gets request;
         f \<leftarrow> get_interface (req_interface rq);
         let interface_index = ucast (if_index f);
         m \<leftarrow> gets mtu;
         tell (hal_env hal) (NxMtuSet interface_index (m - 14));
         a \<leftarrow> gets mac_address;
         tell (hal_env hal) (NxPhysicalAddressSet interface_index (mac_msw a) (mac_lsw a));
         tell (hal_env hal) (NxMappingConfigure interface_index);
         modify (dev_state_update (\<lambda>_. STATE_INITIALIZED))
       }
     }"

definition nx_link_enable :: "'m hal \<Rightarrow> ('m, unit) nx_m" where
  "nx_link_enable hal =
     do {
       st \<leftarrow> gets dev_state;
       if st < STATE_INITIALIZED then set_status NX_DRIVER_ERROR
       else if st = STATE_LINK_ENABLED then set_status NX_ALREADY_ENABLED
       else do {
         r \<leftarrow> hardware_enable hal;
         if r \<noteq> NX_SUCCESS then set_status NX_DRIVER_ERROR
         else do {
           rq \<leftarrow> gets request;
           set_link_up (req_interface rq) 1;
           modify (dev_state_update (\<lambda>_. STATE_LINK_ENABLED))
         }
       }
     }"

definition nx_link_disable :: "'m hal \<Rightarrow> ('m, unit) nx_m" where
  "nx_link_disable hal =
     do {
       st \<leftarrow> gets dev_state;
       if st \<noteq> STATE_LINK_ENABLED then set_status NX_DRIVER_ERROR
       else do {
         r \<leftarrow> hardware_disable hal;
         if r \<noteq> NX_SUCCESS then set_status NX_DRIVER_ERROR
         else do {
           rq \<leftarrow> gets request;
           set_link_up (req_interface rq) 0;
           modify (dev_state_update (\<lambda>_. STATE_INITIALIZED))
         }
       }
     }"

definition nx_link_packet_send :: "'m hal \<Rightarrow> ('m, unit) nx_m" where
  "nx_link_packet_send hal =
     do {
       st \<leftarrow> gets dev_state;
       if st \<noteq> STATE_LINK_ENABLED then set_status NX_NOT_ENABLED
       else do {
         rq \<leftarrow> gets request;
         let p = req_packet rq;
         k \<leftarrow> get_packet p;
         let k = k\<lparr>pk_prepend := pk_prepend k - 14, pk_length := pk_length k + 14\<rparr>;
         put_packet p k;
         m \<leftarrow> gets mtu;
         if pk_length k > m then do {
           remove_nx_packet_ethernet_header p;
           set_status NX_DRIVER_ERROR
         }
         else do {
           add_ethernet_header p (pk_prepend k - 2);
           modify (outgoing_packet_update (\<lambda>_. p));
           status \<leftarrow> hardware_send_packet hal p;
           if status \<noteq> NX_SUCCESS then do {
             remove_nx_packet_ethernet_header p;
             set_status NX_DRIVER_ERROR
           }
           else return ()
         }
       }
     }"

definition nx_link_multicast_join :: "'m hal \<Rightarrow> ('m, unit) nx_m" where
  "nx_link_multicast_join hal =
     do {
       st \<leftarrow> gets dev_state;
       if st \<noteq> STATE_LINK_ENABLED then set_status NX_NOT_ENABLED
       else do {
         r \<leftarrow> hardware_multicast_join hal;
         if r \<noteq> NX_SUCCESS then set_status NX_DRIVER_ERROR else return ()
       }
     }"

definition nx_link_multicast_leave :: "'m hal \<Rightarrow> ('m, unit) nx_m" where
  "nx_link_multicast_leave hal =
     do {
       st \<leftarrow> gets dev_state;
       if st \<noteq> STATE_LINK_ENABLED then set_status NX_NOT_ENABLED
       else do {
         r \<leftarrow> hardware_multicast_leave hal;
         if r \<noteq> NX_SUCCESS then set_status NX_DRIVER_ERROR else return ()
       }
     }"

definition nx_link_get_status :: "('m, unit) nx_m" where
  "nx_link_get_status =
     do {
       f \<leftarrow> get_interface 0;
       modify (\<lambda>s. s\<lparr>request := (request s)\<lparr>req_return := ucast (link_up f)\<rparr>\<rparr>)
     }"

text \<open>The assertion on unexpected events is a fault.\<close>

definition nx_link_deferred_processing :: "'m hal \<Rightarrow> ('m, unit) nx_m" where
  "nx_link_deferred_processing hal =
     do {
       tell (hal_env hal) TxDisable;
       deferred_events \<leftarrow> gets deferred_event;
       do_if (deferred_events AND NOT 1 \<noteq> 0) crash;
       modify (deferred_event_update (\<lambda>_. 0));
       tell (hal_env hal) TxRestore;
       if deferred_events AND 1 \<noteq> 0 then do {
         r \<leftarrow> hardware_receive_packet hal;
         if r \<noteq> NX_SUCCESS then set_status NX_DRIVER_ERROR else return ()
       }
       else return ()
     }"

definition nx_driver_mdh_ip_link_fsm :: "'m hal \<Rightarrow> ('m, unit) nx_m" where
  "nx_driver_mdh_ip_link_fsm hal =
     do {
       set_status NX_SUCCESS;
       rq \<leftarrow> gets request;
       let c = req_command rq;
       if c = NX_LINK_INTERFACE_ATTACH then nx_link_interface_attach
       else if c = NX_LINK_INITIALIZE then nx_link_initialize hal
       else if c = NX_LINK_ENABLE then nx_link_enable hal
       else if c = NX_LINK_DISABLE then nx_link_disable hal
       else if c = NX_LINK_GET_STATUS then nx_link_get_status
       else if c = NX_LINK_ARP_SEND \<or> c = NX_LINK_ARP_RESPONSE_SEND \<or> c = NX_LINK_PACKET_BROADCAST \<or>
         c = NX_LINK_RARP_SEND \<or> c = NX_LINK_PACKET_SEND then nx_link_packet_send hal
       else if c = NX_LINK_MULTICAST_JOIN then nx_link_multicast_join hal
       else if c = NX_LINK_MULTICAST_LEAVE then nx_link_multicast_leave hal
       else if c = NX_LINK_DEFERRED_PROCESSING then nx_link_deferred_processing hal
       else set_status NX_UNHANDLED_COMMAND
     }"

section \<open>Callbacks\<close>

definition on_receive_complete :: "'m hal \<Rightarrow> ('m, unit) nx_m" where
  "on_receive_complete hal =
     do {
       modify (\<lambda>s. s\<lparr>deferred_event := deferred_event s OR 1\<rparr>);
       tell (hal_env hal) NxDriverDeferredProcessing
     }"

definition on_transmit_complete :: "'m hal \<Rightarrow> nat \<Rightarrow> ('m, unit) nx_m" where
  "on_transmit_complete hal buffer =
     do {
       modify (busy_transmitting_update (\<lambda>_. False));
       p \<leftarrow> gets outgoing_packet;
       remove_nx_packet_ethernet_header p;
       tell (hal_env hal) (NxPacketTransmitRelease p);
       with_manager (vt_free (hal_vt hal) buffer)
     }"

text \<open>The argument says whether the event is \<open>MDH_EMAC_EVENT_LINK_STATUS_CHANGE\<close>.\<close>

definition on_event :: "bool \<Rightarrow> ('m, unit) nx_m" where
  "on_event link_status_change =
     (if link_status_change then do {
        a \<leftarrow> gets attached;
        do_if (a = None) crash;
        f \<leftarrow> get_interface 0;
        if link_up f = 1 then set_link_up 0 0 else set_link_up 0 1
      }
      else return ())"


section \<open>Rules\<close>

lemma wp_with_manager:
  "wp (with_manager m) Q s \<longleftrightarrow>
    wp m (\<lambda>a x. Q a ((if memory_manager s then s else s\<lparr>fault := True\<rparr>)\<lparr>manager := x\<rparr>)) (manager s)"
  unfolding with_manager_def wp wp_State by (simp add: wp_def split: prod.split)

lemma wp_manager_run:
  "wp (with_manager m) Q s \<longleftrightarrow> Q (fst (run_state m (manager s)))
     ((if memory_manager s then s else s\<lparr>fault := True\<rparr>)\<lparr>manager := snd (run_state m (manager s))\<rparr>)"
  by (simp only: wp_with_manager) (simp only: wp_run)

lemma wp_set_status [wp]: "wp (set_status v) Q s \<longleftrightarrow> Q () (s\<lparr>request := (request s)\<lparr>req_status := v\<rparr>\<rparr>)"
  by (simp add: set_status_def wp)

lemma wp_get_packet [wp]:
  "wp (get_packet p) Q s \<longleftrightarrow>
    (case packets s p of Some k \<Rightarrow> Q k s | None \<Rightarrow> Q no_packet (s\<lparr>fault := True\<rparr>))"
  by (simp add: get_packet_def wp split: option.split)

lemma wp_put_packet [wp]: "wp (put_packet p k) Q s \<longleftrightarrow> Q () (s\<lparr>packets := (packets s)(p \<mapsto> k)\<rparr>)"
  by (simp add: put_packet_def wp)

section \<open>Commands and events\<close>

text \<open>What happens to the driver: a request of NetX or an interrupt of the Ethernet controller.\<close>

datatype nx_event = Command nx_request | RxComplete | TxComplete nat | EmacEvent bool

definition nx_handle :: "'m hal \<Rightarrow> nx_event \<Rightarrow> ('m, unit) nx_m" where
  "nx_handle hal ev =
     (case ev of
        Command rq \<Rightarrow> do { modify (request_update (\<lambda>_. rq)); nx_driver_mdh_ip_link_fsm hal }
      | RxComplete \<Rightarrow> on_receive_complete hal
      | TxComplete b \<Rightarrow> on_transmit_complete hal b
      | EmacEvent e \<Rightarrow> on_event e)"

inductive nx_reachable :: "'m hal \<Rightarrow> 'm nx \<Rightarrow> 'm nx \<Rightarrow> bool" for hal s0 where
  start: "nx_reachable hal s0 s0"
| step: "nx_reachable hal s0 s \<Longrightarrow> run_state (nx_handle hal ev) s = ((), t) \<Longrightarrow> nx_reachable hal s0 t"

inductive_cases nx_reachableE: "nx_reachable hal s0 t"

text \<open>Whether the calls so far leave the controller powered, and whether it was at every transmission.\<close>

fun powered :: "(nx_call \<times> reply) list \<Rightarrow> bool" where
  "powered [] = False"
| "powered ((EmacPowerUp, r) # h) = (ret r = 0 \<or> powered h)"
| "powered ((EmacPowerDown, r) # h) = (ret r \<noteq> 0 \<and> powered h)"
| "powered (c # h) = powered h"

fun transmits_powered :: "(nx_call \<times> reply) list \<Rightarrow> bool" where
  "transmits_powered [] = True"
| "transmits_powered ((EmacTransmit b, r) # h) = (powered h \<and> transmits_powered h)"
| "transmits_powered (c # h) = transmits_powered h"

definition driver_ok :: "'m nx \<Rightarrow> bool" where
  "driver_ok s \<longleftrightarrow> dev_state s \<in> {0, 1, 3, 4} \<and>
     (dev_state s = 4 \<longrightarrow> powered (history s)) \<and>
     (dev_state s = 3 \<or> dev_state s = 4 \<longrightarrow> memory_manager s \<and> length (mac_address s) = 6) \<and>
     transmits_powered (history s)"

lemma keeps_with_manager [keeps]:
  "(\<And>s x. P s \<Longrightarrow> P (s\<lparr>manager := x\<rparr>)) \<Longrightarrow> (\<And>s. P s \<Longrightarrow> P (s\<lparr>fault := True\<rparr>)) \<Longrightarrow> keeps P (with_manager m)"
  by (simp add: keeps_def wp_manager_run)

lemma keeps_set_status [keeps]:
  "(\<And>s x. P s \<Longrightarrow> P (s\<lparr>request := x\<rparr>)) \<Longrightarrow> keeps P (set_status v)"
  by (simp add: keeps_def wp)

lemma keeps_get_packet [keeps]: "(\<And>s. P s \<Longrightarrow> P (s\<lparr>fault := True\<rparr>)) \<Longrightarrow> keeps P (get_packet p)"
  by (auto simp: keeps_def wp split: option.split)

lemma keeps_put_packet [keeps]: "(\<And>s x. P s \<Longrightarrow> P (s\<lparr>packets := x\<rparr>)) \<Longrightarrow> keeps P (put_packet p k)"
  by (simp add: keeps_def wp)

text \<open>The invariant does not speak of what most calls and assignments change.\<close>

definition powered_on :: "'m nx \<Rightarrow> bool" where
  "powered_on s \<longleftrightarrow> driver_ok s \<and> dev_state s = 4"

fun power_call :: "nx_call \<Rightarrow> bool" where
  "power_call EmacPowerUp = True"
| "power_call EmacPowerDown = True"
| "power_call (EmacTransmit b) = True"
| "power_call _ = False"

lemma powered_other [simp]:
  "\<not> power_call c \<Longrightarrow> powered ((c, r) # h) = powered h"
  "\<not> power_call c \<Longrightarrow> transmits_powered ((c, r) # h) = transmits_powered h"
  by (cases c; simp)+

lemmas ok_simps = driver_ok_def powered_on_def

lemma keeps_header:
  "keeps driver_ok (remove_nx_packet_ethernet_header p)" "keeps powered_on (remove_nx_packet_ethernet_header p)"
  unfolding remove_nx_packet_ethernet_header_def
  by (intro keeps; simp add: ok_simps)+

lemma keeps_interface:
  "keeps driver_ok (get_interface i)" "keeps powered_on (get_interface i)"
  "keeps driver_ok (set_link_up i v)"
  unfolding set_link_up_def get_interface_def
  by (intro keeps; simp add: ok_simps)+

lemma keeps_add_header: "keeps powered_on (add_ethernet_header p a)"
  unfolding add_ethernet_header_def
  by (intro keeps keeps_interface; simp add: ok_simps)

lemma keeps_send: "keeps powered_on (hardware_send_packet hal p)"
  unfolding hardware_send_packet_def
  by (intro keeps; simp add: ok_simps)

lemma keeps_receive: "keeps driver_ok (hardware_receive_packet hal)"
  unfolding hardware_receive_packet_def transfer_to_netx_def
  by (intro keeps keeps_header; simp add: ok_simps)

lemma ok_packet_send: "keeps driver_ok (nx_link_packet_send hal)"
proof (rule keepsI)
  fix s :: "'a nx"
  assume ok: "driver_ok s"
  show "wp (nx_link_packet_send hal) (\<lambda>_. driver_ok) s"
  proof (cases "dev_state s = 4")
    case False
    then show ?thesis using ok by (simp add: nx_link_packet_send_def wp driver_ok_def)
  next
    case True
    have "keeps powered_on (nx_link_packet_send hal)"
      unfolding nx_link_packet_send_def
      by (intro keeps keeps_header keeps_add_header keeps_send; simp add: ok_simps)
    then have "wp (nx_link_packet_send hal) (\<lambda>_. powered_on) s"
      using True ok by (intro keepsD) (simp_all add: powered_on_def)
    then show ?thesis by (rule wp_mono) (simp add: powered_on_def)
  qed
qed

lemma ok_initialize: "keeps driver_ok (nx_link_initialize hal)"
  by (rule keepsI) (simp add: nx_link_initialize_def hardware_initialize_def hardware_enable_def get_interface_def
    wp driver_ok_def Let_def)

lemma ok_enable: "keeps driver_ok (nx_link_enable hal)"
  by (rule keepsI) (auto simp: nx_link_enable_def hardware_enable_def set_link_up_def get_interface_def wp driver_ok_def)

lemma ok_disable: "keeps driver_ok (nx_link_disable hal)"
  by (rule keepsI) (auto simp: nx_link_disable_def hardware_disable_def set_link_up_def get_interface_def wp driver_ok_def)

lemma ok_fsm: "keeps driver_ok (nx_driver_mdh_ip_link_fsm hal)"
  unfolding nx_driver_mdh_ip_link_fsm_def nx_link_interface_attach_def nx_link_get_status_def
    nx_link_multicast_join_def nx_link_multicast_leave_def hardware_multicast_join_def hardware_multicast_leave_def
    nx_link_deferred_processing_def
  by (intro keeps keeps_interface keeps_receive ok_packet_send ok_initialize ok_enable ok_disable; simp add: ok_simps)

lemma ok_handle: "keeps driver_ok (nx_handle hal ev)"
proof (cases ev)
  case (Command rq)
  have "keeps driver_ok (do { modify (request_update (\<lambda>_. rq)); nx_driver_mdh_ip_link_fsm hal })"
    by (intro keeps ok_fsm; simp add: ok_simps)
  with Command show ?thesis by (simp add: nx_handle_def)
next
  case RxComplete
  have "keeps driver_ok (on_receive_complete hal)"
    unfolding on_receive_complete_def by (intro keeps; simp add: ok_simps)
  with RxComplete show ?thesis by (simp add: nx_handle_def)
next
  case (TxComplete b)
  have "keeps driver_ok (on_transmit_complete hal b)"
    unfolding on_transmit_complete_def by (intro keeps keeps_header; simp add: ok_simps)
  with TxComplete show ?thesis by (simp add: nx_handle_def)
next
  case (EmacEvent e)
  have "keeps driver_ok (on_event e :: ('a nx, unit) state)"
    unfolding on_event_def by (intro keeps keeps_interface; simp add: ok_simps)
  with EmacEvent show ?thesis by (simp add: nx_handle_def)
qed

section \<open>The Ethernet frame\<close>

definition frame_header :: "u32 \<Rightarrow> u32 \<Rightarrow> nx_interface \<Rightarrow> u32 \<Rightarrow> byte list" where
  "frame_header dst_msw dst_lsw f type =
     multicast_address dst_msw dst_lsw @ multicast_address (if_msw f) (if_lsw f) @
     [ucast (drop_bit 8 type), ucast type]"

lemma length_bytes_of_word [simp]: "length (bytes_of_word w) = 4"
  by (simp add: bytes_of_word_def)

lemma length_frame_header [simp]: "length (frame_header a b f t) = 14"
  by (simp add: frame_header_def multicast_address_def)

lemma ether_type_bound: "drop_bit 16 (ether_type c v) = 0"
  by (simp add: ether_type_def)

lemma source_words:
  "bytes_of_word (push_bit 16 m OR drop_bit 16 l) =
    [ucast (drop_bit 8 m), ucast m, ucast (drop_bit 24 l), ucast (drop_bit 16 l)]"
  "drop_bit 16 t = 0 \<Longrightarrow> bytes_of_word (push_bit 16 l OR t) =
    [ucast (drop_bit 8 l), ucast l, ucast (drop_bit 8 t), ucast t]" for m l t :: u32
proof -
  show "bytes_of_word (push_bit 16 m OR drop_bit 16 l) =
    [ucast (drop_bit 8 m), ucast m, ucast (drop_bit 24 l), ucast (drop_bit 16 l)]"
    unfolding bytes_of_word_def
    by (intro arg_cong2 [where f = Cons] refl bit_word_eqI) (auto simp: bit_simps dest: bit_imp_le_length)
  assume t: "drop_bit 16 t = 0"
  have "\<not> bit t (16 + n)" for n
    using arg_cong [OF t, of "\<lambda>w. bit w n"] by (simp add: bit_simps)
  then have *: "\<not> bit t n" if "16 \<le> n" for n
    using that by (metis le_add_diff_inverse)
  show "bytes_of_word (push_bit 16 l OR t) = [ucast (drop_bit 8 l), ucast l, ucast (drop_bit 8 t), ucast t]"
    unfolding bytes_of_word_def
    by (intro arg_cong2 [where f = Cons] refl bit_word_eqI) (auto simp: bit_simps * dest: bit_imp_le_length)
qed

lemma header_bytes:
  "bytes_of_word msw @ bytes_of_word lsw @
     bytes_of_word (push_bit 16 (if_msw f) OR drop_bit 16 (if_lsw f)) @
     bytes_of_word (push_bit 16 (if_lsw f) OR ether_type c v) =
   [ucast (drop_bit 24 msw), ucast (drop_bit 16 msw)] @ frame_header msw lsw f (ether_type c v)"
  by (simp add: source_words ether_type_bound) (simp add: bytes_of_word_def frame_header_def multicast_address_def)

text \<open>The packet while it is with the hardware: the header in front of its bytes.\<close>

definition framed :: "nx_packet \<Rightarrow> nx_request \<Rightarrow> nx_interface \<Rightarrow> nx_packet" where
  "framed k rq f =
     k\<lparr>pk_prepend := pk_prepend k - 14, pk_length := pk_length k + 14,
       pk_data := take (nat (pk_prepend k) - 16) (pk_data k) @
         [ucast (drop_bit 24 (req_msw rq)), ucast (drop_bit 16 (req_msw rq))] @
         frame_header (req_msw rq) (req_lsw rq) f (ether_type (req_command rq) (pk_version k)) @
         drop (nat (pk_prepend k)) (pk_data k)\<rparr>"

lemma wp_add_ethernet_header:
  assumes "packets s p = Some k" and "req_interface (request s) < length (interfaces s)"
    and "2 \<le> pk_prepend k" and "pk_prepend k + 14 \<le> int (length (pk_data k))"
    and "f = interfaces s ! req_interface (request s)"
  shows "wp (add_ethernet_header p (pk_prepend k - 2)) Q s \<longleftrightarrow>
    Q () (s\<lparr>packets := (packets s)(p \<mapsto> k\<lparr>pk_data := take (nat (pk_prepend k) - 2) (pk_data k) @
      [ucast (drop_bit 24 (req_msw (request s))), ucast (drop_bit 16 (req_msw (request s)))] @
      frame_header (req_msw (request s)) (req_lsw (request s)) f (ether_type (req_command (request s)) (pk_version k)) @
      drop (nat (pk_prepend k) + 14) (pk_data k)\<rparr>)\<rparr>)"
proof -
  have "nat (pk_prepend k - 2) = nat (pk_prepend k) - 2" by simp
  moreover have "2 \<le> nat (pk_prepend k)" "nat (pk_prepend k) + 14 \<le> length (pk_data k)" using assms(3,4) by linarith+
  ultimately show ?thesis
    using assms unfolding add_ethernet_header_def Let_def
    by (simp add: wp get_interface_def header_bytes mem_write_def add.commute)
qed

text \<open>What has to hold of the packet of a request that is sent.\<close>

definition sendable :: "'m nx \<Rightarrow> nx_packet \<Rightarrow> bool" where
  "sendable s k \<longleftrightarrow> packets s (req_packet (request s)) = Some k \<and>
     req_interface (request s) < length (interfaces s) \<and>
     16 \<le> pk_prepend k \<and> nat (pk_prepend k) + unat (pk_length k) \<le> length (pk_data k) \<and>
     unat (pk_length k) + 14 + unat (memory_alignment s) < 4294967296"

lemma sendable_length: "sendable s k \<Longrightarrow> unat (pk_length k + 14) = unat (pk_length k) + 14"
  by (simp add: sendable_def unat_word_ariths)

lemma framed_bytes:
  assumes "sendable s k"
  shows "packet_bytes (framed k rq f) = Some (frame_header (req_msw rq) (req_lsw rq) f (ether_type (req_command rq) (pk_version k)) @
    drop (nat (pk_prepend k)) (pk_data k))"
proof -
  have "nat (pk_prepend k - 14) = (nat (pk_prepend k) - 16) + 2" "nat (pk_prepend k) - 16 \<le> length (pk_data k)"
    using assms by (auto simp: sendable_def)
  then show ?thesis using assms by (simp add: packet_bytes_def framed_def sendable_def)
qed


lemma wp_frame_header:
  assumes "sendable s k" and "p = req_packet (request s)" and "f = interfaces s ! req_interface (request s)"
  shows "wp (add_ethernet_header p (pk_prepend k - 16)) R
      (s\<lparr>packets := (packets s)(p \<mapsto> k\<lparr>pk_prepend := pk_prepend k - 14, pk_length := pk_length k + 14\<rparr>)\<rparr>) \<longleftrightarrow>
    R () (s\<lparr>packets := (packets s)(p \<mapsto> framed k (request s) f)\<rparr>)"
proof -
  let ?k = "k\<lparr>pk_prepend := pk_prepend k - 14, pk_length := pk_length k + 14\<rparr>"
  let ?s = "s\<lparr>packets := (packets s)(p \<mapsto> ?k)\<rparr>"
  have "nat (pk_prepend k - 14) = nat (pk_prepend k) - 14" "16 \<le> nat (pk_prepend k)"
    "pk_prepend k \<le> int (length (pk_data k))"
    using assms(1) by (auto simp: sendable_def)
  then show ?thesis
    using wp_add_ethernet_header [of ?s p ?k f R] assms
    by (simp add: sendable_def framed_def)
qed

text \<open>The part of a send that is the same for every manager: up to the allocation.\<close>

lemma wp_packet_send:
  assumes "dev_state s = 4" and "memory_manager s" and "\<not> busy_transmitting s" and "sendable s k"
    and "pk_length k + 14 \<le> mtu s" and "f = interfaces s ! req_interface (request s)"
    and "s1 = s\<lparr>packets := (packets s)(req_packet (request s) \<mapsto> framed k (request s) f), outgoing_packet := req_packet (request s)\<rparr>"
    and "p = req_packet (request s)"
  shows "wp (nx_link_packet_send hal) Q s \<longleftrightarrow>
    wp (do {
      buffer \<leftarrow> with_manager (vt_alloc_from_heap (hal_vt hal) (pk_length k + 14) (memory_alignment s));
      if buffer = 0 then do { remove_nx_packet_ethernet_header p; set_status 90 }
      else do {
        r \<leftarrow> with_manager (vt_copy_to_buf (hal_vt hal) (packet_bytes (framed k (request s) f)) (pk_length k + 14) buffer);
        modify (busy_transmitting_update (\<lambda>_. True));
        transmit_outcome \<leftarrow> call (hal_env hal) (EmacTransmit buffer);
        if transmit_outcome \<noteq> 0 then do {
          modify (busy_transmitting_update (\<lambda>_. False));
          remove_nx_packet_ethernet_header p; set_status 90 }
        else return ()
      }
    }) Q s1"
proof -
  have k: "packets s p = Some k" and len: "\<not> mtu s < pk_length k + 14"
    using assms(4,5,8) by (auto simp: sendable_def not_less)
  note hdr = wp_frame_header [OF assms(4,8,6)]
  obtain d where nonnull: "packet_bytes (framed k (request s) f) = Some d" by (simp add: framed_bytes [OF assms(4)])
  have framed_len: "pk_length (framed k (request s) f) = pk_length k + 14" by (simp add: framed_def)
  show ?thesis
    unfolding nx_link_packet_send_def Let_def
    using assms(1,2,3) k len hdr nonnull
    by (simp add: wp wp_with_manager assms(7,8) hardware_send_packet_def framed_len)
      (rule wp_cong, rename_tac a x, case_tac "a = 0", simp,
       case_tac "ret (hal_env hal (history s) (EmacTransmit a)) = 0", simp, simp)
qed
text \<open>The frame that stands for a packet, and a packet that is as NetX handed it down.\<close>

definition frame_of :: "nx_packet \<Rightarrow> nx_request \<Rightarrow> nx_interface \<Rightarrow> byte list" where
  "frame_of k rq f = frame_header (req_msw rq) (req_lsw rq) f (ether_type (req_command rq) (pk_version k)) @
     take (unat (pk_length k)) (drop (nat (pk_prepend k)) (pk_data k))"

definition restored :: "'m nx \<Rightarrow> nat \<Rightarrow> nx_packet \<Rightarrow> bool" where
  "restored t p k \<longleftrightarrow> (\<exists>k'. packets t p = Some k' \<and> pk_prepend k' = pk_prepend k \<and> pk_length k' = pk_length k)"

text \<open>
  The two outcomes of a send that passes the checks: no buffer, or one transmission of a new buffer
  that holds the frame.
\<close>

definition not_sent :: "('m \<Rightarrow> nat \<Rightarrow> byte list option) \<Rightarrow> 'm nx \<Rightarrow> nx_packet \<Rightarrow> 'm nx \<Rightarrow> bool" where
  "not_sent content s k t \<longleftrightarrow> history t = history s \<and> req_status (request t) = 90 \<and>
     \<not> busy_transmitting t \<and> restored t (req_packet (request s)) k \<and> content (manager t) = content (manager s)"

definition sent :: "('m \<Rightarrow> nat \<Rightarrow> byte list option) \<Rightarrow> 'm nx \<Rightarrow> nx_packet \<Rightarrow> byte list \<Rightarrow> 'm nx \<Rightarrow> bool" where
  "sent content s k frame t \<longleftrightarrow> (\<exists>b r. history t = (EmacTransmit b, r) # history s \<and>
     content (manager s) b = None \<and> content (manager t) = (content (manager s))(b \<mapsto> frame) \<and>
     (if ret r = 0 then busy_transmitting t \<and> outgoing_packet t = req_packet (request s) \<and> request t = request s
      else \<not> busy_transmitting t \<and> req_status (request t) = 90 \<and> restored t (req_packet (request s)) k))"

lemma wp_unframe:
  assumes "packets t p = Some (framed k rq f)"
  shows "wp (remove_nx_packet_ethernet_header p) Q t \<longleftrightarrow>
    Q () (t\<lparr>packets := (packets t)(p \<mapsto> (framed k rq f)\<lparr>pk_prepend := pk_prepend k, pk_length := pk_length k\<rparr>)\<rparr>)"
proof -
  have "(framed k rq f)\<lparr>pk_prepend := pk_prepend (framed k rq f) + 14, pk_length := pk_length (framed k rq f) - 14\<rparr> =
    (framed k rq f)\<lparr>pk_prepend := pk_prepend k, pk_length := pk_length k\<rparr>"
    by (simp add: framed_def)
  then show ?thesis using assms by (simp add: remove_nx_packet_ethernet_header_def wp)
qed

context network_buffers
begin

lemma send_frame:
  assumes "dev_state s = 4" and "memory_manager s" and "\<not> busy_transmitting s" and sk: "sendable s k"
    and "pk_length k + 14 \<le> mtu s" and "f = interfaces s ! req_interface (request s)"
    and "hal_vt hal = vt" and "ok (manager s)"
  shows "wp (nx_link_packet_send hal) (\<lambda>_ t. ok (manager t) \<and> fault t = fault s \<and>
    (not_sent content s k t \<or> sent content s k (frame_of k (request s) f) t)) s"
proof -
  let ?p = "req_packet (request s)"
  let ?n = "pk_length k + 14"
  let ?fr = "framed k (request s) f"
  let ?s1 = "s\<lparr>packets := (packets s)(?p \<mapsto> ?fr), outgoing_packet := ?p\<rparr>"
  let ?d = "frame_header (req_msw (request s)) (req_lsw (request s)) f (ether_type (req_command (request s)) (pk_version k)) @
    drop (nat (pk_prepend k)) (pk_data k)"
  have n: "unat ?n = unat (pk_length k) + 14" by (rule sendable_length [OF sk])
  have take_d: "take (unat ?n) ?d = frame_of k (request s) f" by (simp add: n frame_of_def)
  have len_d: "unat ?n \<le> length ?d" using sk by (auto simp: n sendable_def)
  have bytes: "packet_bytes ?fr = Some ?d" by (rule framed_bytes [OF sk])
  have fits: "unat ?n + unat (memory_alignment s) < 4294967296" using sk n by (simp add: sendable_def)
  have undo: "restored (t\<lparr>packets := (packets t)(?p \<mapsto> ?fr\<lparr>pk_prepend := pk_prepend k, pk_length := pk_length k\<rparr>)\<rparr>) ?p k" for t :: "'s nx"
    by (simp add: restored_def)
  show ?thesis
    unfolding wp_packet_send [OF assms(1-6) refl refl] wp_bind
  proof (simp only: wp_with_manager assms(7), rule wp_mono [OF alloc [of "manager ?s1", OF _ fits]], goal_cases)
    case 1
    then show ?case using assms(8) by simp
  next
    case (2 b m)
    let ?t = "?s1\<lparr>manager := m\<rparr>"
    show ?case
    proof (cases "b = 0")
      case True
      have "restored (?t\<lparr>packets := (packets ?t)(?p \<mapsto> ?fr\<lparr>pk_prepend := pk_prepend k, pk_length := pk_length k\<rparr>)\<rparr>) ?p k"
        by (rule undo)
      then show ?thesis
        using True 2 assms(2,3) by (simp add: wp wp_unframe not_sent_def restored_def)
    next
      case False
      with 2 obtain old where m: "ok m" "content m b = Some old" "unat ?n \<le> room m b"
        "content m = (content (manager s))(b \<mapsto> old)" "content (manager s) b = None" by auto
      have "wp (vt_copy_to_buf vt (Some ?d) ?n b) (\<lambda>r u. ok u \<and> r = ?n \<and>
          content u = (content m)(b \<mapsto> take (unat ?n) ?d) \<and> room u = room m) m"
        by (rule copy_to [OF m(1,2) len_d m(3)])
      then have "wp (vt_copy_to_buf vt (Some ?d) ?n b) (\<lambda>r u. ok u \<and>
          content u = (content (manager s))(b \<mapsto> frame_of k (request s) f)) m"
        by (rule wp_mono) (elim conjE, simp only: m(4) take_d fun_upd_upd simp_thms)
      then show ?thesis
        using False assms(2)
        by (simp add: wp wp_with_manager assms(7) bytes)
          (erule wp_mono, auto simp: wp wp_unframe sent_def restored_def m(5)
             intro!: disjI2 exI [of _ b] exI [of _ "hal_env hal (history s) (EmacTransmit b)"])
    qed
  qed
qed

end

section \<open>Receiving\<close>

text \<open>
  Packets NetX gave the driver to fill, less those it handed on or gave back.
\<close>

fun packet_balance :: "(nx_call \<times> reply) list \<Rightarrow> int" where
  "packet_balance [] = 0"
| "packet_balance ((NxPacketAllocate p, r) # h) = (if ret r = 0 then 1 else 0) + packet_balance h"
| "packet_balance ((NxPacketRelease p, r) # h) = packet_balance h - 1"
| "packet_balance ((NxIpDeferredReceive p, r) # h) = packet_balance h - 1"
| "packet_balance ((NxArpDeferredReceive p, r) # h) = packet_balance h - 1"
| "packet_balance ((NxRarpDeferredReceive p, r) # h) = packet_balance h - 1"
| "packet_balance (c # h) = packet_balance h"

lemma transfer_balance:
  "wp (transfer_to_netx hal p) (\<lambda>ok t. manager t = manager s \<and> memory_manager t = memory_manager s \<and>
    packet_balance (history t) = packet_balance (history s) - (if ok then 1 else 0)) s"
  by (simp add: transfer_to_netx_def remove_nx_packet_ethernet_header_def wp Let_def split: option.split)

text \<open>
  What the driver relies on in the Ethernet controller: on reception it changes the content of the
  buffer it is given and nothing else of the manager.
\<close>

definition rx_fills :: "('m \<Rightarrow> bool) \<Rightarrow> ('m \<Rightarrow> nat \<Rightarrow> byte list option) \<Rightarrow> 'm hal \<Rightarrow> bool" where
  "rx_fills ok content hal \<longleftrightarrow> (\<forall>r b m. ok m \<and> content m b \<noteq> None \<longrightarrow>
     ok (hal_rx hal r b m) \<and> (\<exists>xs. content (hal_rx hal r b m) = (content m)(b \<mapsto> xs)))"

context network_buffers
begin

lemma free_content:
  assumes "ok (manager t)" and "content (manager t) = c(b \<mapsto> xs)" and "c b = None" and "memory_manager t"
    and "\<And>m. ok m \<Longrightarrow> content m = c \<Longrightarrow> Q () (t\<lparr>manager := m\<rparr>)"
  shows "wp (with_manager (vt_free vt b)) Q t"
proof -
  have "wp (vt_free vt b) (\<lambda>_ u. ok u \<and> content u = (content (manager t))(b := None) \<and>
      (\<forall>c. c \<noteq> b \<longrightarrow> room u c = room (manager t) c)) (manager t)"
    by (rule release) (use assms in auto)
  then show ?thesis
    unfolding wp_with_manager using assms
    by (elim wp_mono) (auto simp: fun_upd_idem)
qed

lemma receive_balance:
  assumes "memory_manager s" and "hal_vt hal = vt" and "rx_fills ok content hal" and "ok (manager s)"
    and "unat (mtu s) + unat (memory_alignment s) < 4294967296"
  shows "wp (hardware_receive_packet hal) (\<lambda>_ t. ok (manager t) \<and> content (manager t) = content (manager s) \<and>
    packet_balance (history t) = packet_balance (history s)) s"
  unfolding hardware_receive_packet_def wp_bind wp_gets
proof (simp only: wp_with_manager assms(1,2) if_True, rule wp_mono [OF alloc [OF assms(4,5)]], goal_cases)
  case (1 b m)
  let ?Q = "\<lambda>t. ok (manager t) \<and> content (manager t) = content (manager s) \<and>
    packet_balance (history t) = packet_balance (history s)"
  show ?case
  proof (cases "b = 0")
    case True
    then show ?thesis using 1 by (simp add: wp)
  next
    case False
    with 1 obtain old where m: "ok m" "content m = (content (manager s))(b \<mapsto> old)" and new: "content (manager s) b = None"
      by auto
    define m' where "m' = hal_rx hal (hal_env hal (history s) (EmacReceive b)) b m"
    from m assms(3) obtain xs where m': "ok m'" "content m' = (content (manager s))(b \<mapsto> xs)"
      unfolding m'_def rx_fills_def by (metis fun_upd_same fun_upd_upd option.distinct(1))
    have freed: "wp (with_manager (vt_free vt b)) R t"
      if "manager t = m'" "memory_manager t" "\<And>m. ok m \<Longrightarrow> content m = content (manager s) \<Longrightarrow> R () (t\<lparr>manager := m\<rparr>)"
      for t :: "'s nx" and R
      by (rule free_content [of _ "content (manager s)" b xs]) (use m' new that in auto)
    have from_b: "wp (with_manager (vt_copy_from_buf vt b True n)) R t \<longleftrightarrow> R (take (unat n) xs) t"
      if "manager t = m'" "memory_manager t" for t :: "'s nx" and R n
    proof -
      have "run_state (vt_copy_from_buf vt b True n) (manager t) = (take (unat n) xs, manager t)"
        using copy_from [OF m'(1), of b xs n] m'(2) that(1) by (simp add: wp_exact [symmetric] conj_commute)
      then show ?thesis using that(2) by (simp add: wp_manager_run)
    qed
    have len_b: "wp (with_manager (vt_get_payload_len vt b)) R t \<longleftrightarrow> R (fst (run_state (vt_get_payload_len vt b) (manager t))) t"
      if "manager t = m'" "memory_manager t" for t :: "'s nx" and R
    proof -
      have "snd (run_state (vt_get_payload_len vt b) (manager t)) = manager t"
        using payload_len [OF m'(1), of b xs] m'(2) that(1) by (simp add: wp_run)
      then show ?thesis using that(2) by (simp add: wp_manager_run)
    qed
    have handed: "wp (transfer_to_netx hal p) R t"
      if "\<And>a u. manager u = manager t \<Longrightarrow>
        packet_balance (history u) = packet_balance (history t) - (if a then 1 else 0) \<Longrightarrow> R a u" for p R t
      by (rule wp_mono [OF transfer_balance]) (use that in auto)
    show ?thesis
      using False assms(1) from_b len_b
      by (simp add: wp m'_def [symmetric] Let_def split: option.split)
        (auto simp: wp m'_def [symmetric] intro!: freed handed)
  qed
qed

end

section \<open>Properties\<close>

lemma gsc_send_frame:
  fixes s :: "mm nx"
  assumes "dev_state s = 4" and "memory_manager s" and "\<not> busy_transmitting s" and "sendable s k"
    and "pk_length k + 14 \<le> mtu s" and "hal_vt hal = gsc_vtable menv" and "mm_ok (manager s)"
  shows "wp (nx_link_packet_send hal) (\<lambda>_ t. mm_ok (manager t) \<and> fault t = fault s \<and>
    (not_sent mm_content s k t \<or>
     sent mm_content s k (frame_of k (request s) (interfaces s ! req_interface (request s))) t)) s"
  by (rule iotsdk.send_frame [OF assms(1-5) refl assms(6,7)])

text \<open>
  C1. A packet that NetX sends while the link is enabled and no transmission is pending, and that fits
  the MTU, is handed to the Ethernet controller at most once, in a new buffer that holds exactly the frame:
  destination address, the interface's address, the type of the packet, and the bytes of the packet.  If
  there is no buffer, or the controller refuses it, NetX sees an error and the packet as it was before; no
  access leaves an object.
\<close>

theorem nx_send_frame:
  fixes s :: "mm nx"
  assumes "dev_state s = 4" and "memory_manager s" and "\<not> busy_transmitting s" and "sendable s k"
    and "pk_length k + 14 \<le> mtu s" and "hal_vt hal = gsc_vtable menv" and "mm_ok (manager s)" and "\<not> fault s"
  shows "wp (nx_link_packet_send hal) (\<lambda>_ t. mm_ok (manager t) \<and> \<not> fault t \<and>
    (not_sent mm_content s k t \<or>
     sent mm_content s k (frame_of k (request s) (interfaces s ! req_interface (request s))) t)) s"
  using gsc_send_frame [OF assms(1-7)] by (rule wp_mono) (use assms(8) in auto)

text \<open>A driver with the link enabled and one packet of four bytes, for the witnesses.\<close>

definition demo_packet :: nx_packet where
  "demo_packet = \<lparr>pk_data = replicate 20 0 @ [1, 2, 3, 4], pk_prepend = 20, pk_append = 24, pk_length = 4,
     pk_version = 4, pk_interface = 0\<rparr>"

definition demo_request :: "u32 \<Rightarrow> nx_request" where
  "demo_request c = \<lparr>req_command = c, req_status = 0, req_msw = 0x0102, req_lsw = 0x03040506, req_packet = 7,
     req_return = 0, req_interface = 0\<rparr>"

definition demo_nx :: "byte \<Rightarrow> bool \<Rightarrow> mm nx" where
  "demo_nx st busy = \<lparr>history = [], fault = False, dev_state = st, busy_transmitting = busy, memory_manager = True,
     mtu = 1514, memory_alignment = 4, mac_address = replicate 6 9, outgoing_packet = 3, incoming_pool = 0,
     attached = Some 0, deferred_event = 0,
     interfaces = [\<lparr>link_up = 1, if_index = 0, if_msw = 0x0909, if_lsw = 0x09090909\<rparr>], default_pool = 0,
     packets = [7 \<mapsto> demo_packet], request = demo_request 0, manager = no_buffers\<rparr>"

definition demo_hal :: "mm hal" where
  "demo_hal = \<lparr>hal_env = (\<lambda>h c. \<lparr>ret = 0, outs = [], payload = []\<rparr>),
     hal_vt = gsc_vtable (\<lambda>h c. \<lparr>ret = 100 + 100 * int (length h), outs = [], payload = []\<rparr>),
     hal_rx = (\<lambda>r b m. m)\<rparr>"

lemma no_buffers_ok: "mm_ok no_buffers"
  by (simp add: no_buffers_def mm_ok_def bufs_ok_def)

theorem nx_send_frame_witness:
  "wp (nx_link_packet_send demo_hal) (\<lambda>_ t. mm_ok (manager t) \<and> \<not> fault t \<and>
    (not_sent mm_content (demo_nx 4 False) demo_packet t \<or>
     sent mm_content (demo_nx 4 False) demo_packet (frame_of demo_packet (request (demo_nx 4 False))
       (interfaces (demo_nx 4 False) ! req_interface (request (demo_nx 4 False)))) t)) (demo_nx 4 False)"
  by (rule nx_send_frame)
    (simp_all add: demo_nx_def demo_hal_def demo_packet_def demo_request_def sendable_def no_buffers_ok)



text \<open>
  C3. In every state the driver reaches from its zero-initialised one, by requests of NetX and callbacks of
  the controller in any order: every frame was handed to the controller while it was powered, the enabled
  state implies that it is powered now, and from the initialised state on the memory manager is set and the
  hardware address has its six bytes.
\<close>

theorem nx_transmit_powered:
  assumes "nx_reachable hal s0 s" and "history s0 = []" and "dev_state s0 = 0"
  shows "transmits_powered (history s) \<and> (dev_state s = 4 \<longrightarrow> powered (history s)) \<and>
    (dev_state s = 3 \<or> dev_state s = 4 \<longrightarrow> memory_manager s \<and> length (mac_address s) = 6) \<and>
    dev_state s \<in> {0, 1, 3, 4}"
proof -
  have "driver_ok s"
    using assms
  proof (induction rule: nx_reachable.induct)
    case start
    then show ?case by (simp add: driver_ok_def)
  next
    case (step s ev t)
    then have "wp (nx_handle hal ev) (\<lambda>_. driver_ok) s" by (intro keepsD [OF ok_handle]) auto
    with step(2) show ?case by (simp add: wp_run_eq)
  qed
  then show ?thesis by (auto simp: driver_ok_def)
qed

definition demo_step :: "u32 \<Rightarrow> mm nx \<Rightarrow> mm nx" where
  "demo_step c s = snd (run_state (nx_handle demo_hal (Command (demo_request c))) s)"

lemma demo_step_reachable: "nx_reachable demo_hal s0 s \<Longrightarrow> nx_reachable demo_hal s0 (demo_step c s)"
  by (rule nx_reachable.step [of demo_hal s0 s "Command (demo_request c)"]) (simp_all add: demo_step_def prod_eq_iff)

lemma demo_started: "dev_state (demo_step NX_LINK_ENABLE (demo_step NX_LINK_INITIALIZE (demo_nx 0 False))) = 4"
proof -
  have "wp (nx_handle demo_hal (Command (demo_request NX_LINK_INITIALIZE)))
      (\<lambda>_. wp (nx_handle demo_hal (Command (demo_request NX_LINK_ENABLE))) (\<lambda>_ t. dev_state t = 4)) (demo_nx 0 False)"
    by (simp add: nx_handle_def nx_driver_mdh_ip_link_fsm_def nx_link_initialize_def nx_link_enable_def
      hardware_initialize_def hardware_enable_def set_status_def get_interface_def set_link_up_def
      demo_nx_def demo_request_def demo_hal_def wp Let_def)
  then show ?thesis unfolding wp_run demo_step_def .
qed

lemma demo_initial: "history (demo_nx 0 False) = []" "dev_state (demo_nx 0 False) = 0"
  by (simp_all add: demo_nx_def)

theorem nx_transmit_powered_witness:
  "let s = demo_step NX_LINK_ENABLE (demo_step NX_LINK_INITIALIZE (demo_nx 0 False))
    in transmits_powered (history s) \<and> powered (history s) \<and> length (mac_address s) = 6"
  using nx_transmit_powered [OF demo_step_reachable [OF demo_step_reachable [OF nx_reachable.start]],
      of "demo_nx 0 False" NX_LINK_ENABLE NX_LINK_INITIALIZE]
  by (simp add: demo_started demo_initial Let_def)

lemma other_commands_state:
  "keeps (\<lambda>t. dev_state t = x) (nx_link_packet_send hal)"
  "keeps (\<lambda>t. dev_state t = x) nx_link_interface_attach"
  "keeps (\<lambda>t. dev_state t = x) nx_link_get_status"
  "keeps (\<lambda>t. dev_state t = x) (nx_link_multicast_join hal)"
  "keeps (\<lambda>t. dev_state t = x) (nx_link_multicast_leave hal)"
  "keeps (\<lambda>t. dev_state t = x) (nx_link_deferred_processing hal)"
  unfolding nx_link_packet_send_def nx_link_interface_attach_def nx_link_get_status_def nx_link_multicast_join_def
    nx_link_multicast_leave_def nx_link_deferred_processing_def hardware_multicast_join_def hardware_multicast_leave_def
    hardware_send_packet_def hardware_receive_packet_def transfer_to_netx_def add_ethernet_header_def
    remove_nx_packet_ethernet_header_def get_interface_def
  by (intro keeps; simp)+

text \<open>
  The link state machine: enabling and disabling end in the state and with the status the state and the
  controller's answer determine, initialisation ends initialised with success or uninitialised with an
  error, and no other command changes the state.
\<close>

lemma nx_link_states:
  "wp (nx_handle hal (Command rq)) (\<lambda>_ t.
    (req_command rq = 2 \<longrightarrow> (dev_state t, req_status (request t)) =
       (if dev_state s < 3 then (dev_state s, 90) else if dev_state s = 4 then (4, 0x15)
        else if ret (hal_env hal (history s) EmacPowerUp) = 0 then (4, 0) else (dev_state s, 90))) \<and>
    (req_command rq = 3 \<longrightarrow> (dev_state t, req_status (request t)) =
       (if dev_state s \<noteq> 4 then (dev_state s, 90)
        else if ret (hal_env hal (history s) EmacPowerDown) = 0 then (3, 0) else (4, 90))) \<and>
    (req_command rq = 1 \<longrightarrow> (dev_state t, req_status (request t)) \<in> {(3, 0), (1, 90)}) \<and>
    (req_command rq \<notin> {1, 2, 3} \<longrightarrow> dev_state t = dev_state s)) s"
proof -
  define s' where "s' = s\<lparr>request := rq\<lparr>req_status := 0\<rparr>\<rparr>"
  have s': "dev_state s' = dev_state s" "history s' = history s" "request s' = rq\<lparr>req_status := 0\<rparr>"
    by (simp_all add: s'_def)
  have start: "wp (nx_handle hal (Command rq)) Q s \<longleftrightarrow> wp (nx_driver_mdh_ip_link_fsm hal) Q s'" for Q
    by (simp add: nx_handle_def nx_driver_mdh_ip_link_fsm_def wp s'_def)
  consider "req_command rq = 1" | "req_command rq = 2" | "req_command rq = 3" | "req_command rq \<notin> {1, 2, 3}" by auto
  then show ?thesis
  proof cases
    case 1
    then show ?thesis
      unfolding start
      by (simp add: s' nx_driver_mdh_ip_link_fsm_def nx_link_initialize_def hardware_initialize_def hardware_enable_def
        get_interface_def wp Let_def)
  next
    case 2
    then show ?thesis
      unfolding start
      by (simp add: s' nx_driver_mdh_ip_link_fsm_def nx_link_enable_def hardware_enable_def set_link_up_def
        get_interface_def wp Let_def)
  next
    case 3
    then show ?thesis
      unfolding start
      by (simp add: s' nx_driver_mdh_ip_link_fsm_def nx_link_disable_def hardware_disable_def set_link_up_def
        get_interface_def wp Let_def)
  next
    case 4
    let ?t = "s'\<lparr>request := (request s')\<lparr>req_status := 0\<rparr>\<rparr>"
    have run: "wp m (\<lambda>_ t. dev_state t = dev_state s) ?t" if "\<And>x. keeps (\<lambda>t. dev_state t = x) m" for m :: "('a, unit) nx_m"
      by (rule keepsD [OF that]) (simp add: s')
    have "wp (nx_driver_mdh_ip_link_fsm hal) (\<lambda>_ t. dev_state t = dev_state s) s'"
      using 4 other_commands_state [THEN run]
      by (simp add: nx_driver_mdh_ip_link_fsm_def wp s' Let_def)
    then show ?thesis unfolding start by (rule wp_mono) (use 4 in simp)
  qed
qed

theorem nx_link_states_witness:
  "wp (nx_handle demo_hal (Command (demo_request 2))) (\<lambda>_ t. (dev_state t, req_status (request t)) = (4, 0)) (demo_nx 3 False)"
  by (rule wp_mono [OF nx_link_states]) (simp add: demo_nx_def demo_hal_def demo_request_def)

text \<open>
  While the link is not enabled, the driver refuses to send and to change multicast groups: NetX sees
  \<open>NX_NOT_ENABLED\<close>, and nothing else changes, in the driver, in the packet, in memory or at the controller.
\<close>

lemma nx_not_enabled:
  assumes "dev_state s \<noteq> 4" and "req_command rq \<in> {0, 4, 5, 6, 7, 8, 9}"
  shows "wp (nx_handle hal (Command rq)) (\<lambda>_ t. t = s\<lparr>request := rq\<lparr>req_status := 0x14\<rparr>\<rparr>) s"
  using assms
  by (auto simp: nx_handle_def nx_driver_mdh_ip_link_fsm_def nx_link_packet_send_def nx_link_multicast_join_def
    nx_link_multicast_leave_def wp Let_def)

theorem nx_not_enabled_witness:
  "wp (nx_handle demo_hal (Command (demo_request 0)))
    (\<lambda>_ t. t = (demo_nx 3 False)\<lparr>request := (demo_request 0)\<lparr>req_status := 0x14\<rparr>\<rparr>) (demo_nx 3 False)"
  by (rule nx_not_enabled) (simp_all add: demo_nx_def demo_request_def)

text \<open>
  The two words that carry a hardware address between the driver and NetX lose nothing: the six bytes
  the multicast functions and the frame header take out of them are the bytes the initialisation put in.
\<close>

lemma nx_mac_roundtrip:
  assumes "length m = 6"
  shows "multicast_address (mac_msw m) (mac_lsw m) = m"
proof -
  from assms obtain a b c d e f where "m = [a, b, c, d, e, f]"
    by (auto simp: length_Suc_conv numeral_eq_Suc)
  moreover have "multicast_address (mac_msw [a, b, c, d, e, f]) (mac_lsw [a, b, c, d, e, f]) = [a, b, c, d, e, f]"
    unfolding multicast_address_def mac_msw_def mac_lsw_def
    by (intro arg_cong2 [where f = Cons] refl bit_word_eqI) (auto simp: bit_simps dest: bit_imp_le_length)
  ultimately show ?thesis by simp
qed

theorem nx_mac_roundtrip_witness:
  "multicast_address (mac_msw [1, 2, 3, 4, 5, 6]) (mac_lsw [1, 2, 3, 4, 5, 6]) = [1, 2, 3, 4, 5, 6]"
  by (rule nx_mac_roundtrip) simp

text \<open>
  A send that is refused because a transmission is pending has already replaced the packet the driver
  remembers: when the pending transmission completes, the driver gives NetX the refused packet as sent,
  which its owner still holds, and the packet that was sent is never released.
\<close>

lemma nx_busy_overwrites:
  assumes "dev_state s = 4" and "memory_manager s" and "busy_transmitting s" and "sendable s k"
    and "pk_length k + 14 \<le> mtu s" and "outgoing_packet s \<noteq> req_packet (request s)"
  shows "wp (do { nx_link_packet_send hal; on_transmit_complete hal b }) (\<lambda>_ t.
    req_status (request t) = 90 \<and> (\<exists>r. history t = (NxPacketTransmitRelease (req_packet (request s)), r) # history s)) s"
proof -
  let ?p = "req_packet (request s)"
  have k: "packets s ?p = Some k" and len: "\<not> mtu s < pk_length k + 14"
    using assms(4,5) by (auto simp: sendable_def not_less)
  note hdr = wp_frame_header [OF assms(4) refl refl]
  show ?thesis
    unfolding nx_link_packet_send_def on_transmit_complete_def Let_def
    using assms(1-3) k len hdr
    by (simp add: wp hardware_send_packet_def wp_unframe wp_manager_run remove_nx_packet_ethernet_header_def)
qed

theorem nx_busy_overwrites_witness:
  "wp (do { nx_link_packet_send demo_hal; on_transmit_complete demo_hal 100 }) (\<lambda>_ t.
    req_status (request t) = 90 \<and> (\<exists>r. history t = (NxPacketTransmitRelease (req_packet (request (demo_nx 4 True))), r) #
      history (demo_nx 4 True))) (demo_nx 4 True)"
  by (rule nx_busy_overwrites [where k = demo_packet])
    (simp_all add: demo_nx_def demo_packet_def demo_request_def sendable_def)

end
