(* ===== verification/Tcp_Socket.thy ===== *)
theory Tcp_Socket
  imports C_Heap
begin

text \<open>
  The TCP connection of the Azure SDK's platform layer,
  \<open>azure-iot-sdk-c/platform/src/tcpsocketconnection_openiot.c\<close>.

  There is one static \<open>openiot_tcp_socket\<close>; a handle is \<open>NULL\<close> or its address, here a boolean.  The socket
  library is the environment.  The call type also has the calls of \<open>socketio_openiot.c\<close>, whose state
  extends this one.  The macros \<open>MU_FAILURE\<close> (nonzero) and \<open>XIO_RECEIVE_BUFFER_SIZE\<close> belong to the Azure
  SDK and are parameters.
\<close>

section \<open>Calls and state\<close>

datatype send_result = IO_SEND_OK | IO_SEND_ERROR | IO_SEND_CANCELLED
datatype open_result = IO_OPEN_OK | IO_OPEN_ERROR | IO_OPEN_CANCELLED

datatype so_call =
    SocketCreate int int int | SocketSetOpt int int u32 | SocketClose int
  | SocketGetHostByName "byte list" int | SocketConnect int "byte list" u32 int
  | SocketSend int "byte list" | SocketRecv int nat
  | Malloc nat
  | ListCreate | ListDestroy nat | ListAdd nat nat | ListGetHead nat | ListItemValue nat | ListRemove nat nat
  | OptionHandlerCreate
  | OnBytesReceived nat nat "byte list" | OnIoError nat nat | OnSendComplete nat nat send_result
  | OnIoOpenComplete nat nat open_result | OnIoCloseComplete nat nat

record tcp = "so_call world" +
  tcp_id :: int
  tcp_connected :: bool

record azure_config =
  mu_failure :: int
  xio_receive_buffer_size :: nat

type_synonym ('z, 'a) tcp_m = "('z tcp_scheme, 'a) state"

abbreviation (input) IOT_SOCKET_AF_INET :: int where "IOT_SOCKET_AF_INET \<equiv> 1"
abbreviation (input) IOT_SOCKET_SOCK_STREAM :: int where "IOT_SOCKET_SOCK_STREAM \<equiv> 1"
abbreviation (input) IOT_SOCKET_IPPROTO_TCP :: int where "IOT_SOCKET_IPPROTO_TCP \<equiv> 1"
abbreviation (input) IOT_SOCKET_IO_FIONBIO :: int where "IOT_SOCKET_IO_FIONBIO \<equiv> 1"
abbreviation (input) IOT_SOCKET_SO_RCVTIMEO :: int where "IOT_SOCKET_SO_RCVTIMEO \<equiv> 2"
abbreviation (input) IOT_SOCKET_SO_SNDTIMEO :: int where "IOT_SOCKET_SO_SNDTIMEO \<equiv> 3"
abbreviation (input) IOT_SOCKET_ESOCK :: int where "IOT_SOCKET_ESOCK \<equiv> - 2"
abbreviation (input) IOT_SOCKET_EAGAIN :: int where "IOT_SOCKET_EAGAIN \<equiv> - 6"

text \<open>The state before \<open>main\<close>.\<close>

definition tcp_initial :: tcp where
  "tcp_initial = \<lparr>history = [], fault = False, tcp_id = IOT_SOCKET_ESOCK, tcp_connected = False\<rparr>"

section \<open>Operations\<close>

definition tcpsocketconnection_create :: "so_call env \<Rightarrow> ('z, bool) tcp_m" where
  "tcpsocketconnection_create env =
     do {
       socket_id \<leftarrow> call env (SocketCreate IOT_SOCKET_AF_INET IOT_SOCKET_SOCK_STREAM IOT_SOCKET_IPPROTO_TCP);
       if socket_id < 0 then return False
       else do { modify (\<lambda>s. s\<lparr>tcp_id := socket_id\<rparr>); return True }
     }"

definition tcpsocketconnection_set_blocking :: "so_call env \<Rightarrow> bool \<Rightarrow> bool \<Rightarrow> u32 \<Rightarrow> ('z, unit) tcp_m" where
  "tcpsocketconnection_set_blocking env handle blocking timeout =
     do_if handle
       (do {
         i \<leftarrow> gets tcp_id;
         tell env (SocketSetOpt i IOT_SOCKET_IO_FIONBIO (if blocking then 0 else 1));
         do_if (timeout \<noteq> 0)
           (do { tell env (SocketSetOpt i IOT_SOCKET_SO_RCVTIMEO timeout);
                 tell env (SocketSetOpt i IOT_SOCKET_SO_SNDTIMEO timeout) })
       })"

definition tcpsocketconnection_destroy :: "so_call env \<Rightarrow> bool \<Rightarrow> ('z, unit) tcp_m" where
  "tcpsocketconnection_destroy env handle =
     do_if handle
       (do {
         i \<leftarrow> gets tcp_id;
         do_if (i \<noteq> IOT_SOCKET_ESOCK)
           (do { res \<leftarrow> call env (SocketClose i);
                 do_if (res = 0) (modify (\<lambda>s. s\<lparr>tcp_id := IOT_SOCKET_ESOCK\<rparr>)) })
       })"

text \<open>
  \<open>iotSocketGetHostByName\<close> writes the address and its length; \<open>iotSocketConnect\<close> takes a 16-bit port.
\<close>

definition tcpsocketconnection_connect ::
  "azure_config \<Rightarrow> so_call env \<Rightarrow> bool \<Rightarrow> byte list \<Rightarrow> int \<Rightarrow> ('z, int) tcp_m" where
  "tcpsocketconnection_connect cfg env handle host port =
     (if \<not> handle then return (mu_failure cfg)
      else do {
        connected \<leftarrow> gets tcp_connected;
        if connected then return 0
        else do {
          r \<leftarrow> extern env (SocketGetHostByName host IOT_SOCKET_AF_INET);
          if ret r < 0 then return (mu_failure cfg)
          else do {
            i \<leftarrow> gets tcp_id;
            let ip_len = (case outs r of [] \<Rightarrow> 4 | n # _ \<Rightarrow> of_int n);
            res \<leftarrow> call env (SocketConnect i (pad 4 (payload r)) ip_len (port mod 65536));
            if res \<noteq> 0 then return (mu_failure cfg)
            else do { modify (\<lambda>s. s\<lparr>tcp_connected := True\<rparr>); return 0 }
          }
        }
      })"

definition tcpsocketconnection_is_connected :: "bool \<Rightarrow> ('z, bool) tcp_m" where
  "tcpsocketconnection_is_connected handle = (if \<not> handle then return False else gets tcp_connected)"

definition tcpsocketconnection_close :: "so_call env \<Rightarrow> bool \<Rightarrow> ('z, unit) tcp_m" where
  "tcpsocketconnection_close env handle =
     do_if handle
       (do {
         i \<leftarrow> gets tcp_id;
         res \<leftarrow> call env (SocketClose i);
         do_if (res = 0)
           (do { modify (\<lambda>s. s\<lparr>tcp_connected := False\<rparr>);
                 modify (\<lambda>s. s\<lparr>tcp_id := IOT_SOCKET_ESOCK\<rparr>) })
       })"

text \<open>
  The buffer of a send is what lies at \<open>data\<close>, of which the library reads the first \<open>len\<close> bytes;
  a receive answers with the count and the bytes.
\<close>

definition tcpsocketconnection_send :: "so_call env \<Rightarrow> bool \<Rightarrow> byte list \<Rightarrow> int \<Rightarrow> ('z, int) tcp_m" where
  "tcpsocketconnection_send env handle data len =
     (if \<not> handle then return (- 1)
      else do {
        connected \<leftarrow> gets tcp_connected;
        if \<not> connected then return (- 1)
        else do { i \<leftarrow> gets tcp_id; call env (SocketSend i (take (nat (len mod 4294967296)) data)) }
      })"

definition tcpsocketconnection_send_all :: "so_call env \<Rightarrow> bool \<Rightarrow> byte list \<Rightarrow> int \<Rightarrow> ('z, int) tcp_m" where
  "tcpsocketconnection_send_all env handle data len =
     (if \<not> handle then return (- 1)
      else do {
        connected \<leftarrow> gets tcp_connected;
        if \<not> connected then return (- 1)
        else do { i \<leftarrow> gets tcp_id; call env (SocketSend i (take (nat (len mod 4294967296)) data)) }
      })"

definition tcpsocketconnection_receive ::
  "so_call env \<Rightarrow> bool \<Rightarrow> int \<Rightarrow> ('z, int \<times> byte list) tcp_m" where
  "tcpsocketconnection_receive env handle len =
     (if \<not> handle then return (- 1, [])
      else do {
        connected \<leftarrow> gets tcp_connected;
        if \<not> connected then return (- 1, [])
        else do { i \<leftarrow> gets tcp_id;
                  r \<leftarrow> extern env (SocketRecv i (nat (len mod 4294967296)));
                  return (ret r, payload r) }
      })"

definition tcpsocketconnection_receive_all ::
  "so_call env \<Rightarrow> bool \<Rightarrow> int \<Rightarrow> ('z, int \<times> byte list) tcp_m" where
  "tcpsocketconnection_receive_all env handle len =
     (if \<not> handle then return (- 1, [])
      else do {
        connected \<leftarrow> gets tcp_connected;
        if \<not> connected then return (- 1, [])
        else do { i \<leftarrow> gets tcp_id;
                  r \<leftarrow> extern env (SocketRecv i (nat (len mod 4294967296)));
                  return (ret r, payload r) }
      })"

lemma wp_tcp_send:
  "tcp_connected s \<Longrightarrow> wp (tcpsocketconnection_send env True data len) Q s =
    wp (call env (SocketSend (tcp_id s) (take (nat (len mod 4294967296)) data))) Q s"
  by (simp add: tcpsocketconnection_send_def wp)

lemmas tcp_defs =
  tcpsocketconnection_create_def tcpsocketconnection_set_blocking_def tcpsocketconnection_destroy_def
  tcpsocketconnection_connect_def tcpsocketconnection_is_connected_def tcpsocketconnection_close_def
  tcpsocketconnection_send_def tcpsocketconnection_send_all_def
  tcpsocketconnection_receive_def tcpsocketconnection_receive_all_def

end
