(* ===== verification/Socketio.thy ===== *)
theory Socketio
  imports Tcp_Socket
begin

text \<open>
  The Azure SDK's socket I/O interface, \<open>azure-iot-sdk-c/platform/src/socketio_openiot.c\<close>.

  Instances, pending sends, their bytes and host names are objects of a heap; \<open>singlylinkedlist\<close>, the
  option handler and \<open>malloc\<close> are the environment, and \<open>fifo\<close> states what the list documents.  The
  answer to \<open>malloc\<close> carries in \<open>outs\<close> the address and then the indeterminate words of the new block.
  Callbacks are calls to the environment, so they are recorded with their arguments and do not call
  back into this file.  An access through a null or dangling pointer sets \<open>fault\<close>.
  The two loops take fuel and answer \<open>None\<close> when it runs out.
\<close>

section \<open>State\<close>

datatype io_state = IO_STATE_CLOSED | IO_STATE_OPENING | IO_STATE_OPEN | IO_STATE_CLOSING | IO_STATE_ERROR

record pending_io =
  p_bytes :: nat
  p_size :: u32
  p_on_send_complete :: nat
  p_context :: nat
  p_list :: nat

record socket_io =
  io_tcp :: bool
  io_on_bytes_received :: nat
  io_on_io_error :: nat
  io_on_bytes_received_context :: nat
  io_on_io_error_context :: nat
  io_hostname :: nat
  io_port :: int
  io_io_state :: io_state
  io_pending_list :: nat
  io_recv_bytes :: "byte list"

datatype so_obj = Instance socket_io | Pending pending_io | Bytes "byte list"

record so = tcp +
  so_heap :: "so_obj heap"

type_synonym 'a so_m = "(so, 'a) state"

section \<open>Memory\<close>

definition out_word :: "reply \<Rightarrow> nat \<Rightarrow> nat" where
  "out_word r i = (if i < length (outs r) then nat (outs r ! i) else 0)"

definition so_malloc :: "so_call env \<Rightarrow> nat \<Rightarrow> (reply \<Rightarrow> so_obj) \<Rightarrow> nat so_m" where
  "so_malloc env n obj =
     do {
       r \<leftarrow> extern env (Malloc n);
       h \<leftarrow> gets so_heap;
       let (a, h') = h_alloc h (out_word r 0) n (obj r);
       modify (\<lambda>s. s\<lparr>so_heap := h'\<rparr>);
       return a
     }"

definition so_free :: "nat \<Rightarrow> unit so_m" where
  "so_free a =
     do_if (a \<noteq> 0)
       (do { h \<leftarrow> gets so_heap;
             do_if (h_get h a = None) crash;
             modify (\<lambda>s. s\<lparr>so_heap := h_free h a\<rparr>) })"

definition no_socket_io :: socket_io where
  "no_socket_io = \<lparr>io_tcp = False, io_on_bytes_received = 0, io_on_io_error = 0,
     io_on_bytes_received_context = 0, io_on_io_error_context = 0, io_hostname = 0, io_port = 0,
     io_io_state = IO_STATE_CLOSED, io_pending_list = 0, io_recv_bytes = []\<rparr>"

definition no_pending_io :: pending_io where
  "no_pending_io = \<lparr>p_bytes = 0, p_size = 0, p_on_send_complete = 0, p_context = 0, p_list = 0\<rparr>"

definition get_io :: "nat \<Rightarrow> socket_io so_m" where
  "get_io a = do { h \<leftarrow> gets so_heap;
     case h_get h a of Some (Instance i) \<Rightarrow> return i | _ \<Rightarrow> do { crash; return no_socket_io } }"

definition set_io :: "nat \<Rightarrow> (socket_io \<Rightarrow> socket_io) \<Rightarrow> unit so_m" where
  "set_io a f = do { i \<leftarrow> get_io a; modify (\<lambda>s. s\<lparr>so_heap := h_put (so_heap s) a (Instance (f i))\<rparr>) }"

definition get_pending :: "nat \<Rightarrow> pending_io so_m" where
  "get_pending a = do { h \<leftarrow> gets so_heap;
     case h_get h a of Some (Pending p) \<Rightarrow> return p | _ \<Rightarrow> do { crash; return no_pending_io } }"

definition get_bytes :: "nat \<Rightarrow> byte list so_m" where
  "get_bytes a = do { h \<leftarrow> gets so_heap;
     case h_get h a of Some (Bytes d) \<Rightarrow> return d | _ \<Rightarrow> do { crash; return [] } }"

definition set_bytes :: "nat \<Rightarrow> byte list option \<Rightarrow> unit so_m" where
  "set_bytes a d = (case d of None \<Rightarrow> crash
     | Some x \<Rightarrow> modify (\<lambda>s. s\<lparr>so_heap := h_put (so_heap s) a (Bytes x)\<rparr>))"

text \<open>The accesses of live objects.\<close>

lemma wp_get_io: "h_get (so_heap s) a = Some (Instance i) \<Longrightarrow> wp (get_io a) Q s = Q i s"
  by (simp add: get_io_def wp)

lemma wp_set_io: "h_get (so_heap s) a = Some (Instance i) \<Longrightarrow>
    wp (set_io a f) Q s = Q () (s\<lparr>so_heap := h_put (so_heap s) a (Instance (f i))\<rparr>)"
  by (simp add: set_io_def get_io_def wp)

lemma wp_get_pending: "h_get (so_heap s) a = Some (Pending p) \<Longrightarrow> wp (get_pending a) Q s = Q p s"
  by (simp add: get_pending_def wp)

lemma wp_get_bytes: "h_get (so_heap s) a = Some (Bytes d) \<Longrightarrow> wp (get_bytes a) Q s = Q d s"
  by (simp add: get_bytes_def wp)

lemma wp_set_bytes: "wp (set_bytes a (Some x)) Q s = Q () (s\<lparr>so_heap := h_put (so_heap s) a (Bytes x)\<rparr>)"
  by (simp add: set_bytes_def wp)

lemma wp_so_free: "h_get (so_heap s) a = Some x \<Longrightarrow> a \<noteq> 0 \<Longrightarrow>
    wp (so_free a) Q s = Q () (s\<lparr>so_heap := h_free (so_heap s) a\<rparr>)"
  by (simp add: so_free_def wp)

lemma wp_so_malloc:
  "wp (so_malloc env n obj) Q s =
    (let r = env (history s) (Malloc n); s' = s\<lparr>history := (Malloc n, r) # history s\<rparr> in
     if h_fits (so_heap s) (out_word r 0) n
     then Q (out_word r 0) (s'\<lparr>so_heap := (out_word r 0, n, obj r) # so_heap s\<rparr>)
     else Q 0 s')"
  by (simp add: so_malloc_def wp h_alloc_def Let_def)

lemmas wp_so = wp_get_io wp_set_io wp_get_pending wp_get_bytes wp_set_bytes wp_so_free

text \<open>\<open>sizeof\<close> of the two structures with 32-bit pointers.\<close>

definition sizeof_pending_io :: nat where "sizeof_pending_io = 20"

definition sizeof_socket_io :: "azure_config \<Rightarrow> nat" where
  "sizeof_socket_io cfg = 36 + 4 * ((xio_receive_buffer_size cfg + 3) div 4)"

section \<open>Options\<close>

definition socketio_CloneOption :: nat where "socketio_CloneOption = 0"

definition socketio_DestroyOption :: "unit so_m" where "socketio_DestroyOption = return ()"

definition socketio_retrieveoptions :: "so_call env \<Rightarrow> nat \<Rightarrow> int so_m" where
  "socketio_retrieveoptions env a = (if a = 0 then return 0 else call env OptionHandlerCreate)"

datatype option_result = OPTIONHANDLER_OK

definition socketio_setoption :: "nat \<Rightarrow> option_result so_m" where
  "socketio_setoption a = return OPTIONHANDLER_OK"

section \<open>Internal operations\<close>

definition indicate_error :: "so_call env \<Rightarrow> nat \<Rightarrow> unit so_m" where
  "indicate_error env a =
     do {
       i \<leftarrow> get_io a;
       if io_io_state i = IO_STATE_CLOSED \<or> io_io_state i = IO_STATE_ERROR then return ()
       else do {
         set_io a (\<lambda>i. i\<lparr>io_io_state := IO_STATE_ERROR\<rparr>);
         do_if (io_on_io_error i \<noteq> 0) (tell env (OnIoError (io_on_io_error i) (io_on_io_error_context i)))
       }
     }"

text \<open>The caller's buffer is what lies at \<open>buffer\<close>; \<open>memcpy\<close> reads \<open>len\<close> bytes of it.\<close>

definition add_pending_io ::
  "azure_config \<Rightarrow> so_call env \<Rightarrow> nat \<Rightarrow> byte list \<Rightarrow> u32 \<Rightarrow> nat \<Rightarrow> nat \<Rightarrow> int so_m" where
  "add_pending_io cfg env a buffer len on_send_complete context =
     do {
       p \<leftarrow> so_malloc env sizeof_pending_io (\<lambda>r. Pending no_pending_io);
       if p = 0 then return (mu_failure cfg)
       else do {
         b \<leftarrow> so_malloc env (unat len) (\<lambda>r. Bytes (pad (unat len) (payload r)));
         if b = 0 then do { so_free p; return (mu_failure cfg) }
         else do {
           i \<leftarrow> get_io a;
           modify (\<lambda>s. s\<lparr>so_heap := h_put (so_heap s) p
             (Pending \<lparr>p_bytes = b, p_size = len, p_on_send_complete = on_send_complete,
                       p_context = context, p_list = io_pending_list i\<rparr>)\<rparr>);
           set_bytes b (if unat len \<le> length buffer then Some (take (unat len) buffer) else None);
           item \<leftarrow> call env (ListAdd (io_pending_list i) p);
           if item = 0 then do { so_free b; so_free p; return (mu_failure cfg) }
           else return 0
         }
       }
     }"

definition close_tcp_connection :: "so_call env \<Rightarrow> nat \<Rightarrow> unit so_m" where
  "close_tcp_connection env a =
     do {
       i \<leftarrow> get_io a;
       do_if (io_io_state i \<noteq> IO_STATE_CLOSED)
         (do {
           do_if (io_tcp i)
             (do { tcpsocketconnection_close env (io_tcp i);
                   tcpsocketconnection_destroy env (io_tcp i);
                   set_io a (\<lambda>i. i\<lparr>io_tcp := False\<rparr>) });
           set_io a (\<lambda>i. i\<lparr>io_io_state := IO_STATE_CLOSED\<rparr>)
         })
     }"

text \<open>
  The receive buffer is overwritten from its start; more bytes than it holds are not written, since the
  library is given its size.
\<close>

fun retrieve_data :: "azure_config \<Rightarrow> so_call env \<Rightarrow> nat \<Rightarrow> nat \<Rightarrow> int option so_m" where
  "retrieve_data cfg env 0 a = return None"
| "retrieve_data cfg env (Suc fuel) a =
     do {
       i \<leftarrow> get_io a;
       (received, bytes) \<leftarrow>
         tcpsocketconnection_receive env (io_tcp i) (int (xio_receive_buffer_size cfg));
       set_io a (\<lambda>i. i\<lparr>io_recv_bytes := take (xio_receive_buffer_size cfg)
         (take (nat received) bytes @ drop (length (take (nat received) bytes)) (io_recv_bytes i))\<rparr>);
       i \<leftarrow> get_io a;
       if received > 0 then
         do {
           do_if (io_on_bytes_received i \<noteq> 0)
             (tell env (OnBytesReceived (io_on_bytes_received i) (io_on_bytes_received_context i)
               (take (nat received) (io_recv_bytes i))));
           i \<leftarrow> get_io a;
           if io_io_state i = IO_STATE_OPEN then retrieve_data cfg env fuel a else return (Some 0)
         }
       else if received = 0 then do { indicate_error env a; return (Some 0) }
       else if received \<noteq> IOT_SOCKET_EAGAIN then
         do { indicate_error env a; return (Some (mu_failure cfg)) }
       else return (Some 0)
     }"

fun send_queued_data :: "azure_config \<Rightarrow> so_call env \<Rightarrow> nat \<Rightarrow> nat \<Rightarrow> int option so_m" where
  "send_queued_data cfg env 0 a = return None"
| "send_queued_data cfg env (Suc fuel) a =
     do {
       i \<leftarrow> get_io a;
       first \<leftarrow> call env (ListGetHead (io_pending_list i));
       if first = 0 then return (Some 0)
       else do {
         v \<leftarrow> call env (ListItemValue (nat first));
         if v = 0 then do { indicate_error env a; return (Some (mu_failure cfg)) }
         else do {
           p \<leftarrow> get_pending (nat v);
           d \<leftarrow> get_bytes (p_bytes p);
           send_result \<leftarrow> tcpsocketconnection_send env (io_tcp i) d (sint (p_size p));
           if send_result \<noteq> sint (p_size p) then
             (if send_result < 0 then do { indicate_error env a; return (Some (mu_failure cfg)) }
              else do {
                set_bytes (p_bytes p)
                  (mem_move d 0 (nat send_result) (unat (p_size p - of_int send_result)));
                send_queued_data cfg env fuel a
              })
           else do {
             do_if (p_on_send_complete p \<noteq> 0)
               (tell env (OnSendComplete (p_on_send_complete p) (p_context p) IO_SEND_OK));
             so_free (p_bytes p);
             so_free (nat v);
             removed \<leftarrow> call env (ListRemove (io_pending_list i) (nat first));
             if removed \<noteq> 0 then do { indicate_error env a; return (Some (mu_failure cfg)) }
             else send_queued_data cfg env fuel a
           }
         }
       }
     }"

section \<open>The interface\<close>

text \<open>\<open>config\<close> is what the parameter points to, the host name and the port; \<open>strlen\<close> stops at its first zero.\<close>

definition socketio_create :: "azure_config \<Rightarrow> so_call env \<Rightarrow> (byte list \<times> int) option \<Rightarrow> nat so_m" where
  "socketio_create cfg env config =
     (case config of None \<Rightarrow> return 0
      | Some (hostname, port) \<Rightarrow>
        do {
          a \<leftarrow> so_malloc env (sizeof_socket_io cfg) (\<lambda>r. Instance (no_socket_io
                 \<lparr>io_hostname := out_word r 1, io_recv_bytes := pad (xio_receive_buffer_size cfg) (payload r)\<rparr>));
          if a = 0 then return 0
          else do {
            l \<leftarrow> call env ListCreate;
            set_io a (\<lambda>i. i\<lparr>io_pending_list := nat l\<rparr>);
            if l = 0 then
              do { i \<leftarrow> get_io a; so_free (io_hostname i); so_free a; return 0 }
            else do {
              let name = takeWhile (\<lambda>c. c \<noteq> 0) hostname;
              h \<leftarrow> so_malloc env (length name + 1) (\<lambda>r. Bytes (pad (length name + 1) (payload r)));
              set_io a (\<lambda>i. i\<lparr>io_hostname := h\<rparr>);
              if h = 0 then
                do { tell env (ListDestroy (nat l)); so_free a; return 0 }
              else do {
                set_bytes h (Some (name @ [0]));
                set_io a (\<lambda>i. i\<lparr>io_port := port, io_on_bytes_received := 0, io_on_io_error := 0,
                  io_on_bytes_received_context := 0, io_on_io_error_context := 0,
                  io_io_state := IO_STATE_CLOSED, io_tcp := False\<rparr>);
                return a
              }
            }
          }
        })"

text \<open>The loop of \<open>socketio_destroy\<close> over the pending list.\<close>

fun clear_pending :: "so_call env \<Rightarrow> nat \<Rightarrow> nat \<Rightarrow> unit option so_m" where
  "clear_pending env 0 a = return None"
| "clear_pending env (Suc fuel) a =
     do {
       i \<leftarrow> get_io a;
       first \<leftarrow> call env (ListGetHead (io_pending_list i));
       if first = 0 then return (Some ())
       else do {
         v \<leftarrow> call env (ListItemValue (nat first));
         do_if (v \<noteq> 0) (do { p \<leftarrow> get_pending (nat v); so_free (p_bytes p); so_free (nat v) });
         tell env (ListRemove (io_pending_list i) (nat first));
         clear_pending env fuel a
       }
     }"

definition socketio_destroy :: "so_call env \<Rightarrow> nat \<Rightarrow> nat \<Rightarrow> unit option so_m" where
  "socketio_destroy env fuel a =
     (if a = 0 then return (Some ())
      else do {
        close_tcp_connection env a;
        r \<leftarrow> clear_pending env fuel a;
        case r of None \<Rightarrow> return None
        | Some _ \<Rightarrow>
          do {
            i \<leftarrow> get_io a;
            tell env (ListDestroy (io_pending_list i));
            do_if (io_hostname i \<noteq> 0)
              (do { so_free (io_hostname i); set_io a (\<lambda>i. i\<lparr>io_hostname := 0\<rparr>) });
            so_free a;
            return (Some ())
          }
      })"

text \<open>
  The exit path of \<open>socketio_open\<close> reads \<open>socket_io_instance\<close>, which a null handle leaves uninitialised.
\<close>

definition open_exit :: "so_call env \<Rightarrow> nat \<Rightarrow> int \<Rightarrow> nat \<Rightarrow> nat \<Rightarrow> int so_m" where
  "open_exit env a result on_complete context =
     do {
       do_if (result \<noteq> 0)
         (do { i \<leftarrow> get_io a;
               do_if (io_tcp i)
                 (do { tcpsocketconnection_destroy env (io_tcp i);
                       set_io a (\<lambda>i. i\<lparr>io_tcp := False\<rparr>) }) });
       do_if (on_complete \<noteq> 0)
         (tell env (OnIoOpenComplete on_complete context (if result = 0 then IO_OPEN_OK else IO_OPEN_ERROR)));
       return result
     }"

definition socketio_open ::
  "azure_config \<Rightarrow> so_call env \<Rightarrow> nat \<Rightarrow> nat \<Rightarrow> nat \<Rightarrow> nat \<Rightarrow> nat \<Rightarrow> nat \<Rightarrow> nat \<Rightarrow> int so_m" where
  "socketio_open cfg env a on_complete complete_context on_bytes bytes_context on_error error_context =
     (if a = 0 then do { crash; open_exit env a (mu_failure cfg) on_complete complete_context }
      else do {
        i \<leftarrow> get_io a;
        if io_io_state i \<noteq> IO_STATE_CLOSED then open_exit env a (mu_failure cfg) on_complete complete_context
        else do {
          t \<leftarrow> tcpsocketconnection_create env;
          set_io a (\<lambda>i. i\<lparr>io_tcp := t\<rparr>);
          if \<not> t then open_exit env a (mu_failure cfg) on_complete complete_context
          else do {
            host \<leftarrow> get_bytes (io_hostname i);
            c \<leftarrow> tcpsocketconnection_connect cfg env t host (io_port i);
            if c \<noteq> 0 then open_exit env a (mu_failure cfg) on_complete complete_context
            else do {
              tcpsocketconnection_set_blocking env t False 0;
              set_io a (\<lambda>i. i\<lparr>io_on_bytes_received := on_bytes, io_on_bytes_received_context := bytes_context,
                io_on_io_error := on_error, io_on_io_error_context := error_context,
                io_io_state := IO_STATE_OPEN\<rparr>);
              open_exit env a 0 on_complete complete_context
            }
          }
        }
      })"

definition socketio_close :: "azure_config \<Rightarrow> so_call env \<Rightarrow> nat \<Rightarrow> nat \<Rightarrow> nat \<Rightarrow> int so_m" where
  "socketio_close cfg env a on_complete context =
     do {
       result \<leftarrow>
         (if a = 0 then return (mu_failure cfg)
          else do {
            i \<leftarrow> get_io a;
            do_if (io_io_state i \<noteq> IO_STATE_CLOSED) (close_tcp_connection env a);
            return 0
          });
       do_if (on_complete \<noteq> 0) (tell env (OnIoCloseComplete on_complete context));
       return result
     }"

definition socketio_send ::
  "azure_config \<Rightarrow> so_call env \<Rightarrow> nat \<Rightarrow> byte list option \<Rightarrow> u32 \<Rightarrow> nat \<Rightarrow> nat \<Rightarrow> int so_m" where
  "socketio_send cfg env a buffer len on_complete context =
     do {
       result \<leftarrow>
         (case buffer of None \<Rightarrow> return (mu_failure cfg)
          | Some data \<Rightarrow>
            if a = 0 \<or> len = 0 then return (mu_failure cfg)
            else do {
              i \<leftarrow> get_io a;
              if io_io_state i \<noteq> IO_STATE_OPEN then return (mu_failure cfg)
              else do {
                r \<leftarrow> add_pending_io cfg env a data len on_complete context;
                return (if r \<noteq> 0 then mu_failure cfg else 0)
              }
            });
       do_if (on_complete \<noteq> 0)
         (tell env (OnSendComplete on_complete context (if result = 0 then IO_SEND_OK else IO_SEND_ERROR)));
       return result
     }"

definition socketio_dowork :: "azure_config \<Rightarrow> so_call env \<Rightarrow> nat \<Rightarrow> nat \<Rightarrow> unit option so_m" where
  "socketio_dowork cfg env fuel a =
     (if a = 0 then return (Some ())
      else do {
        i \<leftarrow> get_io a;
        if io_io_state i = IO_STATE_OPEN then
          do {
            sent \<leftarrow> send_queued_data cfg env fuel a;
            case sent of None \<Rightarrow> return None
            | Some _ \<Rightarrow>
              do {
                got \<leftarrow> retrieve_data cfg env fuel a;
                return (map_option (\<lambda>_. ()) got)
              }
          }
        else return (Some ())
      })"

section \<open>The list library\<close>

text \<open>
  \<open>list_items h\<close> is what the linked lists hold after the calls \<open>h\<close>, oldest first, as (list, item, value).
  \<open>fifo\<close> is the documented behaviour: the head is the oldest item, an item gives the value it was added
  with, an item of the list can be removed, and \<open>add\<close> fails or gives an item that no list has.
\<close>

fun list_items :: "(so_call \<times> reply) list \<Rightarrow> (nat \<times> nat \<times> nat) list" where
  "list_items [] = []"
| "list_items ((c, r) # h) =
     (case c of
        ListAdd l v \<Rightarrow> if ret r = 0 then list_items h else list_items h @ [(l, nat (ret r), v)]
      | ListRemove l i \<Rightarrow>
          if ret r = 0 then filter (\<lambda>(l', i', v). \<not> (l' = l \<and> i' = i)) (list_items h) else list_items h
      | ListDestroy l \<Rightarrow> filter (\<lambda>(l', i', v). l' \<noteq> l) (list_items h)
      | _ \<Rightarrow> list_items h)"

definition items_of :: "(so_call \<times> reply) list \<Rightarrow> nat \<Rightarrow> (nat \<times> nat) list" where
  "items_of h l = map snd (filter (\<lambda>x. fst x = l) (list_items h))"

definition items_distinct :: "(so_call \<times> reply) list \<Rightarrow> bool" where
  "items_distinct h = distinct (0 # map (\<lambda>x. fst (snd x)) (list_items h))"

definition fifo :: "so_call env \<Rightarrow> bool" where
  "fifo env \<longleftrightarrow>
     (\<forall>h l. ret (env h (ListGetHead l)) = (case items_of h l of [] \<Rightarrow> 0 | x # _ \<Rightarrow> int (fst x))) \<and>
     (\<forall>h l i v. items_distinct h \<longrightarrow> (l, i, v) \<in> set (list_items h) \<longrightarrow>
        ret (env h (ListItemValue i)) = int v \<and> ret (env h (ListRemove l i)) = 0) \<and>
     (\<forall>h l v. let i = ret (env h (ListAdd l v)) in
        0 \<le> i \<and> (i \<noteq> 0 \<longrightarrow> nat i \<notin> (\<lambda>x. fst (snd x)) ` set (list_items h)))"

lemma list_items_other [simp]:
  "list_items ((ListGetHead l, r) # h) = list_items h"
  "list_items ((ListItemValue i, r) # h) = list_items h"
  "list_items ((SocketSend k d, r) # h) = list_items h"
  "list_items ((OnSendComplete f c x, r) # h) = list_items h"
  "list_items ((Malloc n, r) # h) = list_items h"
  by simp_all

lemma items_of_other [simp]:
  "items_of ((ListGetHead l, r) # h) m = items_of h m"
  "items_of ((ListItemValue i, r) # h) m = items_of h m"
  "items_of ((SocketSend k d, r) # h) m = items_of h m"
  "items_of ((OnSendComplete f c x, r) # h) m = items_of h m"
  "items_of ((Malloc n, r) # h) m = items_of h m"
  by (simp_all add: items_of_def)

lemma items_distinct_other [simp]:
  "items_distinct ((ListGetHead l, r) # h) = items_distinct h"
  "items_distinct ((ListItemValue i, r) # h) = items_distinct h"
  "items_distinct ((SocketSend k d, r) # h) = items_distinct h"
  "items_distinct ((OnSendComplete f c x, r) # h) = items_distinct h"
  "items_distinct ((Malloc n, r) # h) = items_distinct h"
  by (simp_all add: items_distinct_def)

lemma items_distinct_remove: "items_distinct h \<Longrightarrow> items_distinct ((ListRemove l i, r) # h)"
  unfolding items_distinct_def by (auto simp: distinct_map_filter)

lemma items_of_remove:
  assumes "items_distinct h" and "items_of h l = (i, v) # q" and "ret r = 0"
  shows "items_of ((ListRemove l i, r) # h) l = q"
proof -
  have d: "distinct (map fst (items_of h l))"
    using assms(1) unfolding items_distinct_def items_of_def
    by (simp add: comp_def distinct_map_filter)
  have "map snd (filter (\<lambda>x. fst x = l) (filter (\<lambda>(l', i', v). \<not> (l' = l \<and> i' = i)) xs)) =
      filter (\<lambda>x. fst x \<noteq> i) (map snd (filter (\<lambda>x. fst x = l) xs))" for xs :: "(nat \<times> nat \<times> nat) list"
    by (induction xs) auto
  then have "items_of ((ListRemove l i, r) # h) l = filter (\<lambda>x. fst x \<noteq> i) (items_of h l)"
    using assms(3) by (simp add: items_of_def)
  then show ?thesis using d assms(2) by (auto intro!: filter_True)
qed

lemma items_distinct_add:
  assumes "fifo env" and "items_distinct h"
  shows "items_distinct ((ListAdd l v, env h (ListAdd l v)) # h)"
proof -
  have "0 \<le> ret (env h (ListAdd l v))"
    and "ret (env h (ListAdd l v)) \<noteq> 0 \<longrightarrow>
      nat (ret (env h (ListAdd l v))) \<notin> (\<lambda>x. fst (snd x)) ` set (list_items h)"
    using assms(1) by (simp_all add: fifo_def Let_def)
  then show ?thesis using assms(2) by (auto simp: items_distinct_def)
qed

lemma items_of_add:
  "items_of ((ListAdd l v, r) # h) k =
    (if k = l \<and> ret r \<noteq> 0 then items_of h k @ [(nat (ret r), v)] else items_of h k)"
  by (simp add: items_of_def)

lemma fifo_head: "fifo env \<Longrightarrow>
    ret (env h (ListGetHead l)) = (case items_of h l of [] \<Rightarrow> 0 | x # _ \<Rightarrow> int (fst x))"
  by (simp add: fifo_def)

lemma fifo_item:
  assumes "fifo env" and "items_distinct h" and "(i, v) \<in> set (items_of h l)"
  shows "ret (env h (ListItemValue i)) = int v" and "ret (env h (ListRemove l i)) = 0"
  using assms by (auto simp: fifo_def items_of_def)

end
