(* ===== verification/Socketio_Spec.thy ===== *)
theory Socketio_Spec
  imports Socketio
begin

text \<open>
  What \<open>socketio_openiot.c\<close> promises: the queue of pending sends as an abstract list, that a send
  appends to it and \<open>socketio_dowork\<close> delivers it in order, and where the code breaks its promise.
\<close>

section \<open>The abstract queue\<close>

text \<open>
  An entry is the list item, the address and contents of its \<open>PENDING_SOCKET_IO\<close>, and its bytes.
\<close>

type_synonym entry = "nat \<times> nat \<times> pending_io \<times> byte list"

fun entry_ok :: "so_obj heap \<Rightarrow> entry \<Rightarrow> bool" where
  "entry_ok h (i, v, p, d) \<longleftrightarrow>
     v \<noteq> 0 \<and> p_bytes p \<noteq> 0 \<and> h_get h v = Some (Pending p) \<and> h_get h (p_bytes p) = Some (Bytes d) \<and>
     length d = unat (p_size p) \<and> length d < 2147483648"

fun entry_blocks :: "entry \<Rightarrow> nat list" where
  "entry_blocks (i, v, p, d) = [v, p_bytes p]"

fun entry_item :: "entry \<Rightarrow> nat \<times> nat" where
  "entry_item (i, v, p, d) = (i, v)"

fun entry_data :: "entry \<Rightarrow> byte list" where
  "entry_data (i, v, p, d) = d"

definition pending_queue :: "so \<Rightarrow> nat \<Rightarrow> entry list \<Rightarrow> bool" where
  "pending_queue s l q \<longleftrightarrow>
     items_distinct (history s) \<and> items_of (history s) l = map entry_item q \<and>
     list_all (entry_ok (so_heap s)) q \<and> distinct (concat (map entry_blocks q))"

text \<open>An instance at \<open>a\<close> that is open and connected, with its queue.\<close>

definition open_io :: "so \<Rightarrow> nat \<Rightarrow> socket_io \<Rightarrow> bool" where
  "open_io s a io \<longleftrightarrow> a \<noteq> 0 \<and> h_get (so_heap s) a = Some (Instance io) \<and> io_io_state io = IO_STATE_OPEN \<and>
     io_tcp io \<and> tcp_connected s"

text \<open>The blocks given to the socket library, and the completions reported, oldest first.\<close>

fun sent_block :: "so_call \<Rightarrow> byte list option" where
  "sent_block (SocketSend i d) = Some d"
| "sent_block c = None"

definition sent :: "so \<Rightarrow> byte list list" where
  "sent s = List.map_filter sent_block (calls s)"

fun completion :: "so_call \<Rightarrow> (nat \<times> nat \<times> send_result) option" where
  "completion (OnSendComplete f c r) = Some (f, c, r)"
| "completion c = None"

definition completions :: "so \<Rightarrow> (nat \<times> nat \<times> send_result) list" where
  "completions s = List.map_filter completion (calls s)"

fun entry_completion :: "entry \<Rightarrow> (nat \<times> nat \<times> send_result) option" where
  "entry_completion (i, v, p, d) =
     (if p_on_send_complete p = 0 then None else Some (p_on_send_complete p, p_context p, IO_SEND_OK))"

definition sends_all :: "so_call env \<Rightarrow> bool" where
  "sends_all env \<longleftrightarrow> (\<forall>h i d. ret (env h (SocketSend i d)) = int (length d))"

definition free_blocks :: "nat list \<Rightarrow> so_obj heap \<Rightarrow> so_obj heap" where
  "free_blocks = fold (\<lambda>a h. h_free h a)"

lemma sent_Cons [simp]:
  "sent (s\<lparr>history := (c, r) # h\<rparr>) =
    sent (s\<lparr>history := h\<rparr>) @ (case sent_block c of None \<Rightarrow> [] | Some d \<Rightarrow> [d])"
  by (simp add: sent_def calls_def map_filter_def split: option.split)

lemma completions_Cons [simp]:
  "completions (s\<lparr>history := (c, r) # h\<rparr>) =
    completions (s\<lparr>history := h\<rparr>) @ (case completion c of None \<Rightarrow> [] | Some x \<Rightarrow> [x])"
  by (simp add: completions_def calls_def map_filter_def split: option.split)

lemma sent_heap [simp]: "sent (s\<lparr>so_heap := h\<rparr>) = sent s"
  by (simp add: sent_def calls_def)

lemma completions_heap [simp]: "completions (s\<lparr>so_heap := h\<rparr>) = completions s"
  by (simp add: completions_def calls_def)

lemma heap_history [simp]:
  "sent (s\<lparr>so_heap := x, history := h\<rparr>) = sent (s\<lparr>history := h\<rparr>)"
  "completions (s\<lparr>so_heap := x, history := h\<rparr>) = completions (s\<lparr>history := h\<rparr>)"
  by (simp_all add: sent_def completions_def calls_def)

lemma entry_ok_free:
  "entry_ok h e \<Longrightarrow> a \<notin> set (entry_blocks e) \<Longrightarrow> entry_ok (h_free h a) e"
  by (cases e) auto

lemma entries_ok_free:
  "list_all (entry_ok h) q \<Longrightarrow> a \<notin> set (concat (map entry_blocks q)) \<Longrightarrow> list_all (entry_ok (h_free h a)) q"
  by (auto simp: list_all_iff intro!: entry_ok_free)

lemma free_blocks_simps [simp]:
  "free_blocks [] h = h" "free_blocks (a # as) h = free_blocks as (h_free h a)"
  by (simp_all add: free_blocks_def)

section \<open>Sending the queue\<close>

lemma item_nonzero:
  assumes "items_distinct h" and "(i, v) \<in> set (items_of h l)"
  shows "i \<noteq> 0"
proof -
  have "i \<in> set (map (\<lambda>x. fst (snd x)) (list_items h))"
    using assms(2) by (force simp: items_of_def)
  moreover have "0 \<notin> set (map (\<lambda>x. fst (snd x)) (list_items h))"
    using assms(1) by (simp only: items_distinct_def distinct.simps not_False_eq_True)
  ultimately show ?thesis by metis
qed

lemma send_one:
  assumes env: "fifo env" "sends_all env"
    and q: "pending_queue s l ((i, v, p, d) # q)"
    and io: "open_io s a io" "io_pending_list io = l"
  obtains t where "\<And>Q. wp (send_queued_data cfg env (Suc n) a) Q s = wp (send_queued_data cfg env n a) Q t"
    and "pending_queue t l q" and "open_io t a io" and "sent t = sent s @ [d]"
    and "completions t = completions s @ (case entry_completion (i, v, p, d) of None \<Rightarrow> [] | Some x \<Rightarrow> [x])"
    and "so_heap t = free_blocks (entry_blocks (i, v, p, d)) (so_heap s)" and "fault t = fault s"
proof -
  define h1 where "h1 = (ListGetHead l, env (history s) (ListGetHead l)) # history s"
  define h2 where "h2 = (ListItemValue i, env h1 (ListItemValue i)) # h1"
  define h3 where "h3 = (SocketSend (tcp_id s) d, env h2 (SocketSend (tcp_id s) d)) # h2"
  define h4 where "h4 = (if p_on_send_complete p = 0 then h3 else
    (OnSendComplete (p_on_send_complete p) (p_context p) IO_SEND_OK,
     env h3 (OnSendComplete (p_on_send_complete p) (p_context p) IO_SEND_OK)) # h3)"
  define h5 where "h5 = (ListRemove l i, env h4 (ListRemove l i)) # h4"
  define t where "t = s\<lparr>so_heap := h_free (h_free (so_heap s) (p_bytes p)) v, history := h5\<rparr>"
  have it: "items_distinct (history s)" "items_of (history s) l = (i, v) # map entry_item q"
    and ok: "entry_ok (so_heap s) (i, v, p, d)" "list_all (entry_ok (so_heap s)) q"
    and di: "v \<noteq> p_bytes p" "v \<notin> set (concat (map entry_blocks q))"
      "p_bytes p \<notin> set (concat (map entry_blocks q))" "distinct (concat (map entry_blocks q))"
    using q by (auto simp: pending_queue_def)
  have it4: "items_distinct h4" "items_of h4 l = (i, v) # map entry_item q"
    and it1: "items_distinct h1" "items_of h1 l = (i, v) # map entry_item q"
    using it by (simp_all add: h1_def h2_def h3_def h4_def)
  have i0: "i \<noteq> 0" using item_nonzero [OF it(1), of i v l] it(2) by simp
  have head: "ret (env (history s) (ListGetHead l)) = int i"
    using fifo_head [OF env(1)] it by simp
  have val: "ret (env h1 (ListItemValue i)) = int v"
    using fifo_item(1) [OF env(1) it1(1)] it1(2) by (metis list.set_intros(1))
  have rem: "ret (env h4 (ListRemove l i)) = 0"
    using fifo_item(2) [OF env(1) it4(1)] it4(2) by (metis list.set_intros(1))
  have snd: "ret (env h2 (SocketSend (tcp_id s) d)) = int (length d)"
    using env(2) by (simp add: sends_all_def)
  have sz: "sint (p_size p) = int (length d)"
    using ok(1) by (simp add: sint_small)
  have nz: "v \<noteq> 0" "p_bytes p \<noteq> 0" "v \<noteq> p_bytes p"
    and live: "h_get (so_heap s) v = Some (Pending p)" "h_get (so_heap s) (p_bytes p) = Some (Bytes d)"
    and lt: "length d < 2147483648"
    using ok(1) di(1) by auto
  have len: "nat (int (length d) mod 4294967296) = length d"
    using lt by simp
  show ?thesis
  proof
    show "wp (send_queued_data cfg env (Suc n) a) Q s = wp (send_queued_data cfg env n a) Q t" for Q
    proof (cases "p_on_send_complete p = 0")
      case True
      then have "h4 = h3" by (simp add: h4_def)
      then show ?thesis
        using True nz live io i0 head val rem snd sz len unfolding open_io_def t_def
        by (simp add: wp wp_so wp_tcp_send h1_def [symmetric] h2_def [symmetric] h3_def [symmetric]
          h5_def)
    next
      case False
      then have "(OnSendComplete (p_on_send_complete p) (p_context p) IO_SEND_OK,
          env h3 (OnSendComplete (p_on_send_complete p) (p_context p) IO_SEND_OK)) # h3 = h4"
        by (simp add: h4_def)
      then show ?thesis
        using False nz live io i0 head val rem snd sz len unfolding open_io_def t_def
        by (simp add: wp wp_so wp_tcp_send h1_def [symmetric] h2_def [symmetric] h3_def [symmetric]
          h5_def)
    qed
    show "pending_queue t l q"
      using it4 ok(2) di rem by (simp add: pending_queue_def t_def h5_def items_distinct_remove
        items_of_remove entries_ok_free)
    show "open_io t a io" using io ok(1) by (auto simp: open_io_def t_def)
    show "sent t = sent s @ [d]" by (simp add: t_def h1_def h2_def h3_def h4_def h5_def)
    show "completions t = completions s @ (case entry_completion (i, v, p, d) of None \<Rightarrow> [] | Some x \<Rightarrow> [x])"
      by (simp add: t_def h1_def h2_def h3_def h4_def h5_def)
    show "so_heap t = free_blocks (entry_blocks (i, v, p, d)) (so_heap s)"
      by (simp add: t_def h_free_def conj_commute)
    show "fault t = fault s" by (simp add: t_def)
  qed
qed

lemma send_queue_all:
  assumes "fifo env" "sends_all env"
  shows "pending_queue s l q \<Longrightarrow> open_io s a io \<Longrightarrow> io_pending_list io = l \<Longrightarrow> length q < n \<Longrightarrow>
    wp (send_queued_data cfg env n a)
      (\<lambda>r t. r = Some 0 \<and> pending_queue t l [] \<and> open_io t a io \<and> sent t = sent s @ map entry_data q \<and>
         completions t = completions s @ List.map_filter entry_completion q \<and>
         so_heap t = free_blocks (concat (map entry_blocks q)) (so_heap s) \<and> fault t = fault s) s"
proof (induction q arbitrary: s n)
  case Nil
  from Nil.prems(4) obtain m where "n = Suc m" by (cases n) auto
  then show ?case
    using Nil.prems fifo_head [OF assms(1), of "history s" l]
    by (simp add: wp wp_so open_io_def pending_queue_def map_filter_def sent_def completions_def calls_def)
next
  case (Cons e q)
  from Cons.prems(4) obtain m where n: "n = Suc m" "length q < m" by (cases n) auto
  obtain i v p d where e: "e = (i, v, p, d)" by (cases e) auto
  obtain t where t: "\<And>Q. wp (send_queued_data cfg env (Suc m) a) Q s = wp (send_queued_data cfg env m a) Q t"
    "pending_queue t l q" "open_io t a io" "sent t = sent s @ [d]"
    "completions t = completions s @ (case entry_completion (i, v, p, d) of None \<Rightarrow> [] | Some x \<Rightarrow> [x])"
    "so_heap t = free_blocks (entry_blocks (i, v, p, d)) (so_heap s)" "fault t = fault s"
    using send_one [OF assms, of s l i v p d q a io cfg m] Cons.prems e by metis
  show ?case
    unfolding n(1) t(1) using Cons.IH [OF t(2,3) Cons.prems(3) n(2)]
    by (rule wp_mono) (simp add: t(4-7) e map_filter_simps)
qed

section \<open>Queueing a send\<close>

lemma entry_ok_alloc:
  "entry_ok h e \<Longrightarrow> h_get h b = None \<Longrightarrow> entry_ok ((b, n, x) # h) e \<and> b \<notin> set (entry_blocks e)"
  by (cases e) auto

lemma entry_ok_put:
  "entry_ok h e \<Longrightarrow> b \<notin> set (entry_blocks e) \<Longrightarrow> entry_ok (h_put h b x) e"
  by (cases e) auto

lemma entries_ok_alloc:
  "list_all (entry_ok h) q \<Longrightarrow> h_get h b = None \<Longrightarrow>
    list_all (entry_ok ((b, n, x) # h)) q \<and> b \<notin> set (concat (map entry_blocks q))"
  unfolding list_all_iff using entry_ok_alloc by fastforce

lemma add_pending:
  assumes env: "fifo env" and cfg: "mu_failure cfg \<noteq> 0"
    and q: "pending_queue s l q" and io: "open_io s a io" "io_pending_list io = l"
    and len: "unat len \<le> length buffer" "unat len < 2147483648"
  shows "wp (add_pending_io cfg env a buffer len f c)
    (\<lambda>r t. (r = 0 \<or> r = mu_failure cfg) \<and> open_io t a io \<and> fault t = fault s \<and> sent t = sent s \<and>
       completions t = completions s \<and>
       (r = 0 \<longrightarrow> (\<exists>i v p. pending_queue t l (q @ [(i, v, p, take (unat len) buffer)]) \<and>
          p_on_send_complete p = f \<and> p_context p = c \<and> p_size p = len)) \<and>
       (r \<noteq> 0 \<longrightarrow> pending_queue t l q \<and> so_heap t = so_heap s)) s"
proof -
  have live: "h_get (so_heap s) a = Some (Instance io)" "a \<noteq> 0"
    and it: "items_distinct (history s)" "items_of (history s) l = map entry_item q"
      "list_all (entry_ok (so_heap s)) q" "distinct (concat (map entry_blocks q))"
    using q io by (auto simp: pending_queue_def open_io_def)
  define v where "v = out_word (env (history s) (Malloc sizeof_pending_io)) 0"
  define h1 where "h1 = (Malloc sizeof_pending_io, env (history s) (Malloc sizeof_pending_io)) # history s"
  define b where "b = out_word (env h1 (Malloc (unat len))) 0"
  define h2 where "h2 = (Malloc (unat len), env h1 (Malloc (unat len))) # h1"
  define h3 where "h3 = (ListAdd l v, env h2 (ListAdd l v)) # h2"
  note h = h1_def [symmetric] v_def [symmetric] h2_def [symmetric] b_def [symmetric] h3_def [symmetric]
  have it2: "items_distinct h1" "items_of h1 l = map entry_item q"
    "items_distinct h2" "items_of h2 l = map entry_item q"
    using it by (simp_all add: h1_def h2_def)
  have it3: "items_distinct h3"
    unfolding h3_def by (rule items_distinct_add [OF env it2(3)])
  have same: "sent (s\<lparr>history := h1\<rparr>) = sent s" "completions (s\<lparr>history := h1\<rparr>) = completions s"
    "sent (s\<lparr>history := h2\<rparr>) = sent s" "completions (s\<lparr>history := h2\<rparr>) = completions s"
    "sent (s\<lparr>history := h3\<rparr>) = sent s" "completions (s\<lparr>history := h3\<rparr>) = completions s"
    by (simp_all add: h1_def h2_def h3_def)
  show ?thesis
  proof (cases "h_fits (so_heap s) v sizeof_pending_io")
    case False
    then show ?thesis
      using cfg io it it2 same unfolding add_pending_io_def open_io_def pending_queue_def
      by (simp add: wp wp_so_malloc Let_def h)
  next
    case vfits: True
    then have v: "h_get (so_heap s) v = None" "0 < v" using h_fits_fresh by blast+
    then have av: "a \<noteq> v" using live by auto
    show ?thesis
    proof (cases "h_fits ((v, sizeof_pending_io, Pending no_pending_io) # so_heap s) b (unat len)")
      case False
      then show ?thesis
        using vfits v av cfg io it it2 same unfolding add_pending_io_def open_io_def pending_queue_def
        by (simp add: wp wp_so wp_so_malloc Let_def h h_free_fresh h_free_Cons)
    next
      case bfits: True
      then have b: "h_get (so_heap s) b = None" "0 < b" "b \<noteq> v"
        using h_fits_fresh [OF bfits] by (auto split: if_splits)
      then have ab: "a \<noteq> b" using live by auto
      have add: "h3 = (ListAdd l v, env h2 (ListAdd l v)) # h2" by (simp add: h3_def)
      show ?thesis
      proof (cases "ret (env h2 (ListAdd l v)) = 0")
        case True
        then show ?thesis
          using vfits bfits v b av ab cfg io it it2 it3 same
          unfolding add_pending_io_def open_io_def pending_queue_def
          by (simp add: wp wp_so wp_so_malloc Let_def h h_free_fresh h_free_Cons h_put_fresh len min_def)
            (simp add: add items_of_add)
      next
        case False
        define p where "p = \<lparr>p_bytes = b, p_size = len, p_on_send_complete = f, p_context = c, p_list = l\<rparr>"
        define e where "e = (nat (ret (env h2 (ListAdd l v))), v, p, take (unat len) buffer)"
        define t where "t = s\<lparr>so_heap := (b, unat len, Bytes (take (unat len) buffer)) #
          (v, sizeof_pending_io, Pending p) # so_heap s, history := h3\<rparr>"
        have "items_of h3 l = map entry_item (q @ [e])"
          using False it2 by (simp add: add items_of_add e_def)
        moreover have "list_all (entry_ok (so_heap t)) (q @ [e])"
          using it(3) v b len by (simp add: entries_ok_alloc t_def e_def p_def)
        moreover have "distinct (concat (map entry_blocks (q @ [e])))"
          using it(3,4) v b entries_ok_alloc [of "so_heap s" q v] entries_ok_alloc [of "so_heap s" q b]
          by (auto simp: e_def p_def)
        ultimately have "pending_queue t l (q @ [e])"
          using it3 by (simp add: pending_queue_def t_def)
        moreover have "open_io t a io"
          using io av ab by (simp add: open_io_def t_def)
        moreover have "sent t = sent s" "completions t = completions s"
          using same by (simp_all add: t_def)
        moreover have "p_on_send_complete p = f" "p_context p = c" "p_size p = len"
          by (simp_all add: p_def)
        ultimately have post: "open_io t a io \<and> fault t = fault s \<and> sent t = sent s \<and>
            completions t = completions s \<and>
            (\<exists>i v p. pending_queue t l (q @ [(i, v, p, take (unat len) buffer)]) \<and>
              p_on_send_complete p = f \<and> p_context p = c \<and> p_size p = len)"
          unfolding e_def by (auto simp: t_def)
        show ?thesis
          using False vfits bfits v b av ab cfg io live post unfolding add_pending_io_def open_io_def t_def p_def
          by (simp add: wp wp_so wp_so_malloc Let_def h h_free_fresh h_free_Cons h_put_fresh len)
      qed
    qed
  qed
qed

section \<open>What holds and what does not\<close>

lemma run_eqI: "(\<And>Q. wp m Q s = wp n Q t) \<Longrightarrow> run_state m s = run_state n t"
proof -
  assume "\<And>Q. wp m Q s = wp n Q t"
  from this [of "\<lambda>a u. run_state m s = (a, u)"] show ?thesis
    by (simp add: wp_def split: prod.splits)
qed

lemma open_io_history [simp]: "open_io (s\<lparr>history := h\<rparr>) a io = open_io s a io"
  by (simp add: open_io_def)

lemma history_same [simp]:
  "sent (s\<lparr>history := history s\<rparr>) = sent s" "completions (s\<lparr>history := history s\<rparr>) = completions s"
  by (simp_all add: sent_def completions_def calls_def)

lemma pending_queue_completion [simp]:
  "pending_queue (s\<lparr>history := (OnSendComplete f c x, r) # history s\<rparr>) l q = pending_queue s l q"
  by (simp add: pending_queue_def)

text \<open>
  C9. When the socket takes whole blocks, the loop of \<open>socketio_dowork\<close> over a queue of any length returns
  0, has given the socket the blocks of the queue in the order they were queued and each once, has
  reported every one of them complete, has emptied the list and has freed exactly the blocks of the
  queue; one more iteration than there are entries is enough.
\<close>

theorem send_queue_flush:
  assumes "fifo env" and "sends_all env" and "pending_queue s l q" and "open_io s a io"
    and "io_pending_list io = l" and "length q < n"
  shows "wp (send_queued_data cfg env n a)
      (\<lambda>r t. r = Some 0 \<and> pending_queue t l [] \<and> open_io t a io \<and> sent t = sent s @ map entry_data q \<and>
         completions t = completions s @ List.map_filter entry_completion q \<and>
         so_heap t = free_blocks (concat (map entry_blocks q)) (so_heap s) \<and> fault t = fault s) s"
  using assms by (rule send_queue_all)

text \<open>
  C10. On an open connection a send of at least one byte either answers \<open>MU_FAILURE\<close>, reports an error and
  leaves heap and queue as they were, or answers 0 and appends one entry with a copy of the caller's
  bytes and the callback, which is called with \<open>IO_SEND_OK\<close> although nothing has been sent; with
  \<open>send_queue_flush\<close> the same callback is called a second time when the bytes leave.
\<close>

theorem socketio_send_queues:
  assumes "fifo env" and "mu_failure cfg \<noteq> 0" and "pending_queue s l q" and "open_io s a io"
    and "io_pending_list io = l" and "0 < len" and "unat len \<le> length data" and "unat len < 2147483648"
    and "f \<noteq> 0"
  shows "wp (socketio_send cfg env a (Some data) len f c)
    (\<lambda>r t. open_io t a io \<and> fault t = fault s \<and> sent t = sent s \<and>
       (r = 0 \<and> completions t = completions s @ [(f, c, IO_SEND_OK)] \<and>
        (\<exists>i v p. pending_queue t l (q @ [(i, v, p, take (unat len) data)]) \<and>
          p_on_send_complete p = f \<and> p_context p = c) \<or>
        r = mu_failure cfg \<and> completions t = completions s @ [(f, c, IO_SEND_ERROR)] \<and>
        pending_queue t l q \<and> so_heap t = so_heap s)) s"
proof -
  have "wp (add_pending_io cfg env a data len f c)
    (\<lambda>r t. (r = 0 \<or> r = mu_failure cfg) \<and> open_io t a io \<and> fault t = fault s \<and> sent t = sent s \<and>
       completions t = completions s \<and>
       (r = 0 \<longrightarrow> (\<exists>i v p. pending_queue t l (q @ [(i, v, p, take (unat len) data)]) \<and>
          p_on_send_complete p = f \<and> p_context p = c \<and> p_size p = len)) \<and>
       (r \<noteq> 0 \<longrightarrow> pending_queue t l q \<and> so_heap t = so_heap s)) s"
    using assms by (intro add_pending) auto
  moreover have "h_get (so_heap s) a = Some (Instance io)" "a \<noteq> 0" "io_io_state io = IO_STATE_OPEN" "len \<noteq> 0"
    using assms(4,6) by (auto simp: open_io_def)
  ultimately show ?thesis
    unfolding socketio_send_def
    using assms(2,9) by (simp add: wp wp_so) (elim wp_mono, auto simp: wp)
qed

lemma mem_move_left:
  assumes "k \<le> length d"
  shows "mem_move d 0 k (length d - k) = Some (drop k d @ drop (length d - k) d)"
  using assms by (simp add: mem_move_def mem_read_def mem_write_def)

lemma entry_ok_set:
  assumes "entry_ok h (i, v, p, d)" and "length d' = length d"
  shows "entry_ok (h_put h (p_bytes p) (Bytes d')) (i, v, p, d')"
  using assms by auto

lemma send_part:
  assumes env: "fifo env" and q: "pending_queue s l ((i, v, p, d) # q)"
    and io: "open_io s a io" "io_pending_list io = l"
    and part: "\<And>h. ret (env h (SocketSend (tcp_id s) d)) = int k" "k < length d"
  obtains t where "\<And>Q. wp (send_queued_data cfg env (Suc n) a) Q s = wp (send_queued_data cfg env n a) Q t"
    and "pending_queue t l ((i, v, p, drop k d @ drop (length d - k) d) # q)" and "open_io t a io"
    and "sent t = sent s @ [d]" and "completions t = completions s" and "fault t = fault s"
    and "tcp_id t = tcp_id s"
proof -
  define d' where "d' = drop k d @ drop (length d - k) d"
  define h1 where "h1 = (ListGetHead l, env (history s) (ListGetHead l)) # history s"
  define h2 where "h2 = (ListItemValue i, env h1 (ListItemValue i)) # h1"
  define h3 where "h3 = (SocketSend (tcp_id s) d, env h2 (SocketSend (tcp_id s) d)) # h2"
  define t where "t = s\<lparr>history := h3, so_heap := h_put (so_heap s) (p_bytes p) (Bytes d')\<rparr>"
  have it: "items_distinct (history s)" "items_of (history s) l = (i, v) # map entry_item q"
    and ok: "entry_ok (so_heap s) (i, v, p, d)" "list_all (entry_ok (so_heap s)) q"
    and di: "distinct (concat (map entry_blocks ((i, v, p, d) # q)))"
    using q by (auto simp: pending_queue_def)
  have it3: "items_distinct h3" "items_of h3 l = (i, v) # map entry_item q"
    and it1: "items_distinct h1" "items_of h1 l = (i, v) # map entry_item q"
    using it by (simp_all add: h1_def h2_def h3_def)
  have i0: "i \<noteq> 0" using item_nonzero [OF it(1), of i v l] it(2) by simp
  have head: "ret (env (history s) (ListGetHead l)) = int i"
    using fifo_head [OF env(1)] it by simp
  have val: "ret (env h1 (ListItemValue i)) = int v"
    using fifo_item(1) [OF env(1) it1(1)] it1(2) by (metis list.set_intros(1))
  have sz: "sint (p_size p) = int (length d)"
    using ok(1) by (simp add: sint_small)
  have nz: "v \<noteq> 0" "p_bytes p \<noteq> 0"
    and live: "h_get (so_heap s) v = Some (Pending p)" "h_get (so_heap s) (p_bytes p) = Some (Bytes d)"
    and lt: "length d < 2147483648" and ld: "length d = unat (p_size p)"
    using ok(1) by auto
  have len: "nat (int (length d) mod 4294967296) = length d"
    using lt by simp
  have rest: "unat (p_size p - of_nat k) = length d - k"
    using part(2) lt unfolding ld by (subst unat_sub) (simp_all add: word_le_nat_alt unat_of_nat)
  have mv: "mem_move d 0 k (unat (p_size p - of_nat k)) = Some d'"
    unfolding rest d'_def using part(2) by (intro mem_move_left) simp
  show ?thesis
  proof
    show "wp (send_queued_data cfg env (Suc n) a) Q s = wp (send_queued_data cfg env n a) Q t" for Q
      using nz live io i0 head val part mv sz len unfolding open_io_def t_def
      by (simp add: wp wp_so wp_tcp_send h1_def [symmetric] h2_def [symmetric] h3_def [symmetric])
    have "list_all (entry_ok (so_heap t)) q"
      using ok(2) di unfolding list_all_iff t_def by (auto intro!: entry_ok_put)
    then show "pending_queue t l ((i, v, p, drop k d @ drop (length d - k) d) # q)"
      using it3 di entry_ok_set [OF ok(1), of d'] part(2)
      by (simp add: pending_queue_def t_def d'_def)
    show "open_io t a io" using io live by (auto simp: open_io_def t_def)
    show "sent t = sent s @ [d]" "completions t = completions s" "fault t = fault s" "tcp_id t = tcp_id s"
      by (simp_all add: t_def h1_def h2_def h3_def)
  qed
qed

lemma send_part_run:
  assumes "fifo env" and "pending_queue s l ((i, v, p, d) # q)" and "open_io s a io"
    and "io_pending_list io = l" and "\<And>h. ret (env h (SocketSend (tcp_id s) d)) = int k" and "k < length d"
  shows "\<exists>t. run_state (send_queued_data cfg env (Suc n) a) s = run_state (send_queued_data cfg env n a) t \<and>
    pending_queue t l ((i, v, p, drop k d @ drop (length d - k) d) # q) \<and> open_io t a io \<and>
    sent t = sent s @ [d]"
  using send_part [OF assms, of cfg n] run_eqI by metis

text \<open>
  When the socket takes only the first \<open>k\<close> bytes of the first block, its entry keeps its size: the
  rest is moved to the front and the last \<open>k\<close> bytes stay behind it, and the next round gives the socket
  a block of the full size again.
\<close>

lemma partial_send_repeats:
  assumes "fifo env" and "pending_queue s l ((i, v, p, d) # q)" and "open_io s a io"
    and "io_pending_list io = l" and "\<And>h. ret (env h (SocketSend (tcp_id s) d)) = int k" and "k < length d"
  shows "\<exists>t. run_state (send_queued_data cfg env (Suc n) a) s = run_state (send_queued_data cfg env n a) t \<and>
    pending_queue t l ((i, v, p, drop k d @ drop (length d - k) d) # q) \<and> sent t = sent s @ [d]"
  using send_part_run [OF assms] by metis

text \<open>
  If the socket answers every send with 0, the loop never ends: no number of iterations makes
  \<open>send_queued_data\<close> return while the queue has an entry.
\<close>

lemma zero_send_never_returns:
  assumes "fifo env" and "\<And>h i d. ret (env h (SocketSend i d)) = 0"
    and "pending_queue s l (e # q)" and "open_io s a io" and "io_pending_list io = l"
    and "0 < length (entry_data e)"
  shows "fst (run_state (send_queued_data cfg env n a) s) = None"
  using assms(3,4)
proof (induction n arbitrary: s)
  case 0
  then show ?case by simp
next
  case (Suc n)
  obtain i v p d where e: "e = (i, v, p, d)" by (cases e) auto
  have k: "\<And>h. ret (env h (SocketSend (tcp_id s) d)) = int 0" "0 < length d"
    using assms(2,6) e by simp_all
  obtain t where "run_state (send_queued_data cfg env (Suc n) a) s = run_state (send_queued_data cfg env n a) t"
    "pending_queue t l ((i, v, p, drop 0 d @ drop (length d - 0) d) # q)" "open_io t a io"
    using send_part_run [OF assms(1) Suc.prems(1)[unfolded e] Suc.prems(2) assms(5) k, of cfg n] by metis
  then show ?case using Suc.IH [of t] by (simp add: e del: send_queued_data.simps)
qed

end
