(* ===== verification/Socketio_Life.thy ===== *)
theory Socketio_Life
  imports Socketio_Spec
begin

text \<open>
  The life of an instance of \<open>socketio_openiot.c\<close>: destruction frees what it owns; a second open and a
  close that fails leave the connection in a wrong state.  The theory ends with an environment that
  behaves as the list library documents, at which the properties of the queue are applied.
\<close>

section \<open>Destruction\<close>

lemma clear_pending_all:
  assumes "fifo env"
  shows "pending_queue s l q \<Longrightarrow> h_get (so_heap s) a = Some (Instance io) \<Longrightarrow> io_pending_list io = l \<Longrightarrow>
    length q < n \<Longrightarrow>
    wp (clear_pending env n a)
      (\<lambda>r t. r = Some () \<and> h_get (so_heap t) a = Some (Instance io) \<and>
         so_heap t = free_blocks (concat (map entry_blocks q)) (so_heap s) \<and> fault t = fault s) s"
proof (induction q arbitrary: s n)
  case Nil
  from Nil.prems(4) obtain m where "n = Suc m" by (cases n) auto
  then show ?case
    using Nil.prems fifo_head [OF assms(1), of "history s" l]
    by (simp add: wp wp_so pending_queue_def)
next
  case (Cons e q)
  from Cons.prems(4) obtain m where n: "n = Suc m" "length q < m" by (cases n) auto
  obtain i v p d where e: "e = (i, v, p, d)" by (cases e) auto
  define h1 where "h1 = (ListGetHead l, env (history s) (ListGetHead l)) # history s"
  define h2 where "h2 = (ListItemValue i, env h1 (ListItemValue i)) # h1"
  define h3 where "h3 = (ListRemove l i, env h2 (ListRemove l i)) # h2"
  define t where "t = s\<lparr>so_heap := h_free (h_free (so_heap s) (p_bytes p)) v, history := h3\<rparr>"
  have it: "items_distinct (history s)" "items_of (history s) l = (i, v) # map entry_item q"
    and ok: "entry_ok (so_heap s) (i, v, p, d)" "list_all (entry_ok (so_heap s)) q"
    and di: "v \<noteq> p_bytes p" "v \<notin> set (concat (map entry_blocks q))"
      "p_bytes p \<notin> set (concat (map entry_blocks q))" "distinct (concat (map entry_blocks q))"
    using Cons.prems(1) by (auto simp: pending_queue_def e)
  have it2: "items_distinct h2" "items_of h2 l = (i, v) # map entry_item q"
    and it1: "items_distinct h1" "items_of h1 l = (i, v) # map entry_item q"
    using it by (simp_all add: h1_def h2_def)
  have i0: "i \<noteq> 0" using item_nonzero [OF it(1), of i v l] it(2) by simp
  have head: "ret (env (history s) (ListGetHead l)) = int i"
    using fifo_head [OF assms] it by simp
  have val: "ret (env h1 (ListItemValue i)) = int v"
    using fifo_item(1) [OF assms it1(1)] it1(2) by (metis list.set_intros(1))
  have rem: "ret (env h2 (ListRemove l i)) = 0"
    using fifo_item(2) [OF assms it2(1)] it2(2) by (metis list.set_intros(1))
  have nz: "v \<noteq> 0" "p_bytes p \<noteq> 0" "v \<noteq> p_bytes p"
    and live: "h_get (so_heap s) v = Some (Pending p)" "h_get (so_heap s) (p_bytes p) = Some (Bytes d)"
    using ok(1) di(1) by auto
  have step: "wp (clear_pending env (Suc m) a) Q s = wp (clear_pending env m a) Q t" for Q
    using nz live i0 head val Cons.prems(2,3) unfolding t_def
    by (simp add: wp wp_so h1_def [symmetric] h2_def [symmetric] h3_def [symmetric])
  have "pending_queue t l q"
    using it2 ok(2) di rem
    by (simp add: pending_queue_def t_def h3_def items_distinct_remove items_of_remove entries_ok_free)
  moreover have "h_get (so_heap t) a = Some (Instance io)"
    using Cons.prems(2) live by (auto simp: t_def)
  ultimately have "wp (clear_pending env m a)
      (\<lambda>r u. r = Some () \<and> h_get (so_heap u) a = Some (Instance io) \<and>
         so_heap u = free_blocks (concat (map entry_blocks q)) (so_heap t) \<and> fault u = fault t) t"
    using Cons.IH Cons.prems(3) n(2) by blast
  then show ?case
    unfolding n(1) step by (rule wp_mono) (auto simp: t_def e h_free_commute [of _ "p_bytes p" v])
qed

lemma h_get_free_blocks: "b \<notin> set bs \<Longrightarrow> h_get (free_blocks bs h) b = h_get h b"
  by (induction bs arbitrary: h) auto


section \<open>Connections\<close>

fun connect_call :: "so_call \<Rightarrow> bool" where
  "connect_call (SocketConnect i ip n port) = True"
| "connect_call c = False"

text \<open>
  When closing the socket fails, \<open>isConnected\<close> stays set: closing an open instance and opening it
  again succeeds, the instance is open on a new socket, and no connect has been called for that socket.
\<close>

lemma failed_close_fakes_connection:
  assumes "open_io s a io" and "tcp_id s \<noteq> IOT_SOCKET_ESOCK" and "\<And>h i. ret (env h (SocketClose i)) \<noteq> 0"
    and "\<And>h. 0 \<le> ret (env h (SocketCreate 1 1 1))"
    and "h_get (so_heap s) (io_hostname io) = Some (Bytes host)"
  shows "wp (do { socketio_close cfg env a 0 0; socketio_open cfg env a 0 0 f1 c1 f2 c2 })
    (\<lambda>r t. r = 0 \<and> (\<exists>io'. open_io t a io') \<and>
       (\<exists>h. tcp_id t = ret (env h (SocketCreate 1 1 1))) \<and>
       filter connect_call (calls t) = filter connect_call (calls s)) s"
proof -
  have "h_get (so_heap s) a = Some (Instance io)" "a \<noteq> 0" "io_io_state io = IO_STATE_OPEN" "io_tcp io"
    "tcp_connected s" "io_hostname io \<noteq> a"
    using assms(1,5) by (auto simp: open_io_def)
  then show ?thesis
    using assms(2-5) unfolding socketio_close_def socketio_open_def close_tcp_connection_def tcp_defs open_exit_def
    by (auto simp: wp wp_so open_io_def calls_def not_less)
qed

text \<open>
  Opening an instance that is open answers \<open>MU_FAILURE\<close>, but on the way out it closes the socket in
  use and drops the connection, while the state of the instance stays open.
\<close>

lemma reopen_drops_connection:
  assumes "open_io s a io" and "tcp_id s \<noteq> IOT_SOCKET_ESOCK" and "mu_failure cfg \<noteq> 0"
  shows "wp (socketio_open cfg env a 0 0 f1 c1 f2 c2)
    (\<lambda>r t. r = mu_failure cfg \<and>
       h_get (so_heap t) a = Some (Instance (io\<lparr>io_tcp := False\<rparr>)) \<and> io_io_state io = IO_STATE_OPEN \<and>
       calls t = calls s @ [SocketClose (tcp_id s)]) s"
proof -
  have "h_get (so_heap s) a = Some (Instance io)" "a \<noteq> 0" "io_io_state io = IO_STATE_OPEN" "io_tcp io"
    using assms(1) by (auto simp: open_io_def)
  then show ?thesis
    using assms(2,3) unfolding socketio_open_def open_exit_def tcpsocketconnection_destroy_def
    by (simp add: wp wp_so calls_def)
qed

section \<open>Witnesses\<close>

text \<open>The list library as it is documented, a socket that takes everything, and \<open>malloc\<close> far apart.\<close>

definition answer :: "int \<Rightarrow> reply" where
  "answer r = \<lparr>ret = r, outs = [], payload = []\<rparr>"

definition list_env :: "so_call env" where
  "list_env h c =
     (case c of
        ListGetHead l \<Rightarrow> answer (case items_of h l of [] \<Rightarrow> 0 | x # _ \<Rightarrow> int (fst x))
      | ListItemValue i \<Rightarrow> answer (case map_of (map snd (list_items h)) i of None \<Rightarrow> 0 | Some v \<Rightarrow> int v)
      | ListAdd l v \<Rightarrow> answer (int (Suc (foldr max (map (\<lambda>x. fst (snd x)) (list_items h)) 0)))
      | SocketSend i d \<Rightarrow> answer (int (length d))
      | Malloc n \<Rightarrow> \<lparr>ret = 0, outs = [int (4096 * Suc (length h))], payload = []\<rparr>
      | _ \<Rightarrow> answer 0)"

lemma foldr_max_less: "x \<in> set xs \<Longrightarrow> x < Suc (foldr max xs (0::nat))"
  by (induction xs) auto

lemma list_env_fifo: "fifo list_env"
proof -
  have "map_of (map snd (list_items h)) i = Some v"
    if "items_distinct h" "(l, i, v) \<in> set (list_items h)" for h l i v
    using that by (intro map_of_is_SomeI) (force simp: items_distinct_def comp_def)+
  moreover have "Suc (foldr max (map (\<lambda>x. fst (snd x)) (list_items h)) 0)
      \<notin> (\<lambda>x. fst (snd x)) ` set (list_items h)" for h
    using foldr_max_less [of _ "map (\<lambda>x. fst (snd x)) (list_items h)"] by fastforce
  ultimately show ?thesis
    by (simp add: fifo_def list_env_def answer_def nat_add_distrib Let_def)
qed

lemma list_env_sends: "sends_all list_env"
  by (simp add: sends_all_def list_env_def answer_def)

definition sample_io :: socket_io where
  "sample_io = no_socket_io\<lparr>io_tcp := True, io_hostname := 200, io_io_state := IO_STATE_OPEN,
     io_pending_list := 7\<rparr>"

definition sample_pending :: pending_io where
  "sample_pending = \<lparr>p_bytes = 400, p_size = 2, p_on_send_complete = 9, p_context = 5, p_list = 7\<rparr>"

definition sample_so :: so where
  "sample_so = \<lparr>history = [(ListAdd 7 300, answer 1)], fault = False, tcp_id = 3, tcp_connected = True,
     so_heap = [(100, 100, Instance sample_io), (200, 4, Bytes [104, 0]),
                (300, 20, Pending sample_pending), (400, 2, Bytes [1, 2])]\<rparr>"

lemma sample_queue: "pending_queue sample_so 7 [(1, 300, sample_pending, [1, 2])]"
  by (simp add: pending_queue_def sample_so_def sample_pending_def items_distinct_def items_of_def answer_def)

lemma sample_open: "open_io sample_so 100 sample_io"
  by (simp add: open_io_def sample_so_def sample_io_def)

lemma sample_list: "io_pending_list sample_io = 7"
  by (simp add: sample_io_def)

theorem send_queue_flush_witness:
  "wp (send_queued_data \<lparr>mu_failure = 1, xio_receive_buffer_size = 4\<rparr> list_env 2 100)
      (\<lambda>r t. r = Some 0 \<and> sent t = [[1, 2]] \<and> completions t = [(9, 5, IO_SEND_OK)] \<and>
         map fst (so_heap t) = [100, 200]) sample_so"
  using send_queue_flush [OF list_env_fifo list_env_sends sample_queue sample_open sample_list, of 2
      "\<lparr>mu_failure = 1, xio_receive_buffer_size = 4\<rparr>"]
  by (rule wp_mono)
    (simp_all add: sample_so_def sent_def completions_def calls_def map_filter_def sample_pending_def h_free_def)

theorem socketio_send_queues_witness:
  "wp (socketio_send \<lparr>mu_failure = 1, xio_receive_buffer_size = 4\<rparr> list_env 100 (Some [7, 8]) 2 9 5)
    (\<lambda>r t. open_io t 100 sample_io \<and> \<not> fault t) sample_so"
  using socketio_send_queues [OF list_env_fifo _ sample_queue sample_open sample_list, of
      "\<lparr>mu_failure = 1, xio_receive_buffer_size = 4\<rparr>" 2 "[7, 8]" 9 5]
  by (auto elim!: wp_mono simp: sample_so_def)

definition part_env :: "nat \<Rightarrow> so_call env" where
  "part_env k h c = (case c of SocketSend i d \<Rightarrow> answer (int k) | _ \<Rightarrow> list_env h c)"

lemma part_env_fifo: "fifo (part_env k)"
  using list_env_fifo by (simp add: fifo_def part_env_def)

theorem partial_send_repeats_witness:
  "\<exists>t. pending_queue t 7 [(1, 300, sample_pending, [2, 2])] \<and> sent t = [[1, 2]]"
proof -
  have part: "ret (part_env 1 h (SocketSend (tcp_id sample_so) [1, 2])) = int 1" for h
    by (simp add: part_env_def answer_def)
  have "sent sample_so = []"
    by (simp add: sample_so_def sent_def calls_def map_filter_def)
  then show ?thesis
    using partial_send_repeats [OF part_env_fifo sample_queue sample_open sample_list part,
        of "\<lparr>mu_failure = 1, xio_receive_buffer_size = 4\<rparr>" 1]
    by (auto simp del: send_queued_data.simps)
qed

theorem zero_send_never_returns_witness:
  "fst (run_state (send_queued_data \<lparr>mu_failure = 1, xio_receive_buffer_size = 4\<rparr> (part_env 0) 1000 100) sample_so) = None"
  by (rule zero_send_never_returns [OF part_env_fifo _ sample_queue sample_open sample_list])
    (simp_all add: part_env_def answer_def)


definition stuck_env :: "so_call env" where
  "stuck_env h c = (case c of SocketClose i \<Rightarrow> answer (- 1) | _ \<Rightarrow> answer 4)"

theorem failed_close_fakes_connection_witness:
  "wp (do { socketio_close \<lparr>mu_failure = 1, xio_receive_buffer_size = 4\<rparr> stuck_env 100 0 0;
            socketio_open \<lparr>mu_failure = 1, xio_receive_buffer_size = 4\<rparr> stuck_env 100 0 0 1 1 1 1 })
    (\<lambda>r t. r = 0 \<and> tcp_id t = 4 \<and> filter connect_call (calls t) = []) sample_so"
  using failed_close_fakes_connection [OF sample_open, of stuck_env "[104, 0]"
      "\<lparr>mu_failure = 1, xio_receive_buffer_size = 4\<rparr>" 1 1 1 1]
  by (auto elim!: wp_mono simp: sample_so_def sample_io_def stuck_env_def answer_def calls_def)

theorem reopen_drops_connection_witness:
  "wp (socketio_open \<lparr>mu_failure = 1, xio_receive_buffer_size = 4\<rparr> list_env 100 0 0 1 1 1 1)
    (\<lambda>r t. r = 1 \<and> h_get (so_heap t) 100 = Some (Instance (sample_io\<lparr>io_tcp := False\<rparr>))) sample_so"
  using reopen_drops_connection [OF sample_open, of
      "\<lparr>mu_failure = 1, xio_receive_buffer_size = 4\<rparr>" list_env 1 1 1 1]
  by (auto elim!: wp_mono simp: sample_so_def)

end
