(* ===== verification/Sys_Arch.thy ===== *)
theory Sys_Arch
  imports Extern
begin

text \<open>
  lwIP's operating system layer over CMSIS-RTOS,
  \<open>connectivity/lwip/lwip_cmsis_port/lwip_sys/src/sys_arch.c\<close>.

  The state is the static \<open>tick_freq\<close>; the kernel is the environment.  A function that stores a new
  object through its pointer argument returns the identifier it stores.  \<open>err\<close> has the values of \<open>err_t\<close>
  that the port uses; lwIP documents \<open>SYS_ARCH_TIMEOUT\<close> as \<open>0xffffffff\<close> and \<open>SYS_MBOX_EMPTY\<close> as the same value.
\<close>

section \<open>Time\<close>

record sys = "os_call world" +
  tick_freq :: u32

type_synonym 'a sys_m = "(sys, 'a) state"

datatype err = ERR_OK | ERR_MEM | ERR_IF | ERR_ARG | ERR_ISCONN | ERR_INPROGRESS

abbreviation (input) SYS_ARCH_TIMEOUT :: u32 where "SYS_ARCH_TIMEOUT \<equiv> 0xffffffff"
abbreviation (input) SYS_MBOX_EMPTY :: u32 where "SYS_MBOX_EMPTY \<equiv> 0xffffffff"

definition ms2tick :: "u32 \<Rightarrow> u32 \<Rightarrow> u32" where
  "ms2tick freq ms =
     (if ms = 0 then osWaitForever
      else if freq \<noteq> 0 then (ms * freq) div 1000 + (if (ms * freq) mod 1000 \<noteq> 0 then 1 else 0)
      else ms)"

definition tick2ms :: "u32 \<Rightarrow> u32 \<Rightarrow> u32" where
  "tick2ms freq tick = (if freq \<noteq> 0 then (tick * 1000) div freq else tick)"

definition sys_init :: "os_call env \<Rightarrow> unit sys_m" where
  "sys_init env =
     do {
       f \<leftarrow> call env OsKernelGetTickFreq;
       modify (\<lambda>s. s\<lparr>tick_freq := of_int f\<rparr>);
       f \<leftarrow> gets tick_freq;
       do_if (f = 1000) (modify (\<lambda>s. s\<lparr>tick_freq := 0\<rparr>))
     }"

definition sys_msleep :: "os_call env \<Rightarrow> u32 \<Rightarrow> unit sys_m" where
  "sys_msleep env ms = do { f \<leftarrow> gets tick_freq; tell env (OsDelay (ms2tick f ms)) }"

definition sys_now :: "os_call env \<Rightarrow> u32 sys_m" where
  "sys_now env = do { t \<leftarrow> call env OsKernelGetTickCount; f \<leftarrow> gets tick_freq; return (tick2ms f (of_int t)) }"

definition sys_jiffies :: "os_call env \<Rightarrow> u32 sys_m" where
  "sys_jiffies env = do { t \<leftarrow> call env OsKernelGetTickCount; return (of_int t) }"

section \<open>Mutexes and semaphores\<close>

definition sys_mutex_new :: "os_call env \<Rightarrow> (err \<times> int option) sys_m" where
  "sys_mutex_new env =
     do { i \<leftarrow> call env OsMutexNew; return (if i = 0 then (ERR_MEM, None) else (ERR_OK, Some i)) }"

definition sys_mutex_free :: "os_call env \<Rightarrow> int \<Rightarrow> unit sys_m" where
  "sys_mutex_free env m = tell env (OsMutexDelete m)"

definition sys_mutex_lock :: "os_call env \<Rightarrow> int \<Rightarrow> unit sys_m" where
  "sys_mutex_lock env m = tell env (OsMutexAcquire m osWaitForever)"

definition sys_mutex_unlock :: "os_call env \<Rightarrow> int \<Rightarrow> unit sys_m" where
  "sys_mutex_unlock env m = tell env (OsMutexRelease m)"

definition sys_sem_new :: "os_call env \<Rightarrow> byte \<Rightarrow> (err \<times> int option) sys_m" where
  "sys_sem_new env count =
     do { i \<leftarrow> call env (OsSemaphoreNew 1 (ucast count));
          return (if i = 0 then (ERR_MEM, None) else (ERR_OK, Some i)) }"

definition sys_sem_free :: "os_call env \<Rightarrow> int \<Rightarrow> unit sys_m" where
  "sys_sem_free env sem = tell env (OsSemaphoreDelete sem)"

definition sys_arch_sem_wait :: "os_call env \<Rightarrow> int \<Rightarrow> u32 \<Rightarrow> u32 sys_m" where
  "sys_arch_sem_wait env sem timeout =
     do { f \<leftarrow> gets tick_freq;
          status \<leftarrow> call env (OsSemaphoreAcquire sem (ms2tick f timeout));
          return (if status \<noteq> osOK then SYS_ARCH_TIMEOUT else 0) }"

definition sys_sem_signal :: "os_call env \<Rightarrow> int \<Rightarrow> unit sys_m" where
  "sys_sem_signal env sem = tell env (OsSemaphoreRelease sem)"

section \<open>Mailboxes\<close>

text \<open>\<open>LWIP_ASSERT\<close> stops the program.  A fetched message is stored through \<open>msg\<close> on success only.\<close>

definition sys_mbox_new :: "os_call env \<Rightarrow> int \<Rightarrow> (err \<times> int option) sys_m" where
  "sys_mbox_new env len =
     do { do_if (len < 0) crash;
          i \<leftarrow> call env (OsMessageQueueNew (of_int len) 4);
          return (if i = 0 then (ERR_MEM, None) else (ERR_OK, Some i)) }"

definition sys_mbox_free :: "os_call env \<Rightarrow> int \<Rightarrow> unit sys_m" where
  "sys_mbox_free env mbox = tell env (OsMessageQueueDelete mbox)"

definition sys_mbox_post :: "os_call env \<Rightarrow> int \<Rightarrow> int \<Rightarrow> unit sys_m" where
  "sys_mbox_post env mbox msg = tell env (OsMessageQueuePut mbox msg osWaitForever)"

definition sys_mbox_trypost :: "os_call env \<Rightarrow> int \<Rightarrow> int \<Rightarrow> err sys_m" where
  "sys_mbox_trypost env mbox msg =
     do { status \<leftarrow> call env (OsMessageQueuePut mbox msg 0);
          return (if status \<noteq> osOK then ERR_MEM else ERR_OK) }"

definition sys_mbox_trypost_fromisr :: "os_call env \<Rightarrow> int \<Rightarrow> int \<Rightarrow> err sys_m" where
  "sys_mbox_trypost_fromisr env mbox msg = sys_mbox_trypost env mbox msg"

definition message :: "reply \<Rightarrow> int option" where
  "message r = (case outs r of [] \<Rightarrow> None | m # _ \<Rightarrow> Some m)"

definition sys_arch_mbox_fetch :: "os_call env \<Rightarrow> int \<Rightarrow> u32 \<Rightarrow> (u32 \<times> int option) sys_m" where
  "sys_arch_mbox_fetch env mbox timeout =
     do { f \<leftarrow> gets tick_freq;
          r \<leftarrow> extern env (OsMessageQueueGet mbox (ms2tick f timeout));
          return (if ret r \<noteq> osOK then (SYS_ARCH_TIMEOUT, None) else (0, message r)) }"

definition sys_arch_mbox_tryfetch :: "os_call env \<Rightarrow> int \<Rightarrow> (u32 \<times> int option) sys_m" where
  "sys_arch_mbox_tryfetch env mbox =
     do { r \<leftarrow> extern env (OsMessageQueueGet mbox 0);
          return (if ret r \<noteq> osOK then (SYS_MBOX_EMPTY, None) else (0, message r)) }"

section \<open>Threads and critical sections\<close>

definition sys_thread_new :: "os_call env \<Rightarrow> nat \<Rightarrow> int \<Rightarrow> int \<Rightarrow> int \<Rightarrow> int sys_m" where
  "sys_thread_new env f arg stacksize prio =
     do { do_if (stacksize < 0) crash; call env (OsThreadNew f arg (of_int stacksize) prio) }"

definition sys_arch_protect :: "os_call env \<Rightarrow> int sys_m" where
  "sys_arch_protect env = call env OsKernelLock"

definition sys_arch_unprotect :: "os_call env \<Rightarrow> int \<Rightarrow> unit sys_m" where
  "sys_arch_unprotect env pval = tell env (OsKernelRestoreLock pval)"

section \<open>Waiting times\<close>

lemma ceiling_div:
  fixes n :: nat
  shows "(n + 999) div 1000 = (if n mod 1000 = 0 then n div 1000 else n div 1000 + 1)"
proof -
  have "(q * 1000 + r + 999) div 1000 = (if r = 0 then q else q + 1)" if "r < 1000" for q r :: nat
    using that by (intro div_nat_eqI) auto
  from this [of "n mod 1000" "n div 1000"] show ?thesis by simp
qed

text \<open>
  A wait of \<open>ms\<close> milliseconds, \<open>ms > 0\<close>, becomes the least number of ticks that is not shorter, as
  long as \<open>ms * freq\<close> fits in 32 bits; \<open>freq\<close> is the tick frequency of a kernel whose tick is not 1 ms.
\<close>

lemma ms2tick_not_early:
  assumes "0 < ms" and "0 < freq" and "unat ms * unat freq < 4294967296"
  shows "unat (ms2tick freq ms) = (unat ms * unat freq + 999) div 1000"
proof -
  have prod: "unat (ms * freq) = unat ms * unat freq"
    using assms(3) by (simp add: unat_mult_lem [THEN iffD1])
  have q: "unat ((ms * freq) div 1000) = unat ms * unat freq div 1000"
    "unat ((ms * freq) mod 1000) = unat ms * unat freq mod 1000"
    by (simp_all add: unat_div unat_mod prod)
  have zero: "(ms * freq) mod 1000 = 0 \<longleftrightarrow> unat ms * unat freq mod 1000 = 0"
    using q(2) by (metis unat_0 unat_eq_zero)
  have small: "unat ms * unat freq div 1000 < 4294967295"
    using assms(3) by (simp add: less_mult_imp_div_less)
  have up: "unat ((ms * freq) div 1000 + 1) = unat ms * unat freq div 1000 + 1"
    using small q(1) by (simp add: unat_word_ariths)
  have "(n + 999) div 1000 = (if n mod 1000 = 0 then n div 1000 else n div 1000 + 1)" for n :: nat
    by (rule ceiling_div)
  then show ?thesis
    using assms(1,2) q(1) up zero by (auto simp: ms2tick_def word_gt_0)
qed

theorem ms2tick_not_early_witness: "unat (ms2tick 100 15) = 2"
  using ms2tick_not_early [of 15 100] by simp

text \<open>
  The limits of the conversion: the product wraps, so a wait of 50 days with a 100 Hz tick shrinks
  to a few ticks; and 0 milliseconds wait for ever, also in \<open>sys_msleep\<close>.
\<close>

theorem sys_wait_limits:
  "ms2tick 100 42949673 = 1 \<and>
   wp (sys_msleep env 0) (\<lambda>_ t. calls t = calls s @ [OsDelay osWaitForever]) s"
  by (simp_all add: ms2tick_def sys_msleep_def wp calls_def)

section \<open>A mailbox is a bounded queue\<close>

text \<open>
  What message queue \<open>q\<close> holds after the calls \<open>h\<close>, and the documented behaviour of the kernel's
  queues with \<open>cap\<close> places: a put without waiting succeeds when there is room, a get answers with the
  oldest message, and a get without waiting fails when there is none.
\<close>

fun mq_contents :: "(os_call \<times> reply) list \<Rightarrow> int \<Rightarrow> int list" where
  "mq_contents [] q = []"
| "mq_contents ((c, r) # h) q =
     (case c of
        OsMessageQueuePut q' m t \<Rightarrow> if q' = q \<and> ret r = osOK then mq_contents h q @ [m] else mq_contents h q
      | OsMessageQueueGet q' t \<Rightarrow> if q' = q \<and> ret r = osOK then tl (mq_contents h q) else mq_contents h q
      | OsMessageQueueDelete q' \<Rightarrow> if q' = q then [] else mq_contents h q
      | _ \<Rightarrow> mq_contents h q)"

definition queue_env :: "nat \<Rightarrow> os_call env \<Rightarrow> bool" where
  "queue_env cap env \<longleftrightarrow>
     (\<forall>h q m. ret (env h (OsMessageQueuePut q m 0)) = osOK \<longleftrightarrow> length (mq_contents h q) < cap) \<and>
     (\<forall>h q t. mq_contents h q \<noteq> [] \<longrightarrow> ret (env h (OsMessageQueueGet q t)) = osOK \<and>
        outs (env h (OsMessageQueueGet q t)) = [hd (mq_contents h q)]) \<and>
     (\<forall>h q. mq_contents h q = [] \<longrightarrow> ret (env h (OsMessageQueueGet q 0)) \<noteq> osOK)"


definition small_queue :: "os_call env" where
  "small_queue h c =
     (case c of
        OsMessageQueuePut q m t \<Rightarrow>
          \<lparr>ret = (if length (mq_contents h q) < 2 then 0 else - 3), outs = [], payload = []\<rparr>
      | OsMessageQueueGet q t \<Rightarrow>
          (case mq_contents h q of [] \<Rightarrow> \<lparr>ret = - 3, outs = [], payload = []\<rparr>
           | m # ms \<Rightarrow> \<lparr>ret = 0, outs = [m], payload = []\<rparr>)
      | _ \<Rightarrow> \<lparr>ret = 0, outs = [], payload = []\<rparr>)"

lemma small_queue_env: "queue_env 2 small_queue"
  by (auto simp: queue_env_def small_queue_def split: list.split)


end
