(* ===== verification/Lwip_Memory.thy ===== *)
theory Lwip_Memory
  imports Sys_Arch
begin

text \<open>
  The network buffer manager over lwIP's pbufs,
  \<open>connectivity/lwip/lwip_cmsis_port/src/lwip_memory_manager.c\<close>.

  A buffer is the first pbuf of a chain; the chain is the list of its pbufs, reached from the address of
  the first.  The pbuf library is the environment: \<open>pbuf_alloc\<close> answers with the address of the first
  pbuf and, in \<open>outs\<close>, the payload address, length and total length of each.  What the library does to
  the bytes stays inside it.  The call type also has the calls of the network interface and of the stack.
\<close>

section \<open>Calls and state\<close>

datatype pbuf_type = PBUF_RAM | PBUF_POOL

datatype link_function = NetifSetLinkUp | NetifSetLinkDown

datatype lw_call =
    PbufAlloc u16 pbuf_type | PbufFree nat | PbufCopy nat nat | PbufTake nat "byte list"
  | PbufCopyPartial nat nat | PbufRef nat
  | MdhAddMulticast "byte list" | MdhRemoveMulticast "byte list" | MdhGetAlign | MdhGetMtu
  | MdhTransmit nat | MdhReceive nat | MdhPowerUp | MdhGetMacAddrSize | MdhGetMacAddr | MdhSetMacAddr "byte list"
  | TcpipCallback link_function | NetifInput nat
  | NetifIsUp | NetifIsLinkUp | NetifSetUp | NetifSetDown | NetifAdd | NetifSetDefault | NetifSetCallbacks
  | NetifCreateLinkLocal bool | DhcpStart | TcpipInit int
  | Ip4IsAny | Ip6IsValid nat | Ip6IsLinkLocal nat | IpIsLinkLocal4
  | StateCallback nat bool
  | KernelGetTickFreq

record pbuf =
  pb_payload :: u32
  pb_len :: u16
  pb_tot_len :: u16

record lw = "lw_call world" +
  pbufs :: "nat \<Rightarrow> pbuf list option"

type_synonym ('z, 'a) lw_m = "('z lw_scheme, 'a) state"

definition get_chain :: "nat \<Rightarrow> ('z, pbuf list) lw_m" where
  "get_chain p = do { ps \<leftarrow> gets pbufs;
     case ps p of Some (c # cs) \<Rightarrow> return (c # cs) | _ \<Rightarrow> do { crash; return [] } }"

definition set_chain :: "nat \<Rightarrow> pbuf list \<Rightarrow> ('z, unit) lw_m" where
  "set_chain p c = modify (\<lambda>s. s\<lparr>pbufs := (pbufs s)(p \<mapsto> c)\<rparr>)"

text \<open>\<open>LWIP_MEM_ALIGN_SIZE(PBUF_POOL_BUFSIZE)\<close> with the port's options, 1536 + 128 and an alignment of 4.\<close>

definition pool_bufsize :: u32 where
  "pool_bufsize = ((1536 + 128) + 4 - 1) AND NOT (4 - 1)"

section \<open>Lengths and alignment\<close>

definition count_total_align :: "u32 \<Rightarrow> u32 \<Rightarrow> u32" where
  "count_total_align len align =
     (let buffers = len div (pool_bufsize - align) in
      let buffers = (if len mod (pool_bufsize - align) \<noteq> 0 then buffers + 1 else buffers) in
      buffers * align)"

text \<open>The inner loop, then the loop over the chain.\<close>

fun tailing_len :: "u32 \<Rightarrow> pbuf list \<Rightarrow> u32" where
  "tailing_len n [] = n"
| "tailing_len n (p # ps) = tailing_len (n + ucast (pb_len p)) ps"

fun set_total_len :: "pbuf list \<Rightarrow> pbuf list" where
  "set_total_len [] = []"
| "set_total_len (p # ps) =
     p\<lparr>pb_tot_len := (if ps = [] then pb_len p else ucast (tailing_len (ucast (pb_len p)) ps))\<rparr> # set_total_len ps"

definition align_pbuf :: "u32 \<Rightarrow> pbuf \<Rightarrow> pbuf" where
  "align_pbuf align p =
     (let remainder = pb_payload p mod align;
          offset = align - remainder;
          offset = (if align \<le> offset then align else offset);
          payload = (if remainder \<noteq> 0 then pb_payload p + offset else pb_payload p) in
      p\<lparr>pb_payload := payload, pb_len := ucast (ucast (pb_len p) - align :: u32)\<rparr>)"

definition align_memory :: "pbuf list \<Rightarrow> u32 \<Rightarrow> pbuf list" where
  "align_memory c align = (if align = 0 then c else set_total_len (map (align_pbuf align) c))"

section \<open>The operations\<close>

fun chain_of :: "int list \<Rightarrow> pbuf list" where
  "chain_of (p # n # m # xs) =
     \<lparr>pb_payload = of_int p, pb_len = of_int n, pb_tot_len = of_int m\<rparr> # chain_of xs"
| "chain_of xs = []"

text \<open>\<open>pbuf_alloc\<close> takes a 16-bit length.\<close>

definition pbuf_alloc :: "lw_call env \<Rightarrow> u32 \<Rightarrow> pbuf_type \<Rightarrow> ('z, nat) lw_m" where
  "pbuf_alloc env len kind =
     do { r \<leftarrow> extern env (PbufAlloc (ucast len) kind);
          do_if (ret r > 0) (set_chain (nat (ret r)) (chain_of (outs r)));
          return (nat (ret r)) }"

definition lwip_mm_alloc_from_heap :: "lw_call env \<Rightarrow> u32 \<Rightarrow> u32 \<Rightarrow> ('z, nat) lw_m" where
  "lwip_mm_alloc_from_heap env len align =
     do { p \<leftarrow> pbuf_alloc env (len + align) PBUF_RAM;
          if p = 0 then return 0
          else do { c \<leftarrow> get_chain p; set_chain p (align_memory c align); return p } }"

definition lwip_mm_alloc_from_static_pool :: "lw_call env \<Rightarrow> u32 \<Rightarrow> u32 \<Rightarrow> ('z, nat) lw_m" where
  "lwip_mm_alloc_from_static_pool env len align =
     do { let total_align = count_total_align len align;
          p \<leftarrow> pbuf_alloc env (len + total_align) PBUF_POOL;
          if p = 0 then return 0
          else do { c \<leftarrow> get_chain p; set_chain p (align_memory c align); return p } }"

definition lwip_mm_get_static_pool_alloc_unit :: "u32 \<Rightarrow> u32" where
  "lwip_mm_get_static_pool_alloc_unit align = pool_bufsize - align"

definition lwip_mm_free :: "lw_call env \<Rightarrow> nat \<Rightarrow> ('z, unit) lw_m" where
  "lwip_mm_free env p = tell env (PbufFree p)"

definition lwip_mm_copy :: "lw_call env \<Rightarrow> nat \<Rightarrow> nat \<Rightarrow> ('z, unit) lw_m" where
  "lwip_mm_copy env source destination = tell env (PbufCopy destination source)"

definition lwip_mm_copy_to_buf :: "lw_call env \<Rightarrow> byte list \<Rightarrow> nat \<Rightarrow> ('z, nat) lw_m" where
  "lwip_mm_copy_to_buf env bytes p =
     do { r \<leftarrow> call env (PbufTake p bytes); return (if r = 0 then length bytes else 0) }"

definition lwip_mm_copy_from_buf :: "lw_call env \<Rightarrow> nat \<Rightarrow> nat \<Rightarrow> ('z, byte list) lw_m" where
  "lwip_mm_copy_from_buf env p len =
     do { r \<leftarrow> extern env (PbufCopyPartial p len); return (take (nat (ret r)) (payload r)) }"

definition lwip_mm_get_payload :: "nat \<Rightarrow> ('z, u32) lw_m" where
  "lwip_mm_get_payload p = do { c \<leftarrow> get_chain p; return (case c of [] \<Rightarrow> 0 | x # _ \<Rightarrow> pb_payload x) }"

definition lwip_mm_get_payload_len :: "nat \<Rightarrow> ('z, u32) lw_m" where
  "lwip_mm_get_payload_len p =
     do { c \<leftarrow> get_chain p; return (case c of [] \<Rightarrow> 0 | x # _ \<Rightarrow> ucast (pb_tot_len x)) }"

definition lwip_mm_set_payload_len :: "nat \<Rightarrow> u32 \<Rightarrow> ('z, unit) lw_m" where
  "lwip_mm_set_payload_len p len =
     do { c \<leftarrow> get_chain p;
          case c of [] \<Rightarrow> return ()
          | x # xs \<Rightarrow> set_chain p (set_total_len (x\<lparr>pb_len := ucast len\<rparr> # xs)) }"

section \<open>What an allocation gives\<close>

definition len_sum :: "pbuf list \<Rightarrow> nat" where
  "len_sum c = sum_list (map (\<lambda>p. unat (pb_len p)) c)"

lemma len_sum_simps [simp]: "len_sum [] = 0" "len_sum (p # c) = unat (pb_len p) + len_sum c"
  by (simp_all add: len_sum_def)

lemma u16_less: "unat (w :: u16) < 65536"
  by (rule order_less_le_trans [OF unsigned_less]) simp

lemma unat_u16 [simp]: "unat (ucast (w :: u16) :: u32) = unat w"
proof -
  have "unat w < 4294967296" by (rule less_trans [OF u16_less]) simp
  then show ?thesis by (simp only: unsigned_ucast_eq take_bit_eq_mod) (simp add: mod_less)
qed

lemma unat_tailing_len:
  "unat n + len_sum c < 4294967296 \<Longrightarrow> unat (tailing_len n c) = unat n + len_sum c"
proof (induction c arbitrary: n)
  case (Cons p c)
  have "unat (n + ucast (pb_len p)) = unat n + unat (pb_len p)"
    using Cons.prems by (simp add: unat_word_ariths)
  then show ?case using Cons by simp
qed simp

text \<open>Each pbuf's total length is the length of the chain that starts there.\<close>

fun totals_ok :: "pbuf list \<Rightarrow> bool" where
  "totals_ok [] = True"
| "totals_ok (p # c) = (unat (pb_tot_len p) = len_sum (p # c) \<and> totals_ok c)"

lemma len_sum_set_total [simp]: "len_sum (set_total_len c) = len_sum c"
  by (induction c) simp_all

lemma totals_set_total: "len_sum c < 65536 \<Longrightarrow> totals_ok (set_total_len c)"
proof (induction c)
  case (Cons p c)
  have "unat (tailing_len (ucast (pb_len p)) c) = unat (pb_len p) + len_sum c"
    using Cons.prems by (subst unat_tailing_len) simp_all
  then show ?case
    using Cons by (simp add: unsigned_ucast_eq take_bit_eq_mod)
qed simp

definition aligned_in :: "u32 \<Rightarrow> pbuf \<Rightarrow> pbuf \<Rightarrow> bool" where
  "aligned_in align p p' \<longleftrightarrow>
     unat (pb_payload p') mod unat align = 0 \<and> pb_payload p \<le> pb_payload p' \<and>
     unat (pb_payload p') + unat (pb_len p') \<le> unat (pb_payload p) + unat (pb_len p) \<and>
     unat (pb_len p') = unat (pb_len p) - unat align"

lemma align_pbuf_ok:
  assumes "0 < align" and "unat align \<le> unat (pb_len p)" and "unat (pb_payload p) + unat align < 4294967296"
  shows "aligned_in align p (align_pbuf align p)"
proof -
  define a where "a = unat align"
  define x where "x = unat (pb_payload p)"
  have a: "0 < a" using assms(1) by (simp add: a_def word_less_nat_alt)
  have r: "unat (pb_payload p mod align) = x mod a" "x mod a < a"
    using a by (simp_all add: unat_mod a_def x_def)
  have off: "unat (align - pb_payload p mod align) = a - x mod a"
    using r by (subst unat_sub) (simp_all add: word_le_nat_alt a_def less_imp_le)
  have len: "unat (ucast (ucast (pb_len p) - align :: u32) :: u16) = unat (pb_len p) - a"
  proof -
    have "unat (ucast (pb_len p) - align :: u32) = unat (pb_len p) - a"
      using assms(2) by (subst unat_sub) (simp_all add: word_le_nat_alt a_def)
    moreover have "unat (pb_len p) - a < 65536"
      by (rule le_less_trans [OF diff_le_self u16_less])
    ultimately show ?thesis by (simp add: unsigned_ucast_eq take_bit_eq_mod)
  qed
  show ?thesis
  proof (cases "x mod a = 0")
    case True
    then have "pb_payload p mod align = 0" using r(1) by (simp add: unat_eq_zero)
    then show ?thesis
      using True assms(2) len by (simp add: aligned_in_def align_pbuf_def Let_def a_def x_def)
  next
    case False
    then have nz: "pb_payload p mod align \<noteq> 0" using r(1) by (metis unat_0)
    have lt: "\<not> align \<le> align - pb_payload p mod align"
      using False r off by (simp add: word_le_nat_alt a_def)
    have sum: "unat (pb_payload p + (align - pb_payload p mod align)) = x + (a - x mod a)"
      using assms(3) off by (simp add: unat_word_ariths x_def a_def)
    have "x + (a - x mod a) = a * (x div a) + a"
      using r(2) mult_div_mod_eq [of a x] by linarith
    then have "(x + (a - x mod a)) mod a = 0" by simp
    moreover have "unat (pb_payload (align_pbuf align p)) = x + (a - x mod a)"
      "unat (pb_len (align_pbuf align p)) = unat (pb_len p) - a"
      using nz lt sum len by (simp_all add: align_pbuf_def Let_def)
    moreover have "x + (a - x mod a) + (unat (pb_len p) - a) \<le> x + unat (pb_len p)"
      using assms(2) a_def by linarith
    ultimately show ?thesis
      unfolding aligned_in_def word_le_nat_alt a_def [symmetric] x_def [symmetric] by simp
  qed
qed

lemma pool_bufsize_value: "pool_bufsize = 1664"
  by (simp add: pool_bufsize_def)

lemma set_total_same: "list_all2 (\<lambda>p q. pb_payload q = pb_payload p \<and> pb_len q = pb_len p) c (set_total_len c)"
  by (induction c) simp_all

lemma aligned_in_cong:
  "aligned_in a p q \<Longrightarrow> pb_payload q' = pb_payload q \<Longrightarrow> pb_len q' = pb_len q \<Longrightarrow> aligned_in a p q'"
  by (simp add: aligned_in_def)

lemma align_all:
  assumes "0 < align"
    and "list_all (\<lambda>p. unat align \<le> unat (pb_len p) \<and> unat (pb_payload p) + unat align < 4294967296) c"
  shows "list_all2 (aligned_in align) c (map (align_pbuf align) c)"
  using assms(2) by (induction c) (simp_all add: align_pbuf_ok [OF assms(1)])

lemma aligned_len_sum:
  "list_all2 (aligned_in align) c c' \<Longrightarrow> list_all (\<lambda>p. unat align \<le> unat (pb_len p)) c \<Longrightarrow>
    len_sum c' + length c * unat align = len_sum c"
  by (induction c c' rule: list_all2_induct) (auto simp: aligned_in_def)

lemma align_memory_ok:
  assumes "0 < align" and "len_sum c < 65536"
    and "list_all (\<lambda>p. unat align \<le> unat (pb_len p) \<and> unat (pb_payload p) + unat align < 4294967296) c"
  shows "list_all2 (aligned_in align) c (align_memory c align) \<and> totals_ok (align_memory c align)"
proof
  have a: "list_all2 (aligned_in align) c (map (align_pbuf align) c)"
    using assms(1,3) by (rule align_all)
  then show "list_all2 (aligned_in align) c (align_memory c align)"
    using set_total_same [of "map (align_pbuf align) c"] assms(1) unfolding align_memory_def
    by (auto simp: list_all2_conv_all_nth intro: aligned_in_cong)
  have "len_sum (map (align_pbuf align) c) \<le> len_sum c"
    using aligned_len_sum [OF a] assms(3) by (simp add: list_all_iff)
  then show "totals_ok (align_memory c align)"
    using assms(1,2) by (simp add: align_memory_def totals_set_total word_gt_0)
qed

text \<open>
  C13. Aligning a chain whose pbufs have room for it: every payload becomes a multiple of the alignment,
  stays inside its own pbuf and gives up exactly \<open>align\<close> bytes, and every total length is again the
  length of the chain that starts there.
\<close>

theorem align_memory_inside:
  assumes "0 < align" and "len_sum c < 65536"
    and "list_all (\<lambda>p. unat align \<le> unat (pb_len p) \<and> unat (pb_payload p) + unat align < 4294967296) c"
  shows "list_all2 (aligned_in align) c (align_memory c align) \<and> totals_ok (align_memory c align)"
  using assms by (rule align_memory_ok)

theorem align_memory_inside_witness:
  "list_all2 (aligned_in 8) [\<lparr>pb_payload = 1001, pb_len = 100, pb_tot_len = 100\<rparr>]
     (align_memory [\<lparr>pb_payload = 1001, pb_len = 100, pb_tot_len = 100\<rparr>] 8)"
  using align_memory_inside [of 8 "[\<lparr>pb_payload = 1001, pb_len = 100, pb_tot_len = 100\<rparr>]"]
  by (simp add: len_sum_def)

text \<open>
  A chain from the pool as lwIP documents it: every pbuf but the last is full, the last is not empty.
\<close>

fun pool_chain :: "pbuf list \<Rightarrow> bool" where
  "pool_chain [] = False"
| "pool_chain [p] = (0 < unat (pb_len p) \<and> unat (pb_len p) \<le> 1664 \<and> unat (pb_payload p) + 1664 < 4294967296)"
| "pool_chain (p # c) = (unat (pb_len p) = 1664 \<and> unat (pb_payload p) + 1664 < 4294967296 \<and> pool_chain c)"

lemma pool_chain_bounds:
  "pool_chain c \<Longrightarrow> (length c - 1) * 1664 < len_sum c \<and> len_sum c \<le> length c * 1664"
  by (induction c rule: pool_chain.induct) auto

lemma pool_chain_room:
  "pool_chain c \<Longrightarrow> len_sum c > (length c - 1) * 1664 + a \<Longrightarrow> a < 1664 \<Longrightarrow>
    list_all (\<lambda>p. a \<le> unat (pb_len p) \<and> unat (pb_payload p) + a < 4294967296) c"
  by (induction c rule: pool_chain.induct) auto

text \<open>The number of pbufs that \<open>count_total_align\<close> reckons with.\<close>

lemma count_buffers:
  assumes "0 < len" and "align < 1664" and "unat len < 65536"
  obtains k where "unat (count_total_align len align) = k * unat align" and "0 < k"
    and "(k - 1) * (1664 - unat align) < unat len" and "unat len \<le> k * (1664 - unat align)"
proof -
  define d where "d = 1664 - unat align"
  define n where "n = unat len"
  define k where "k = n div d + (if n mod d \<noteq> 0 then 1 else 0)"
  have al: "unat align < 1664" using assms(2) by (simp add: word_less_nat_alt)
  have d: "0 < d" and n: "0 < n" using al assms(1) by (simp_all add: d_def n_def word_less_nat_alt)
  have ud: "unat (pool_bufsize - align) = d"
    using assms(2) unfolding pool_bufsize_value d_def by (subst unat_sub) (simp_all add: less_imp_le)
  have q: "unat (len div (pool_bufsize - align)) = n div d" "unat (len mod (pool_bufsize - align)) = n mod d"
    by (simp_all add: unat_div unat_mod ud n_def)
  have nd: "n = d * (n div d) + n mod d" and r: "n mod d < d" using d by simp_all
  have kn: "k \<le> n"
  proof -
    have "n div d \<le> d * (n div d)" using d by simp
    then have "n mod d \<noteq> 0 \<Longrightarrow> n div d + 1 \<le> n" and "n div d \<le> n" using nd by linarith+
    then show ?thesis by (simp add: k_def)
  qed
  have "k * unat align < 65536 * 1664"
    using kn al assms(3) unfolding n_def by (intro mult_strict_mono) simp_all
  then have big: "k * unat align < 4294967296" by simp
  have b: "unat (if len mod (pool_bufsize - align) \<noteq> 0 then len div (pool_bufsize - align) + 1
      else len div (pool_bufsize - align)) = k"
  proof (cases "n mod d = 0")
    case True
    then have "len mod (pool_bufsize - align) = 0" using q(2) by (simp add: unat_eq_zero)
    then show ?thesis using True q(1) by (simp add: k_def)
  next
    case False
    then have "len mod (pool_bufsize - align) \<noteq> 0" using q(2) by (metis unat_0)
    moreover have "unat (len div (pool_bufsize - align) + 1) = n div d + 1"
      using kn False assms(3) q(1) by (simp add: unat_word_ariths k_def n_def)
    ultimately show ?thesis using False by (simp add: k_def)
  qed
  have lt: "n mod d \<noteq> 0 \<Longrightarrow> d * (n div d) < n" and ge: "n \<le> d + d * (n div d)" using nd r by linarith+
  show ?thesis
  proof
    show "unat (count_total_align len align) = k * unat align"
      using big unfolding count_total_align_def Let_def by (simp only: unat_word_ariths b) simp
    show "0 < k" using n nd by (auto simp: k_def)
    show "(k - 1) * (1664 - unat align) < unat len"
      using n nd lt unfolding k_def d_def [symmetric] n_def [symmetric] by (auto simp: algebra_simps)
    show "unat len \<le> k * (1664 - unat align)"
      using nd ge unfolding k_def d_def [symmetric] n_def [symmetric] by (auto simp: algebra_simps)
  qed
qed

text \<open>
  Allocating \<open>len\<close> bytes from the static pool: when the chain the library answers with is as
  documented and holds what was asked for, it has exactly the pbufs that \<open>count_total_align\<close> reckons
  with, every payload is aligned inside its own pbuf, and the buffer offers exactly \<open>len\<close> bytes.
\<close>

lemma static_pool_exact:
  assumes "0 < len" and "0 < align" and "align < 1664"
    and "unat len + unat (count_total_align len align) < 65536"
    and "r = env (history s) (PbufAlloc (ucast (len + count_total_align len align)) PBUF_POOL)"
    and "0 < ret r" and "pool_chain (chain_of (outs r))"
    and "len_sum (chain_of (outs r)) = unat len + unat (count_total_align len align)"
  shows "wp (do { p \<leftarrow> lwip_mm_alloc_from_static_pool env len align; n \<leftarrow> lwip_mm_get_payload_len p; return (p, n) })
    (\<lambda>(p, n) t. n = len \<and> fault t = fault s \<and>
       (\<exists>c. pbufs t p = Some c \<and> list_all2 (aligned_in align) (chain_of (outs r)) c \<and> totals_ok c)) s"
proof -
  define c where "c = chain_of (outs r)"
  define a where "a = unat align"
  have al: "a < 1664" "0 < a" using assms(2,3) by (simp_all add: a_def word_less_nat_alt)
  obtain k where k: "unat (count_total_align len align) = k * a" "0 < k" "(k - 1) * (1664 - a) < unat len"
    "unat len \<le> k * (1664 - a)"
    using count_buffers [of len align] assms(1,3,4) unfolding a_def by auto
  have sum: "len_sum c = unat len + k * a" using assms(8) k(1) by (simp add: c_def)
  have pc: "pool_chain c" using assms(7) by (simp add: c_def)
  have dist: "k * (1664 - a) + k * a = k * 1664" "(k - 1) * (1664 - a) + (k - 1) * a = (k - 1) * 1664"
    using al(1) by (simp_all flip: distrib_left)
  have "k * a = (k - 1) * a + a" using k(2) by (cases k) simp_all
  then have lo: "(k - 1) * 1664 + a < len_sum c" and hi: "len_sum c \<le> k * 1664"
    using sum k(3,4) dist by linarith+
  have len: "length c = k"
  proof -
    have "(length c - 1) * 1664 < k * 1664" "(k - 1) * 1664 < length c * 1664"
      using pool_chain_bounds [OF pc] lo hi by linarith+
    then show ?thesis using k(2) pc by (cases c) auto
  qed
  have room: "list_all (\<lambda>p. a \<le> unat (pb_len p) \<and> unat (pb_payload p) + a < 4294967296) c"
    using pool_chain_room [OF pc, of a] lo al(1) len by simp
  have am: "list_all2 (aligned_in align) c (align_memory c align)" "totals_ok (align_memory c align)"
    using align_memory_ok [OF assms(2), of c] room sum assms(4) k(1) by (simp_all add: a_def)
  have "len_sum (align_memory c align) = unat len"
    using aligned_len_sum [OF am(1)] room sum len by (simp add: a_def list_all_iff)
  moreover obtain x xs where x: "align_memory c align = x # xs"
    using am(1) pc by (cases c; cases "align_memory c align") auto
  ultimately have "unat (pb_tot_len x) = unat len" using am(2) by simp
  then have "(ucast (pb_tot_len x) :: u32) = len" by (simp add: word_unat_eq_iff)
  moreover obtain y ys where y: "chain_of (outs r) = y # ys" using assms(7) by (cases "chain_of (outs r)") auto
  ultimately show ?thesis
    using am x assms(6) unfolding c_def
    by (simp add: lwip_mm_alloc_from_static_pool_def lwip_mm_get_payload_len_def pbuf_alloc_def get_chain_def
      set_chain_def wp Let_def assms(5) [symmetric])
qed

definition one_pbuf :: "lw_call env" where
  "one_pbuf h c = \<lparr>ret = 4096, outs = [5001, 104, 104], payload = []\<rparr>"

theorem static_pool_exact_witness:
  "wp (do { p \<leftarrow> lwip_mm_alloc_from_static_pool one_pbuf 100 4; n \<leftarrow> lwip_mm_get_payload_len p; return (p, n) })
    (\<lambda>(p, n) t. n = 100) \<lparr>history = [], fault = False, pbufs = (\<lambda>_. None)\<rparr>"
proof -
  have count: "count_total_align 100 4 = 4"
    by (simp add: count_total_align_def pool_bufsize_def)
  show ?thesis
    using static_pool_exact [of 100 4 "\<lparr>ret = 4096, outs = [5001, 104, 104], payload = []\<rparr>" one_pbuf
        "\<lparr>history = [], fault = False, pbufs = (\<lambda>_. None)\<rparr>"]
    by (auto elim!: wp_mono simp: count one_pbuf_def len_sum_def)
qed

end
