(* ===== verification/Lwip_Netif.thy ===== *)
theory Lwip_Netif
  imports Lwip_Memory
begin

unbundle bit_operations_syntax

text \<open>
  lwIP's Ethernet interface over the Ethernet driver,
  \<open>connectivity/lwip/lwip_cmsis_port/src/lwip_emac_netif.c\<close>.

  The state is the one \<open>netif_context_t\<close>, with the fields of its \<open>struct netif\<close> that the code sets, on
  top of the pbufs, and the state of \<open>sys_arch.c\<close> inside it.  Preprocessor options are a configuration
  record, so the theorems hold for every build.  lwIP and the driver are the environment; the answer 0
  of a driver call stands for \<open>MDH_EMAC_STATUS_NO_ERROR\<close> and of a lwIP call for \<open>ERR_OK\<close>.
\<close>

section \<open>State\<close>

datatype connection_status =
    CONNECTION_STATUS_DISCONNECTED | CONNECTION_STATUS_CONNECTING
  | CONNECTION_STATUS_GLOBAL_UP | CONNECTION_STATUS_LOCAL_UP

record netif =
  nif_flags :: byte
  nif_hostname :: string
  nif_name :: string
  nif_mtu :: u16
  nif_hwaddr_len :: byte
  nif_hwaddr :: "byte list"
  nif_output :: bool
  nif_output_ip6 :: bool
  nif_igmp_filter :: bool
  nif_mld_filter :: bool
  nif_linkoutput :: bool

record netif_context = lw +
  has_emac :: bool
  lwip_netif :: netif
  receive_semaphore :: int
  rx_buffer :: nat
  connected :: connection_status
  dhcp_has_to_be_set :: bool
  dhcp_started :: bool
  has_addr_state :: byte
  network_state_callback :: nat
  netif_tick_freq :: u32
  sys_state :: sys

record lwip_options =
  LWIP_IPV4 :: bool
  LWIP_IPV6 :: bool
  LWIP_IGMP :: bool
  LWIP_DHCP :: bool
  LWIP_NETIF_HOSTNAME :: bool
  PREF_IPV4 :: bool
  PREF_ADDR_TIMEOUT :: bool
  BOTH_ADDR_TIMEOUT :: bool
  LWIP_IPV6_NUM_ADDRESSES :: nat

type_synonym 'a nc_m = "(netif_context, 'a) state"

text \<open>A call into \<open>sys_arch.c\<close>.\<close>

definition in_sys :: "'a sys_m \<Rightarrow> 'a nc_m" where
  "in_sys m = State (\<lambda>s. let (a, x) = run_state m (sys_state s) in (a, s\<lparr>sys_state := x\<rparr>))"

section \<open>Multicast filters\<close>

datatype mac_filter_action = NETIF_DEL_MAC_FILTER | NETIF_ADD_MAC_FILTER | OTHER_MAC_FILTER_ACTION

text \<open>\<open>be32_at\<close> of an address given by its bytes in network order.\<close>

definition be32_at :: "byte list \<Rightarrow> u32" where
  "be32_at b = (case b of [b0, b1, b2, b3] \<Rightarrow>
     push_bit 24 (ucast b0) OR push_bit 16 (ucast b1) OR push_bit 8 (ucast b2) OR ucast b3 | _ \<Rightarrow> 0)"

definition emac_igmp_mac_filter :: "lw_call env \<Rightarrow> byte list \<Rightarrow> mac_filter_action \<Rightarrow> err nc_m" where
  "emac_igmp_mac_filter env grp action =
     (if action = OTHER_MAC_FILTER_ACTION then return ERR_ARG
      else do {
        let group23 = be32_at grp AND 0x007FFFFF;
        let addr = [0x01, 0x00, 0x5e, ucast (drop_bit 16 group23), ucast (drop_bit 8 group23), ucast group23];
        r \<leftarrow> call env (if action = NETIF_ADD_MAC_FILTER then MdhAddMulticast addr else MdhRemoveMulticast addr);
        return (if r = 0 then ERR_OK else ERR_IF)
      })"

text \<open>\<open>grp\<close> is the last word of the IPv6 address.\<close>

definition emac_mld_mac_filter :: "lw_call env \<Rightarrow> byte list \<Rightarrow> mac_filter_action \<Rightarrow> err nc_m" where
  "emac_mld_mac_filter env grp action =
     (if action = OTHER_MAC_FILTER_ACTION then return ERR_ARG
      else do {
        let group32 = be32_at grp;
        let addr = [0x33, 0x33, ucast (drop_bit 24 group32), ucast (drop_bit 16 group32),
                    ucast (drop_bit 8 group32), ucast group32];
        r \<leftarrow> call env (if action = NETIF_ADD_MAC_FILTER then MdhAddMulticast addr else MdhRemoveMulticast addr);
        return (if r = 0 then ERR_OK else ERR_IF)
      })"

section \<open>Callbacks of the driver\<close>

definition signal_receive :: "os_call env \<Rightarrow> unit nc_m" where
  "signal_receive os = do { m \<leftarrow> gets receive_semaphore; in_sys (sys_sem_signal os m) }"

definition ethernetif_input :: "os_call env \<Rightarrow> bool \<Rightarrow> unit nc_m" where
  "ethernetif_input os receive_done = do_if receive_done (signal_receive os)"

text \<open>\<open>LWIP_ERROR\<close> with an empty handler only logs.\<close>

definition ethernetif_sent :: "lw_call env \<Rightarrow> bool \<Rightarrow> nat \<Rightarrow> unit nc_m" where
  "ethernetif_sent env transfer_error buffer = lwip_mm_free env buffer"

definition emac_state_change :: "lw_call env \<Rightarrow> bool \<Rightarrow> unit nc_m" where
  "emac_state_change env link_status_change =
     do_if link_status_change
       (do { up \<leftarrow> call env NetifIsLinkUp;
             tell env (TcpipCallback (if up \<noteq> 0 then NetifSetLinkDown else NetifSetLinkUp)) })"

section \<open>Output and input\<close>

definition ethernetif_output :: "lw_call env \<Rightarrow> nat \<Rightarrow> err nc_m" where
  "ethernetif_output env p =
     do {
       c \<leftarrow> get_chain p;
       buf \<leftarrow>
         (if length c > 1 then
            do {
              n \<leftarrow> lwip_mm_get_payload_len p;
              al \<leftarrow> call env MdhGetAlign;
              buf \<leftarrow> lwip_mm_alloc_from_heap env n (of_int al);
              do_if (buf \<noteq> 0) (lwip_mm_copy env p buf);
              return buf
            }
          else do { tell env (PbufRef p); return p });
       if buf = 0 then return ERR_IF
       else do { r \<leftarrow> call env (MdhTransmit buf); return (if r = 0 then ERR_OK else ERR_IF) }
     }"

text \<open>
  One round of the loop takes one unit of fuel.  What a reception leaves in the buffer's length is in the
  answer's \<open>outs\<close>.
\<close>

definition receive_into :: "lw_call env \<Rightarrow> nat \<Rightarrow> int nc_m" where
  "receive_into env buf =
     do { r \<leftarrow> extern env (MdhReceive buf);
          do_if (outs r \<noteq> []) (set_chain buf (chain_of (outs r)));
          return (ret r) }"

fun process_loop :: "lw_call env \<Rightarrow> nat \<Rightarrow> u32 \<Rightarrow> unit option nc_m" where
  "process_loop env 0 mtu_size = return None"
| "process_loop env (Suc fuel) mtu_size =
     do {
       rx \<leftarrow> gets rx_buffer;
       lwip_mm_set_payload_len rx mtu_size;
       status \<leftarrow> receive_into env rx;
       n \<leftarrow> (if status \<noteq> 0 then return 0 else lwip_mm_get_payload_len rx);
       if status \<noteq> 0 \<or> n = 0 then return (Some ())
       else do {
         n \<leftarrow> lwip_mm_get_payload_len rx;
         al \<leftarrow> call env MdhGetAlign;
         buf \<leftarrow> lwip_mm_alloc_from_static_pool env n (of_int al);
         if buf = 0 then return (Some ())
         else do {
           lwip_mm_copy env rx buf;
           accepted \<leftarrow> call env (NetifInput buf);
           do_if (accepted \<noteq> 0) (lwip_mm_free env buf);
           process_loop env fuel mtu_size
         }
       }
     }"

definition ethernetif_process_input :: "lw_call env \<Rightarrow> nat \<Rightarrow> unit option nc_m" where
  "ethernetif_process_input env fuel =
     do { mtu_size \<leftarrow> call env MdhGetMtu; process_loop env fuel (of_int mtu_size) }"

section \<open>Initialisation\<close>

abbreviation (input) NETIF_FLAG_BROADCAST :: byte where "NETIF_FLAG_BROADCAST \<equiv> 0x02"
abbreviation (input) NETIF_FLAG_ETHARP :: byte where "NETIF_FLAG_ETHARP \<equiv> 0x08"
abbreviation (input) NETIF_FLAG_ETHERNET :: byte where "NETIF_FLAG_ETHERNET \<equiv> 0x10"
abbreviation (input) NETIF_FLAG_IGMP :: byte where "NETIF_FLAG_IGMP \<equiv> 0x20"
abbreviation (input) NETIF_FLAG_MLD6 :: byte where "NETIF_FLAG_MLD6 \<equiv> 0x40"

definition set_netif :: "(netif \<Rightarrow> netif) \<Rightarrow> unit nc_m" where
  "set_netif f = modify (\<lambda>s. s\<lparr>lwip_netif := f (lwip_netif s)\<rparr>)"

definition ethernetif_init :: "lwip_options \<Rightarrow> lw_call env \<Rightarrow> err nc_m" where
  "ethernetif_init opt env =
     do {
       f \<leftarrow> call env KernelGetTickFreq;
       modify (\<lambda>s. s\<lparr>netif_tick_freq := of_int f\<rparr>);
       modify (\<lambda>s. s\<lparr>has_emac := True\<rparr>);
       set_netif (nif_flags_update (\<lambda>_. NETIF_FLAG_BROADCAST OR NETIF_FLAG_ETHARP OR NETIF_FLAG_ETHERNET));
       n \<leftarrow> call env MdhGetMtu;
       al \<leftarrow> call env MdhGetAlign;
       rx \<leftarrow> lwip_mm_alloc_from_heap env (of_int n) (of_int al);
       modify (\<lambda>s. s\<lparr>rx_buffer := rx\<rparr>);
       if rx = 0 then return ERR_IF
       else do {
         p \<leftarrow> call env MdhPowerUp;
         if p \<noteq> 0 then do { lwip_mm_free env rx; return ERR_IF }
         else do {
           do_if (LWIP_NETIF_HOSTNAME opt) (set_netif (nif_hostname_update (\<lambda>_. ''lwip'')));
           set_netif (nif_name_update (\<lambda>_. ''en''));
           n \<leftarrow> call env MdhGetMtu;
           set_netif (nif_mtu_update (\<lambda>_. of_int n));
           k \<leftarrow> call env MdhGetMacAddrSize;
           set_netif (nif_hwaddr_len_update (\<lambda>_. of_int k));
           g \<leftarrow> extern env MdhGetMacAddr;
           do_if (ret g = 0) (set_netif (nif_hwaddr_update (\<lambda>_. payload g)));
           synced \<leftarrow>
             (if ret g = 0 then return True
              else do { f \<leftarrow> gets lwip_netif; r \<leftarrow> call env (MdhSetMacAddr (nif_hwaddr f)); return (r = 0) });
           if \<not> synced then do { lwip_mm_free env rx; return ERR_IF }
           else do {
             do_if (LWIP_IPV4 opt)
               (do { set_netif (nif_output_update (\<lambda>_. True));
                     do_if (LWIP_IGMP opt)
                       (do { set_netif (nif_igmp_filter_update (\<lambda>_. True));
                             set_netif (nif_flags_update (\<lambda>x. x OR NETIF_FLAG_IGMP)) }) });
             do_if (LWIP_IPV6 opt)
               (do { set_netif (nif_output_ip6_update (\<lambda>_. True));
                     set_netif (nif_mld_filter_update (\<lambda>_. True));
                     set_netif (nif_flags_update (\<lambda>x. x OR NETIF_FLAG_MLD6)) });
             set_netif (nif_linkoutput_update (\<lambda>_. True));
             return ERR_OK
           }
         }
       }
     }"

section \<open>Ownership of buffers\<close>

text \<open>
  What became of the buffers, oldest first: the ones the pool gave out, the ones handed to lwIP, the ones
  lwIP refused and the ones freed.
\<close>

fun pooled :: "lw_call \<times> reply \<Rightarrow> nat option" where
  "pooled (PbufAlloc n PBUF_POOL, r) = (if ret r > 0 then Some (nat (ret r)) else None)"
| "pooled x = None"

fun handed_on :: "lw_call \<times> reply \<Rightarrow> nat option" where
  "handed_on (NetifInput p, r) = Some p"
| "handed_on x = None"

fun refused :: "lw_call \<times> reply \<Rightarrow> nat option" where
  "refused (NetifInput p, r) = (if ret r \<noteq> 0 then Some p else None)"
| "refused x = None"

fun freed :: "lw_call \<times> reply \<Rightarrow> nat option" where
  "freed (PbufFree p, r) = Some p"
| "freed x = None"

definition trace_of :: "(lw_call \<times> reply \<Rightarrow> nat option) \<Rightarrow> ('z lw_scheme) \<Rightarrow> nat list" where
  "trace_of f s = List.map_filter f (rev (history s))"

lemma trace_of_Cons:
  "history t = x # history s \<Longrightarrow> trace_of f t = trace_of f s @ (case f x of None \<Rightarrow> [] | Some y \<Rightarrow> [y])"
  by (simp add: trace_of_def map_filter_def split: option.split)

text \<open>All buffers were handed on, and exactly the refused ones freed.\<close>

definition pool_balanced :: "netif_context \<Rightarrow> bool" where
  "pool_balanced s \<longleftrightarrow> trace_of pooled s = trace_of handed_on s \<and> trace_of freed s = trace_of refused s"

lemma keeps_get_chain: "(\<And>s. P s \<Longrightarrow> P (s\<lparr>fault := True\<rparr>)) \<Longrightarrow> keeps P (get_chain p)"
  unfolding get_chain_def
  by (rule keepsI) (auto simp: wp split: option.split list.split)

lemma quiet_chain:
  "keeps (\<lambda>s. history s = h) (lwip_mm_get_payload_len p)"
  "keeps (\<lambda>s. history s = h) (lwip_mm_set_payload_len p n)"
  "keeps (\<lambda>s. history s = h) (get_chain p)"
  "keeps (\<lambda>s. history s = h) (set_chain p c)"
  unfolding lwip_mm_get_payload_len_def lwip_mm_set_payload_len_def set_chain_def
  by (auto intro!: keeps keeps_get_chain split: list.split)

lemma wp_quiet:
  "keeps (\<lambda>s. history s = h) m \<Longrightarrow> history s = h \<Longrightarrow> (\<And>a t. history t = h \<Longrightarrow> Q a t) \<Longrightarrow> wp m Q s"
  by (rule wp_mono [OF keepsD])

lemma wp_static_pool:
  assumes "\<And>r t. history t = (PbufAlloc (ucast (n + count_total_align n al)) PBUF_POOL, r) # history s \<Longrightarrow>
      Q (nat (ret r)) t"
  shows "wp (lwip_mm_alloc_from_static_pool env n al) Q s"
proof -
  define c where "c = PbufAlloc (ucast (n + count_total_align n al)) PBUF_POOL"
  define r where "r = env (history s) c"
  note Q = assms [folded c_def]
  show ?thesis
  proof (cases "0 < ret r")
    case True
    then show ?thesis
      using Q unfolding lwip_mm_alloc_from_static_pool_def pbuf_alloc_def get_chain_def set_chain_def
      by (auto simp: wp Let_def c_def [symmetric] r_def [symmetric] split: option.split list.split)
  next
    case False
    then have "nat (ret r) = 0" by simp
    with Q [of "s\<lparr>history := (c, r) # history s\<rparr>" r] False show ?thesis
      unfolding lwip_mm_alloc_from_static_pool_def pbuf_alloc_def
      by (simp add: wp Let_def c_def [symmetric] r_def [symmetric])
  qed
qed

lemma pool_balanced_other:
  assumes "history t = (c, r) # history s" and "pool_balanced s"
    and "pooled (c, r) = None" "handed_on (c, r) = None" "refused (c, r) = None" "freed (c, r) = None"
  shows "pool_balanced t"
  using assms by (simp add: pool_balanced_def trace_of_Cons [OF assms(1)])

lemma pool_balanced_history: "history t = history s \<Longrightarrow> pool_balanced t = pool_balanced s"
  by (simp add: pool_balanced_def trace_of_def)

lemma wp_receive_into:
  "(\<And>r t. history t = (MdhReceive b, r) # history s \<Longrightarrow> Q (ret r) t) \<Longrightarrow> wp (receive_into env b) Q s"
  unfolding receive_into_def set_chain_def by (auto simp: wp)

lemma pool_balanced_quiet:
  "history t = (MdhReceive b, r) # history s \<Longrightarrow> pool_balanced s \<Longrightarrow> pool_balanced t"
  "history t = (MdhGetAlign, r) # history s \<Longrightarrow> pool_balanced s \<Longrightarrow> pool_balanced t"
  by (auto intro: pool_balanced_other)

lemma pool_balanced_round:
  assumes "pool_balanced s" and "0 < ret r" and "history t = (PbufAlloc n PBUF_POOL, r) # history s"
  shows "wp (do { lwip_mm_copy env rx (nat (ret r)); accepted \<leftarrow> call env (NetifInput (nat (ret r)));
      do_if (accepted \<noteq> 0) (lwip_mm_free env (nat (ret r))) }) (\<lambda>_. pool_balanced) t"
  using assms by (simp add: wp lwip_mm_copy_def lwip_mm_free_def pool_balanced_def trace_of_def map_filter_def)

lemma process_loop_balanced:
  "pool_balanced s \<Longrightarrow> wp (process_loop env n mtu_size) (\<lambda>_. pool_balanced) s"
proof (induction n arbitrary: s)
  case 0
  then show ?case by (simp add: wp)
next
  case (Suc n)
  have round: "wp (lwip_mm_alloc_from_static_pool env len (of_int al) \<bind> (\<lambda>buf.
        if buf = 0 then return (Some ())
        else lwip_mm_copy env rx buf \<bind> (\<lambda>_. call env (NetifInput buf) \<bind> (\<lambda>accepted.
          do_if (accepted \<noteq> 0) (lwip_mm_free env buf) \<bind> (\<lambda>_. process_loop env n mtu_size)))))
      (\<lambda>_. pool_balanced) t" if t: "pool_balanced t" for len al rx t
  proof (subst wp_bind, rule wp_static_pool)
    fix r and u :: netif_context
    assume u: "history u = (PbufAlloc (ucast (len + count_total_align len (of_int al))) PBUF_POOL, r) # history t"
    show "wp (if nat (ret r) = 0 then return (Some ())
        else lwip_mm_copy env rx (nat (ret r)) \<bind> (\<lambda>_. call env (NetifInput (nat (ret r))) \<bind> (\<lambda>accepted.
          do_if (accepted \<noteq> 0) (lwip_mm_free env (nat (ret r))) \<bind> (\<lambda>_. process_loop env n mtu_size))))
      (\<lambda>_. pool_balanced) u"
    proof (cases "0 < ret r")
      case True
      from pool_balanced_round [OF t True u, where env = env and rx = rx] True Suc.IH show ?thesis
        by (auto simp: wp lwip_mm_copy_def lwip_mm_free_def split: if_splits)
    next
      case False
      then show ?thesis
        using t u by (auto simp: wp intro: pool_balanced_other)
    qed
  qed
  have len: "wp (lwip_mm_get_payload_len rx \<bind> K) (\<lambda>_. pool_balanced) u"
    if "pool_balanced u" and "\<And>n v. pool_balanced v \<Longrightarrow> wp (K n) (\<lambda>_. pool_balanced) v"
    for rx u and K :: "u32 \<Rightarrow> unit option nc_m"
    using that by (subst wp_bind) (rule wp_quiet [OF quiet_chain(1) refl], metis pool_balanced_history)
  have recv: "wp (receive_into env rx \<bind> K) (\<lambda>_. pool_balanced) u"
    if "pool_balanced u" and "\<And>n v. pool_balanced v \<Longrightarrow> wp (K n) (\<lambda>_. pool_balanced) v"
    for rx u and K :: "int \<Rightarrow> unit option nc_m"
    using that by (subst wp_bind) (rule wp_receive_into, blast intro: pool_balanced_quiet)
  have set: "wp (lwip_mm_set_payload_len rx k \<bind> K) (\<lambda>_. pool_balanced) u"
    if "pool_balanced u" and "\<And>n v. pool_balanced v \<Longrightarrow> wp (K n) (\<lambda>_. pool_balanced) v"
    for rx k u and K :: "unit \<Rightarrow> unit option nc_m"
    using that by (subst wp_bind) (rule wp_quiet [OF quiet_chain(2) refl], metis pool_balanced_history)
  have align: "wp (call env MdhGetAlign \<bind> K) (\<lambda>_. pool_balanced) u"
    if "pool_balanced u" and "\<And>n v. pool_balanced v \<Longrightarrow> wp (K n) (\<lambda>_. pool_balanced) v"
    for u and K :: "int \<Rightarrow> unit option nc_m"
    by (simp only: wp_bind wp_call) (rule that(2), rule pool_balanced_quiet(2) [OF _ that(1)], simp)
  have if_len: "wp ((if status \<noteq> 0 then return 0 else lwip_mm_get_payload_len rx) \<bind> K) (\<lambda>_. pool_balanced) u"
    if "pool_balanced u" and "\<And>n v. pool_balanced v \<Longrightarrow> wp (K n) (\<lambda>_. pool_balanced) v"
    for status :: int and rx u and K :: "u32 \<Rightarrow> unit option nc_m"
    using that len by (cases "status = 0") (simp_all add: wp)
  show ?case
    unfolding process_loop.simps using Suc.prems
    by (subst wp_bind, subst wp_gets) (auto simp: wp_return intro!: set recv if_len len align round)
qed

text \<open>
  C14. In every run of the input loop, however many packets it takes and whatever fails, the buffers that
  the pool gave out are the ones handed to lwIP, in the same order, and the ones freed are exactly those
  lwIP refused: no received packet is leaked, freed twice or freed after lwIP took it.
\<close>

theorem process_input_balance:
  assumes "pool_balanced s"
  shows "wp (ethernetif_process_input env n) (\<lambda>_. pool_balanced) s"
proof -
  have "pool_balanced (s\<lparr>history := (MdhGetMtu, env (history s) MdhGetMtu) # history s\<rparr>)"
    by (rule pool_balanced_other [OF _ assms, of _ MdhGetMtu "env (history s) MdhGetMtu"]) simp_all
  then show ?thesis
    unfolding ethernetif_process_input_def wp_bind wp_call by (rule process_loop_balanced)
qed

text \<open>
  Sending a packet of one pbuf takes a reference and transmits the pbuf itself; when the driver
  refuses it the answer is \<open>ERR_IF\<close>, but the reference is not given back, so the pbuf is never freed.
\<close>

lemma output_keeps_reference:
  assumes "pbufs s p = Some [x]" and "p \<noteq> 0" and "\<And>h. ret (env h (MdhTransmit p)) \<noteq> 0"
  shows "wp (ethernetif_output env p)
    (\<lambda>r t. r = ERR_IF \<and> calls t = calls s @ [PbufRef p, MdhTransmit p] \<and>
       trace_of freed t = trace_of freed s) s"
  using assms
  by (simp add: ethernetif_output_def get_chain_def wp calls_def trace_of_def map_filter_def)

definition no_netif :: netif where
  "no_netif = \<lparr>nif_flags = 0, nif_hostname = '''', nif_name = '''', nif_mtu = 0, nif_hwaddr_len = 0,
     nif_hwaddr = [], nif_output = False, nif_output_ip6 = False, nif_igmp_filter = False,
     nif_mld_filter = False, nif_linkoutput = False\<rparr>"

definition context_initial :: netif_context where
  "context_initial = \<lparr>history = [], fault = False, pbufs = (\<lambda>_. None), has_emac = False,
     lwip_netif = no_netif, receive_semaphore = 0, rx_buffer = 0,
     connected = CONNECTION_STATUS_DISCONNECTED, dhcp_has_to_be_set = False, dhcp_started = False,
     has_addr_state = 0, network_state_callback = 0, netif_tick_freq = 0,
     sys_state = \<lparr>history = [], fault = False, tick_freq = 0\<rparr>\<rparr>"

theorem process_input_balance_witness:
  "wp (ethernetif_process_input one_pbuf 3) (\<lambda>_. pool_balanced) context_initial"
  by (rule process_input_balance) (simp add: context_initial_def pool_balanced_def trace_of_def map_filter_def)

theorem output_keeps_reference_witness:
  "wp (ethernetif_output one_pbuf 4096)
    (\<lambda>r t. r = ERR_IF \<and> calls t = [PbufRef 4096, MdhTransmit 4096])
    (context_initial\<lparr>pbufs := [4096 \<mapsto> [\<lparr>pb_payload = 5000, pb_len = 60, pb_tot_len = 60\<rparr>]]\<rparr>)"
  using output_keeps_reference [of "context_initial\<lparr>pbufs := [4096 \<mapsto> [\<lparr>pb_payload = 5000, pb_len = 60, pb_tot_len = 60\<rparr>]]\<rparr>"
      4096 "\<lparr>pb_payload = 5000, pb_len = 60, pb_tot_len = 60\<rparr>" one_pbuf]
  by (auto elim!: wp_mono simp: one_pbuf_def context_initial_def calls_def)

end
