(* ===== verification/Lwip_Stack.thy ===== *)
theory Lwip_Stack
  imports Lwip_Netif
begin

unbundle bit_operations_syntax

text \<open>
  The network task over lwIP, \<open>connectivity/lwip/lwip_cmsis_port/src/lwip_stack.c\<close>, and the function that
  starts it, \<open>ip_network_api.c\<close>.

  The addresses and flags of the interface are lwIP's, so reading one is a call to the environment.  An
  address pointer is \<open>Addr4\<close>, \<open>Addr6\<close> with its index, or \<open>None\<close> for \<open>NULL\<close>.  lwIP runs the two
  callbacks when the link or the interface changes; here they are operations of their own.  The endless
  loop of the task is taken for a number of rounds.
\<close>

section \<open>Addresses\<close>

datatype ip_addr = Addr4 | Addr6 nat

definition get_ipv4_addr :: "lw_call env \<Rightarrow> ip_addr option nc_m" where
  "get_ipv4_addr env =
     do {
       up \<leftarrow> call env NetifIsUp;
       if up = 0 then return None
       else do { any \<leftarrow> call env Ip4IsAny; return (if any = 0 then Some Addr4 else None) }
     }"

text \<open>The two loops over the \<open>n\<close> addresses that are left from index \<open>i\<close> on.\<close>

fun find_global_ip6 :: "lw_call env \<Rightarrow> nat \<Rightarrow> nat \<Rightarrow> ip_addr option nc_m" where
  "find_global_ip6 env i 0 = return None"
| "find_global_ip6 env i (Suc n) =
     do {
       v \<leftarrow> call env (Ip6IsValid i);
       ll \<leftarrow> (if v \<noteq> 0 then call env (Ip6IsLinkLocal i) else return 0);
       if v \<noteq> 0 \<and> ll = 0 then return (Some (Addr6 i)) else find_global_ip6 env (Suc i) n
     }"

fun find_valid_ip6 :: "lw_call env \<Rightarrow> nat \<Rightarrow> nat \<Rightarrow> ip_addr option nc_m" where
  "find_valid_ip6 env i 0 = return None"
| "find_valid_ip6 env i (Suc n) =
     do {
       v \<leftarrow> call env (Ip6IsValid i);
       if v \<noteq> 0 then return (Some (Addr6 i)) else find_valid_ip6 env (Suc i) n
     }"

definition get_ipv6_addr :: "lwip_options \<Rightarrow> lw_call env \<Rightarrow> ip_addr option nc_m" where
  "get_ipv6_addr opt env =
     do {
       up \<leftarrow> call env NetifIsUp;
       if up = 0 then return None
       else do {
         a \<leftarrow> find_global_ip6 env 0 (LWIP_IPV6_NUM_ADDRESSES opt);
         case a of Some x \<Rightarrow> return (Some x)
         | None \<Rightarrow> find_valid_ip6 env 0 (LWIP_IPV6_NUM_ADDRESSES opt)
       }
     }"

definition get_ip_addr :: "lwip_options \<Rightarrow> lw_call env \<Rightarrow> bool \<Rightarrow> ip_addr option nc_m" where
  "get_ip_addr opt env any_addr =
     (if LWIP_IPV4 opt \<and> LWIP_IPV6 opt then
        do {
          (pref, npref) \<leftarrow>
            (if PREF_IPV4 opt
             then do { p \<leftarrow> get_ipv4_addr env; n \<leftarrow> get_ipv6_addr opt env; return (p, n) }
             else do { p \<leftarrow> get_ipv6_addr opt env; n \<leftarrow> get_ipv4_addr env; return (p, n) });
          return (if pref \<noteq> None then pref else if npref \<noteq> None \<and> any_addr then npref else None)
        }
      else if LWIP_IPV6 opt then get_ipv6_addr opt env
      else if LWIP_IPV4 opt then get_ipv4_addr env
      else return None)"

section \<open>The state of the interface\<close>

definition set_dhcp :: "lwip_options \<Rightarrow> lw_call env \<Rightarrow> err nc_m" where
  "set_dhcp opt env =
     (if LWIP_DHCP opt then
        do {
          todo \<leftarrow> gets dhcp_has_to_be_set;
          if todo then
            do {
              e \<leftarrow> call env DhcpStart;
              if e \<noteq> 0 then
                do { modify (\<lambda>s. s\<lparr>connected := CONNECTION_STATUS_DISCONNECTED\<rparr>); return ERR_IF }
              else do {
                modify (\<lambda>s. s\<lparr>dhcp_has_to_be_set := False\<rparr>);
                modify (\<lambda>s. s\<lparr>dhcp_started := True\<rparr>);
                return ERR_OK
              }
            }
          else return ERR_OK
        }
      else return ERR_OK)"

definition netif_link_irq :: "lw_call env \<Rightarrow> unit nc_m" where
  "netif_link_irq env =
     do {
       link \<leftarrow> call env NetifIsLinkUp;
       con \<leftarrow> gets connected;
       if link \<noteq> 0 \<and> con = CONNECTION_STATUS_CONNECTING then tell env NetifSetUp
       else do {
         up \<leftarrow> call env NetifIsUp;
         do_if (up \<noteq> 0) (modify (\<lambda>s. s\<lparr>connected := CONNECTION_STATUS_CONNECTING\<rparr>));
         tell env NetifSetDown
       }
     }"

abbreviation (input) ADDRESS_STATUS_HAS_ANY_ADDR :: byte where "ADDRESS_STATUS_HAS_ANY_ADDR \<equiv> 1"
abbreviation (input) ADDRESS_STATUS_HAS_PREF_ADDR :: byte where "ADDRESS_STATUS_HAS_PREF_ADDR \<equiv> 2"
abbreviation (input) ADDRESS_STATUS_HAS_BOTH_ADDR :: byte where "ADDRESS_STATUS_HAS_BOTH_ADDR \<equiv> 4"

definition add_addr_state :: "byte \<Rightarrow> unit nc_m" where
  "add_addr_state b = modify (\<lambda>s. s\<lparr>has_addr_state := has_addr_state s OR b\<rparr>)"

text \<open>\<open>ip_addr_islinklocal\<close> reads the address.\<close>

definition ip_addr_islinklocal :: "lw_call env \<Rightarrow> ip_addr option \<Rightarrow> int nc_m" where
  "ip_addr_islinklocal env a =
     (case a of None \<Rightarrow> do { crash; return 0 }
      | Some b \<Rightarrow> (case b of Addr4 \<Rightarrow> call env IpIsLinkLocal4 | Addr6 i \<Rightarrow> call env (Ip6IsLinkLocal i)))"

definition note_addresses :: "lwip_options \<Rightarrow> lw_call env \<Rightarrow> unit nc_m" where
  "note_addresses opt env =
     do {
       h \<leftarrow> gets has_addr_state;
       do_if (h AND ADDRESS_STATUS_HAS_ANY_ADDR = 0)
         (do { a \<leftarrow> get_ip_addr opt env True; do_if (a \<noteq> None) (add_addr_state ADDRESS_STATUS_HAS_ANY_ADDR) });
       h \<leftarrow> gets has_addr_state;
       do_if (PREF_ADDR_TIMEOUT opt \<and> h AND ADDRESS_STATUS_HAS_PREF_ADDR = 0)
         (do { a \<leftarrow> get_ip_addr opt env False; do_if (a \<noteq> None) (add_addr_state ADDRESS_STATUS_HAS_PREF_ADDR) });
       h \<leftarrow> gets has_addr_state;
       do_if (BOTH_ADDR_TIMEOUT opt \<and> h AND ADDRESS_STATUS_HAS_BOTH_ADDR = 0)
         (do { a \<leftarrow> get_ipv4_addr env;
               b \<leftarrow> (if a \<noteq> None then get_ipv6_addr opt env else return None);
               do_if (b \<noteq> None) (add_addr_state ADDRESS_STATUS_HAS_BOTH_ADDR) })
     }"

definition netif_status_irq :: "lwip_options \<Rightarrow> lw_call env \<Rightarrow> unit nc_m" where
  "netif_status_irq opt env =
     do {
       up \<leftarrow> call env NetifIsUp;
       link \<leftarrow> (if up \<noteq> 0 then call env NetifIsLinkUp else return 0);
       if up \<noteq> 0 \<and> link \<noteq> 0 then
         do {
           todo \<leftarrow> gets dhcp_has_to_be_set;
           if todo then do { set_dhcp opt env; return () }
           else do {
             note_addresses opt env;
             h \<leftarrow> gets has_addr_state;
             do_if (h AND ADDRESS_STATUS_HAS_ANY_ADDR \<noteq> 0)
               (do {
                 modify (\<lambda>s. s\<lparr>connected := CONNECTION_STATUS_GLOBAL_UP\<rparr>);
                 a \<leftarrow> get_ip_addr opt env True;
                 ll \<leftarrow> ip_addr_islinklocal env a;
                 do_if (ll \<noteq> 0) (modify (\<lambda>s. s\<lparr>connected := CONNECTION_STATUS_LOCAL_UP\<rparr>));
                 f \<leftarrow> gets network_state_callback;
                 do_if (f \<noteq> 0) (tell env (StateCallback f True))
               })
           }
         }
       else do {
         up \<leftarrow> call env NetifIsUp;
         link \<leftarrow> (if up = 0 then call env NetifIsLinkUp else return 0);
         do_if (up = 0 \<and> link \<noteq> 0)
           (do {
             modify (\<lambda>s. s\<lparr>connected := CONNECTION_STATUS_DISCONNECTED\<rparr>);
             f \<leftarrow> gets network_state_callback;
             do_if (f \<noteq> 0) (tell env (StateCallback f False))
           })
       }
     }"

definition ethernet_interface_bringup :: "lwip_options \<Rightarrow> lw_call env \<Rightarrow> err nc_m" where
  "ethernet_interface_bringup opt env =
     do {
       con \<leftarrow> gets connected;
       if con = CONNECTION_STATUS_GLOBAL_UP then return ERR_ISCONN
       else if con = CONNECTION_STATUS_CONNECTING then return ERR_INPROGRESS
       else do {
         do_if (LWIP_DHCP opt) (modify (\<lambda>s. s\<lparr>dhcp_has_to_be_set := True\<rparr>));
         f \<leftarrow> gets lwip_netif;
         do_if (LWIP_IPV6 opt) (tell env (NetifCreateLinkLocal (nif_hwaddr_len f = 6)));
         modify (\<lambda>s. s\<lparr>connected := CONNECTION_STATUS_CONNECTING\<rparr>);
         return ERR_OK
       }
     }"

text \<open>\<open>netif_add\<close> calls \<open>ethernetif_init\<close> and answers \<open>NULL\<close> when that fails.\<close>

definition ethernet_interface_init :: "lwip_options \<Rightarrow> lw_call env \<Rightarrow> err nc_m" where
  "ethernet_interface_init opt env =
     do {
       e \<leftarrow> ethernetif_init opt env;
       n \<leftarrow> (if e = ERR_OK then call env NetifAdd else return 0);
       if n = 0 then return ERR_IF
       else do { tell env NetifSetCallbacks; tell env NetifSetDefault; return ERR_OK }
     }"

section \<open>The task\<close>

definition tcpip_init_done :: "os_call env \<Rightarrow> int \<Rightarrow> unit nc_m" where
  "tcpip_init_done os sem = in_sys (sys_sem_signal os sem)"

definition lwip_network_init :: "lw_call env \<Rightarrow> os_call env \<Rightarrow> err nc_m" where
  "lwip_network_init env os =
     do {
       (e, sem) \<leftarrow> in_sys (sys_sem_new os 0);
       case sem of None \<Rightarrow> do { crash; return ERR_IF }
       | Some tcpip_done \<Rightarrow>
         do {
           tell env (TcpipInit tcpip_done);
           in_sys (sys_arch_sem_wait os tcpip_done 0);
           in_sys (sys_sem_free os tcpip_done);
           return ERR_OK
         }
     }"

fun lwip_task_loop :: "lw_call env \<Rightarrow> os_call env \<Rightarrow> nat \<Rightarrow> nat \<Rightarrow> unit option nc_m" where
  "lwip_task_loop env os fuel 0 = return (Some ())"
| "lwip_task_loop env os fuel (Suc rounds) =
     do {
       m \<leftarrow> gets receive_semaphore;
       w \<leftarrow> in_sys (sys_arch_sem_wait os m 0);
       r \<leftarrow> (if w = 0 then ethernetif_process_input env fuel else return (Some ()));
       case r of None \<Rightarrow> return None | Some _ \<Rightarrow> lwip_task_loop env os fuel rounds
     }"

definition lwip_task ::
  "lwip_options \<Rightarrow> lw_call env \<Rightarrow> os_call env \<Rightarrow> nat \<Rightarrow> nat \<Rightarrow> nat \<Rightarrow> unit option nc_m" where
  "lwip_task opt env os fuel rounds f =
     do {
       modify (\<lambda>s. s\<lparr>network_state_callback := f\<rparr>);
       (e, sem) \<leftarrow> in_sys (sys_sem_new os 0);
       do_if (e \<noteq> ERR_OK) crash;
       modify (\<lambda>s. s\<lparr>receive_semaphore := (case sem of None \<Rightarrow> receive_semaphore s | Some i \<Rightarrow> i)\<rparr>);
       e \<leftarrow> lwip_network_init env os;
       do_if (e \<noteq> ERR_OK) crash;
       ethernet_interface_init opt env;
       ethernet_interface_bringup opt env;
       tell env (TcpipCallback NetifSetLinkUp);
       lwip_task_loop env os fuel rounds
     }"

section \<open>The network API\<close>

record network_api = sys +
  net_thread :: int

abbreviation (input) osError :: int where "osError \<equiv> - 1"

text \<open>\<open>task\<close> stands for the address of \<open>lwip_task\<close>; \<open>sys_thread_new\<close> is the one of \<open>sys_arch.c\<close>.\<close>

definition api_thread_new :: "os_call env \<Rightarrow> nat \<Rightarrow> int \<Rightarrow> int \<Rightarrow> int \<Rightarrow> (network_api, int) state" where
  "api_thread_new os f arg stacksize prio =
     State (\<lambda>s. let (a, x) = run_state (sys_thread_new os f arg stacksize prio) (sys.truncate s) in
       (a, sys.extend x (network_api.fields (net_thread s))))"

definition start_network_task :: "os_call env \<Rightarrow> nat \<Rightarrow> int \<Rightarrow> u32 \<Rightarrow> int \<Rightarrow> (network_api, int) state" where
  "start_network_task os task callback stack_size prio =
     do {
       t \<leftarrow> gets net_thread;
       if t \<noteq> 0 then return osError
       else do {
         t \<leftarrow> api_thread_new os task callback (sint stack_size) prio;
         modify (\<lambda>s. s\<lparr>net_thread := t\<rparr>);
         return (if t = 0 then osError else osOK)
       }
     }"

section \<open>Which address is chosen\<close>

text \<open>
  A steady environment answers a call always alike, as lwIP does while the interface does not change.
  The reference: the preferred family first, the other only when any will do; of the IPv6 addresses the
  first valid one that is not link-local, else the first valid one.
\<close>

definition choose_ip6 :: "lwip_options \<Rightarrow> (lw_call \<Rightarrow> reply) \<Rightarrow> ip_addr option" where
  "choose_ip6 opt ans =
     (let valid = (\<lambda>i. ret (ans (Ip6IsValid i)) \<noteq> 0);
          global = (\<lambda>i. valid i \<and> ret (ans (Ip6IsLinkLocal i)) = 0);
          ids = [0..<LWIP_IPV6_NUM_ADDRESSES opt] in
      if ret (ans NetifIsUp) = 0 then None
      else map_option Addr6 (case find global ids of Some i \<Rightarrow> Some i | None \<Rightarrow> find valid ids))"

definition choose_ip4 :: "(lw_call \<Rightarrow> reply) \<Rightarrow> ip_addr option" where
  "choose_ip4 ans = (if ret (ans NetifIsUp) \<noteq> 0 \<and> ret (ans Ip4IsAny) = 0 then Some Addr4 else None)"

definition choose_ip :: "lwip_options \<Rightarrow> (lw_call \<Rightarrow> reply) \<Rightarrow> bool \<Rightarrow> ip_addr option" where
  "choose_ip opt ans any_addr =
     (let a4 = (if LWIP_IPV4 opt then choose_ip4 ans else None);
          a6 = (if LWIP_IPV6 opt then choose_ip6 opt ans else None);
          pref_first = (PREF_IPV4 opt \<or> \<not> LWIP_IPV6 opt) \<and> LWIP_IPV4 opt;
          (pref, other) = (if pref_first then (a4, a6) else (a6, a4)) in
      if pref = None \<and> any_addr then other else pref)"

fun state_callback :: "lw_call \<Rightarrow> bool" where
  "state_callback (StateCallback f up) = True"
| "state_callback c = False"

definition reports :: "netif_context \<Rightarrow> lw_call list" where
  "reports s = filter state_callback (calls s)"

text \<open>\<open>t\<close> differs from \<open>s\<close> by calls that only read.\<close>

definition only_read :: "netif_context \<Rightarrow> netif_context \<Rightarrow> bool" where
  "only_read s t \<longleftrightarrow> t = s\<lparr>history := history t\<rparr> \<and> reports t = reports s"

lemma only_read_refl [simp]: "only_read s s"
  by (simp add: only_read_def)

lemma only_read_call: "only_read (s\<lparr>history := (c, r) # history s\<rparr>) t \<Longrightarrow> \<not> state_callback c \<Longrightarrow> only_read s t"
  by (auto simp: only_read_def reports_def calls_def)

lemma only_read_one [simp]: "\<not> state_callback c \<Longrightarrow> only_read s (s\<lparr>history := (c, r) # history s\<rparr>)"
  by (auto simp: only_read_def reports_def calls_def)

lemma only_read_trans: "only_read s t \<Longrightarrow> only_read t u \<Longrightarrow> only_read s u"
  unfolding only_read_def by (cases s; cases t; cases u) auto

definition reads :: "'a nc_m \<Rightarrow> 'a \<Rightarrow> netif_context \<Rightarrow> bool" where
  "reads m a s \<longleftrightarrow> wp m (\<lambda>r t. r = a \<and> only_read s t) s"

lemma reads_return: "a = b \<Longrightarrow> reads (return a) b s"
  by (simp add: reads_def wp)

lemma reads_call: "\<not> state_callback c \<Longrightarrow> reads (call (\<lambda>h. ans) c) (ret (ans c)) s"
  by (simp add: reads_def wp)

lemma reads_eq: "reads m a s \<Longrightarrow> a = b \<Longrightarrow> reads m b s"
  by simp

lemma reads_bind:
  assumes "reads m a s" and "\<And>t. only_read s t \<Longrightarrow> reads (f a) b t"
  shows "reads (m \<bind> f) b s"
  using assms(1) unfolding reads_def wp_bind
proof (rule wp_mono)
  fix r t
  assume r: "r = a \<and> only_read s t"
  then have "wp (f r) (\<lambda>r u. r = b \<and> only_read t u) t"
    using assms(2) by (simp add: reads_def)
  then show "wp (f r) (\<lambda>r u. r = b \<and> only_read s u) t"
    by (rule wp_mono) (use r in \<open>auto intro: only_read_trans\<close>)
qed

lemma find_upt: "find P [i..<i + Suc n] = (if P i then Some i else find P [Suc i..<Suc i + n])"
  by (simp add: upt_conv_Cons del: upt_Suc)

lemma reads_find_global:
  "reads (find_global_ip6 (\<lambda>h. ans) i n)
    (map_option Addr6 (find (\<lambda>i. ret (ans (Ip6IsValid i)) \<noteq> 0 \<and> ret (ans (Ip6IsLinkLocal i)) = 0) [i..<i + n])) s"
proof (induction n arbitrary: i s)
  case (Suc n)
  show ?case
    unfolding find_global_ip6.simps find_upt
    by (rule reads_bind [OF reads_call], simp, cases "ret (ans (Ip6IsValid i)) = 0")
      (auto simp del: upt_Suc intro!: reads_bind [OF reads_call] reads_bind [OF reads_return [OF refl]]
        reads_return Suc [of "Suc i", unfolded add_Suc])
qed (simp add: reads_return)

lemma reads_find_valid:
  "reads (find_valid_ip6 (\<lambda>h. ans) i n)
    (map_option Addr6 (find (\<lambda>i. ret (ans (Ip6IsValid i)) \<noteq> 0) [i..<i + n])) s"
proof (induction n arbitrary: i s)
  case (Suc n)
  show ?case
    unfolding find_valid_ip6.simps find_upt
    by (rule reads_bind [OF reads_call], simp, cases "ret (ans (Ip6IsValid i)) = 0")
      (auto simp del: upt_Suc intro!: reads_return Suc [of "Suc i", unfolded add_Suc])
qed (simp add: reads_return)

lemma reads_get_ipv4: "reads (get_ipv4_addr (\<lambda>h. ans)) (choose_ip4 ans) s"
  unfolding get_ipv4_addr_def choose_ip4_def
  by (rule reads_bind [OF reads_call]) (auto intro!: reads_bind [OF reads_call] reads_return)

lemma reads_get_ipv6: "reads (get_ipv6_addr opt (\<lambda>h. ans)) (choose_ip6 opt ans) s"
  unfolding get_ipv6_addr_def choose_ip6_def Let_def
  using reads_find_global [of ans 0 "LWIP_IPV6_NUM_ADDRESSES opt"]
    reads_find_valid [of ans 0 "LWIP_IPV6_NUM_ADDRESSES opt"]
  by (intro reads_bind [OF reads_call])
    (auto intro!: reads_return reads_bind [OF reads_find_global] simp: reads_find_valid split: option.split)

lemma reads_get_ip: "reads (get_ip_addr opt (\<lambda>h. ans) any_addr) (choose_ip opt ans any_addr) s"
  unfolding get_ip_addr_def choose_ip_def Let_def
  by (auto intro!: reads_return reads_bind [OF reads_get_ipv4] reads_bind [OF reads_get_ipv6]
    reads_eq [OF reads_get_ipv4] reads_eq [OF reads_get_ipv6] reads_bind [OF reads_bind [OF reads_get_ipv4]] reads_bind [OF reads_bind [OF reads_get_ipv6]])

text \<open>
  C15. Which address the task reports, when lwIP's answers do not change meanwhile: the preferred family
  first, the other only when any will do; among the IPv6 addresses the first valid one that is not
  link-local, else the first valid one; none when the interface is down.  Only reads happen.
\<close>

theorem ip_addr_choice:
  "wp (get_ip_addr opt (\<lambda>h. ans) any_addr)
    (\<lambda>r t. r = choose_ip opt ans any_addr \<and> t = s\<lparr>history := history t\<rparr>) s"
  using reads_get_ip [of opt ans any_addr s] unfolding reads_def only_read_def
  by (rule wp_mono) simp

section \<open>Status changes\<close>

lemma or_and_1:
  fixes h :: byte
  shows "(h OR 1) AND 1 \<noteq> 0" and "(h OR 2) AND 1 = h AND 1" and "(h OR 4) AND 1 = h AND 1"
proof -
  have "bit ((h OR 1) AND 1) 0" by (simp add: bit_simps)
  then show "(h OR 1) AND 1 \<noteq> 0" by (metis bit_0_eq bot_apply bot_bool_def)
qed (simp_all add: bit.conj_disj_distrib2)

lemma only_read_state [simp]:
  "only_read s t \<Longrightarrow> has_addr_state t = has_addr_state s"
  "only_read s t \<Longrightarrow> network_state_callback t = network_state_callback s"
  "only_read s t \<Longrightarrow> connected t = connected s"
  "only_read s t \<Longrightarrow> fault t = fault s"
  "only_read s t \<Longrightarrow> reports t = reports s"
  unfolding only_read_def by (cases s; cases t; auto)+

lemma only_read_add:
  "only_read s t \<Longrightarrow> only_read (s\<lparr>has_addr_state := b\<rparr>) (t\<lparr>has_addr_state := b\<rparr>)"
  unfolding only_read_def reports_def calls_def by (cases s; cases t) auto

lemma wp_reads: "reads m a s \<Longrightarrow> (\<And>t. only_read s t \<Longrightarrow> Q a t) \<Longrightarrow> wp m Q s"
  unfolding reads_def by (erule wp_mono) auto

definition noted :: "bool \<Rightarrow> netif_context \<Rightarrow> netif_context \<Rightarrow> bool" where
  "noted p s t \<longleftrightarrow> (\<exists>b. only_read (s\<lparr>has_addr_state := b\<rparr>) t \<and> (b AND 1 \<noteq> 0) = p)"

lemma noted_read: "noted p s t \<Longrightarrow> only_read t u \<Longrightarrow> noted p s u"
  unfolding noted_def using only_read_trans by blast

lemma noted_bit:
  "noted p s t \<Longrightarrow> b = 2 \<or> b = 4 \<Longrightarrow> noted p s (t\<lparr>has_addr_state := has_addr_state t OR b\<rparr>)"
proof -
  assume "noted p s t" and b: "b = 2 \<or> b = 4"
  then obtain c where c: "only_read (s\<lparr>has_addr_state := c\<rparr>) t" "(c AND 1 \<noteq> 0) = p"
    by (auto simp: noted_def)
  have "only_read (s\<lparr>has_addr_state := c OR b\<rparr>) (t\<lparr>has_addr_state := c OR b\<rparr>)"
    using only_read_add [OF c(1)] by simp
  moreover have "has_addr_state t = c" using c(1) by simp
  ultimately show ?thesis
    unfolding noted_def using c(2) b or_and_1(2,3) by auto
qed

lemma wp_bind_assoc: "wp ((m \<bind> f) \<bind> g) Q s = wp (m \<bind> (\<lambda>a. f a \<bind> g)) Q s"
  unfolding wp_bind ..

lemma noted_add:
  assumes "noted p s u" and "reads m a u" and "b = 2 \<or> b = 4"
  shows "wp (do_if c (do { a \<leftarrow> m; do_if (a \<noteq> None) (add_addr_state b) })) (\<lambda>_. noted p s) u"
  using assms noted_bit [OF _ assms(3)] noted_read [OF assms(1)] unfolding add_addr_state_def
  by (cases c) (auto simp: wp simp del: only_read_state intro!: wp_reads [OF assms(2)])

lemma reads_both:
  "reads (do { a \<leftarrow> get_ipv4_addr (\<lambda>h. ans); if a \<noteq> None then get_ipv6_addr opt (\<lambda>h. ans) else return None })
    (if choose_ip4 ans \<noteq> None then choose_ip6 opt ans else None) s"
  by (auto intro!: reads_bind [OF reads_get_ipv4] reads_return reads_eq [OF reads_get_ipv6])

lemma noted_addresses:
  "wp (note_addresses opt (\<lambda>h. ans))
    (\<lambda>_ t. noted (has_addr_state s AND 1 \<noteq> 0 \<or> choose_ip opt ans True \<noteq> None) s t) s"
proof -
  define p where "p = (has_addr_state s AND 1 \<noteq> 0 \<or> choose_ip opt ans True \<noteq> None)"
  have start: "noted True s (t\<lparr>has_addr_state := has_addr_state s OR 1\<rparr>)" if "only_read s t" for t
    unfolding noted_def using only_read_add [OF that] or_and_1(1) by blast
  have start': "noted q s t" if "only_read s t" and "q = (has_addr_state s AND 1 \<noteq> 0)" for q t
    unfolding noted_def using that by (intro exI [of _ "has_addr_state s"]) simp
  show ?thesis
    unfolding p_def [symmetric] note_addresses_def wp_bind wp_gets
  proof (rule wp_mono)
    show "wp (do_if (has_addr_state s AND 1 = 0) (do { a \<leftarrow> get_ip_addr opt (\<lambda>h. ans) True;
        do_if (a \<noteq> None) (add_addr_state 1) })) (\<lambda>_. noted p s) s"
      unfolding add_addr_state_def wp_do_if wp_bind
      by (auto simp: p_def wp_modify intro!: wp_reads [OF reads_get_ip] start intro: start')
  next
    fix x u
    assume u: "noted p s u"
    show "wp (do_if (PREF_ADDR_TIMEOUT opt \<and> has_addr_state u AND 2 = 0)
        (do { a \<leftarrow> get_ip_addr opt (\<lambda>h. ans) False; do_if (a \<noteq> None) (add_addr_state 2) }))
      (\<lambda>_ t. wp (do_if (BOTH_ADDR_TIMEOUT opt \<and> has_addr_state t AND 4 = 0)
        (do { a \<leftarrow> get_ipv4_addr (\<lambda>h. ans);
              b \<leftarrow> (if a \<noteq> None then get_ipv6_addr opt (\<lambda>h. ans) else return None);
              do_if (b \<noteq> None) (add_addr_state 4) })) (\<lambda>_. noted p s) t) u"
    proof (rule wp_mono [OF noted_add [OF u reads_get_ip]])
      fix x v
      assume v: "noted p s v"
      show "wp (do_if (BOTH_ADDR_TIMEOUT opt \<and> has_addr_state v AND 4 = 0)
        (do { a \<leftarrow> get_ipv4_addr (\<lambda>h. ans);
              b \<leftarrow> (if a \<noteq> None then get_ipv6_addr opt (\<lambda>h. ans) else return None);
              do_if (b \<noteq> None) (add_addr_state 4) })) (\<lambda>_. noted p s) v"
        using noted_add [OF v reads_both [where ans = ans and opt = opt], of 4
            "BOTH_ADDR_TIMEOUT opt \<and> has_addr_state v AND 4 = 0"]
        by (simp only: wp_do_if wp_bind_assoc) simp
    qed simp
  qed
qed

lemma reports_fields [simp]:
  "reports (s\<lparr>fault := b\<rparr>) = reports s" "reports (s\<lparr>connected := c\<rparr>) = reports s"
  by (simp_all add: reports_def calls_def)

fun link_local :: "(lw_call \<Rightarrow> reply) \<Rightarrow> ip_addr option \<Rightarrow> bool" where
  "link_local ans None = False"
| "link_local ans (Some Addr4) = (ret (ans IpIsLinkLocal4) \<noteq> 0)"
| "link_local ans (Some (Addr6 i)) = (ret (ans (Ip6IsLinkLocal i)) \<noteq> 0)"

lemma noted_state:
  assumes "noted p s t"
  shows "(has_addr_state t AND 1 \<noteq> 0) = p" "network_state_callback t = network_state_callback s"
    "connected t = connected s" "fault t = fault s" "reports t = reports s"
proof -
  obtain b where b: "only_read (s\<lparr>has_addr_state := b\<rparr>) t" "(b AND 1 \<noteq> 0) = p"
    using assms by (auto simp: noted_def)
  from only_read_state [OF b(1)] b(2) show "(has_addr_state t AND 1 \<noteq> 0) = p"
    "network_state_callback t = network_state_callback s" "connected t = connected s" "fault t = fault s"
    "reports t = reports s"
    by (simp_all add: reports_def calls_def)
qed

lemma wp_islinklocal:
  "wp (ip_addr_islinklocal (\<lambda>h. ans) a)
    (\<lambda>ll t. (ll \<noteq> 0) = link_local ans a \<and> (if a = None then t = s\<lparr>fault := True\<rparr> else only_read s t)) s"
  by (cases a; cases "the a") (simp_all add: ip_addr_islinklocal_def wp)

text \<open>
  What a status change with interface and link up does, DHCP being dealt with: an address is known
  when one was noted before or one is there now; then the state becomes local or global up by the chosen
  address and \<open>NETWORK_UP\<close> is reported once, otherwise nothing is reported and the state stays.  When an
  address was noted before and none is there now, the null pointer is used as an address.
\<close>

lemma status_irq_up:
  assumes "ret (ans NetifIsUp) \<noteq> 0" and "ret (ans NetifIsLinkUp) \<noteq> 0" and "\<not> dhcp_has_to_be_set s"
    and "a = choose_ip opt ans True" and "known = (has_addr_state s AND 1 \<noteq> 0 \<or> a \<noteq> None)"
  shows "wp (netif_status_irq opt (\<lambda>h. ans))
    (\<lambda>_ t. fault t = (fault s \<or> known \<and> a = None) \<and>
       connected t = (if \<not> known then connected s
         else if link_local ans a then CONNECTION_STATUS_LOCAL_UP else CONNECTION_STATUS_GLOBAL_UP) \<and>
       reports t = reports s @ (if known \<and> network_state_callback s \<noteq> 0
         then [StateCallback (network_state_callback s) True] else [])) s"
proof -
  define R where "R = (\<lambda>(u :: unit) t. fault t = (fault s \<or> known \<and> a = None) \<and>
       connected t = (if \<not> known then connected s
         else if link_local ans a then CONNECTION_STATUS_LOCAL_UP else CONNECTION_STATUS_GLOBAL_UP) \<and>
       reports t = reports s @ (if known \<and> network_state_callback s \<noteq> 0
         then [StateCallback (network_state_callback s) True] else []))"
  define s1 where "s1 = s\<lparr>history := (NetifIsUp, ans NetifIsUp) # history s\<rparr>"
  define s2 where "s2 = s1\<lparr>history := (NetifIsLinkUp, ans NetifIsLinkUp) # history s1\<rparr>"
  have "only_read s s1" by (simp add: s1_def)
  moreover have "only_read s1 s2" by (simp add: s2_def)
  ultimately have r2: "only_read s s2" by (rule only_read_trans)
  have note2: "wp (note_addresses opt (\<lambda>h. ans)) (\<lambda>_ t. noted known s2 t) s2"
    using noted_addresses [of opt ans s2] assms(4,5) r2 by simp
  have d: "dhcp_has_to_be_set s2 = False" using assms(3) by (simp add: s2_def s1_def)
  have report: "wp (do { do_if (ll \<noteq> 0) (modify (\<lambda>s. s\<lparr>connected := CONNECTION_STATUS_LOCAL_UP\<rparr>));
        f \<leftarrow> gets network_state_callback; do_if (f \<noteq> 0) (tell (\<lambda>h. ans) (StateCallback f True)) }) R v"
    if "known" and "(ll \<noteq> 0) = link_local ans a" and "connected v = CONNECTION_STATUS_GLOBAL_UP"
      and "fault v = (fault s \<or> a = None)" and "reports v = reports s"
      and "network_state_callback v = network_state_callback s" for v and ll :: int
    using that by (simp add: wp R_def reports_def calls_def)
  have tail: "wp (do { h \<leftarrow> gets has_addr_state;
        do_if (h AND 1 \<noteq> 0)
          (do {
            modify (\<lambda>s. s\<lparr>connected := CONNECTION_STATUS_GLOBAL_UP\<rparr>);
            a \<leftarrow> get_ip_addr opt (\<lambda>h. ans) True;
            ll \<leftarrow> ip_addr_islinklocal (\<lambda>h. ans) a;
            do_if (ll \<noteq> 0) (modify (\<lambda>s. s\<lparr>connected := CONNECTION_STATUS_LOCAL_UP\<rparr>));
            f \<leftarrow> gets network_state_callback;
            do_if (f \<noteq> 0) (tell (\<lambda>h. ans) (StateCallback f True))
          }) }) R t" if "noted known s2 t" for t
  proof (cases known)
    case False
    then show ?thesis
      using noted_state [OF that] only_read_state [OF r2] by (simp add: wp R_def)
  next
    case True
    define u where "u = t\<lparr>connected := CONNECTION_STATUS_GLOBAL_UP\<rparr>"
    have u: "connected u = CONNECTION_STATUS_GLOBAL_UP" "fault u = fault s" "reports u = reports s"
      "network_state_callback u = network_state_callback s"
      using noted_state [OF that] only_read_state [OF r2] by (simp_all add: u_def reports_def calls_def)
    have "wp (do { a \<leftarrow> get_ip_addr opt (\<lambda>h. ans) True;
            ll \<leftarrow> ip_addr_islinklocal (\<lambda>h. ans) a;
            do_if (ll \<noteq> 0) (modify (\<lambda>s. s\<lparr>connected := CONNECTION_STATUS_LOCAL_UP\<rparr>));
            f \<leftarrow> gets network_state_callback;
            do_if (f \<noteq> 0) (tell (\<lambda>h. ans) (StateCallback f True)) }) R u"
    proof (subst wp_bind, rule wp_reads [OF reads_get_ip])
      fix v
      assume v: "only_read u v"
      show "wp (do { ll \<leftarrow> ip_addr_islinklocal (\<lambda>h. ans) (choose_ip opt ans True);
            do_if (ll \<noteq> 0) (modify (\<lambda>s. s\<lparr>connected := CONNECTION_STATUS_LOCAL_UP\<rparr>));
            f \<leftarrow> gets network_state_callback;
            do_if (f \<noteq> 0) (tell (\<lambda>h. ans) (StateCallback f True)) }) R v"
        unfolding assms(4) [symmetric]
        by (subst wp_bind, rule wp_mono [OF wp_islinklocal], rule report [OF True])
          (use u only_read_state [OF v] in \<open>auto split: if_splits\<close>)
    qed
    then show ?thesis
      using True noted_state(1) [OF that] by (simp add: wp_bind [of "gets _"] wp_bind [of "modify _"] wp_gets wp_modify wp_do_if u_def)
  qed
  show ?thesis
    unfolding R_def [symmetric] netif_status_irq_def using assms(1,2) d tail wp_mono [OF note2]
    by (simp add: wp_bind wp_call wp_if wp_gets s1_def [symmetric] s2_def [symmetric])
qed

definition wired :: "lw_call \<Rightarrow> reply" where
  "wired c = \<lparr>ret = (if c = NetifIsUp \<or> c = NetifIsLinkUp then 1 else 0), outs = [], payload = []\<rparr>"

definition ipv4_only :: lwip_options where
  "ipv4_only = \<lparr>LWIP_IPV4 = True, LWIP_IPV6 = False, LWIP_IGMP = True, LWIP_DHCP = True,
     LWIP_NETIF_HOSTNAME = True, PREF_IPV4 = True, PREF_ADDR_TIMEOUT = False, BOTH_ADDR_TIMEOUT = False,
     LWIP_IPV6_NUM_ADDRESSES = 3\<rparr>"

theorem status_irq_up_witness:
  "wp (netif_status_irq ipv4_only (\<lambda>h. wired))
    (\<lambda>_ t. connected t = CONNECTION_STATUS_GLOBAL_UP \<and> reports t = [StateCallback 7 True])
    (context_initial\<lparr>network_state_callback := 7\<rparr>)"
proof -
  have c: "choose_ip ipv4_only wired True = Some Addr4"
    by (simp add: choose_ip_def choose_ip4_def ipv4_only_def wired_def)
  show ?thesis
    using status_irq_up [of wired "context_initial\<lparr>network_state_callback := 7\<rparr>" _ ipv4_only True]
    by (auto elim!: wp_mono simp: c wired_def context_initial_def reports_def calls_def)
qed

end
