(* ===== verification/Ntp_Client.thy ===== *)
theory Ntp_Client
  imports C_Heap
begin

unbundle bit_operations_syntax

text \<open>
  The NTP client, \<open>azure-iot-sdk-c/ntp-client/src/iot_ntp_client.c\<close>: the API functions, which run on the
  application's thread, and the task that handles their events.

  Both work on the static \<open>ntp_context\<close>.  The kernel, the sockets and \<open>malloc\<close> are the environment; while
  a thread waits the other may run, so what it does to the context meanwhile is a second parameter,
  applied at every wait for flags and for the mutex.  The first listener is a member of the context, the
  others are blocks of a heap.  Times are 64-bit, as \<open>time_t\<close> of the toolchains in use.
\<close>

section \<open>State\<close>

datatype ntp_result =
    IOT_NTP_CLIENT_OK | IOT_NTP_CLIENT_ERR_WRONG_STATE | IOT_NTP_CLIENT_ERR_INVALID_ARG
  | IOT_NTP_CLIENT_ERR_THREAD | IOT_NTP_CLIENT_ERR_MUTEX | IOT_NTP_CLIENT_ERR_EVENT_QUEUE
  | IOT_NTP_CLIENT_ERR_EVENT_FLAG | IOT_NTP_CLIENT_ERR_NETWORK | IOT_NTP_CLIENT_ERR_TIMER
  | IOT_NTP_CLIENT_ERR_INTERNAL

datatype ntp_state = IOT_NTP_CLIENT_UNINITIALISED | IOT_NTP_CLIENT_STOPPED | IOT_NTP_CLIENT_RUNNING

datatype ntp_call =
    Os os_call | NtpMalloc nat
  | NtpSocketCreate | NtpSocketSetRecvTimeout int u32 | NtpSocketClose int
  | NtpGetHostByName string | NtpSocketConnect int "byte list" u32 | NtpSend int "byte list" | NtpRecv int nat
  | NtpListener nat int nat

record listener =
  l_cb :: nat
  l_ctx :: nat
  l_next :: nat

record ntp_config =
  hostname :: "string option"
  port :: u32
  interval_ms :: u32

record ntp = "ntp_call world" +
  config :: ntp_config
  listeners :: listener
  state :: ntp_state
  error :: ntp_result
  thread :: int
  mutex :: int
  event_queue :: int
  event_flags :: int
  ntp_time :: int
  freq :: u64
  nodes :: "listener heap"

record ntp_os =
  ntp_env :: "ntp_call env"
  ntp_rely :: "reply \<Rightarrow> ntp \<Rightarrow> ntp"

type_synonym 'a ntp_m = "(ntp, 'a) state"

abbreviation (input) NTP_CLIENT_START_FLAG :: u32 where "NTP_CLIENT_START_FLAG \<equiv> 1"
abbreviation (input) NTP_CLIENT_STOP_FLAG :: u32 where "NTP_CLIENT_STOP_FLAG \<equiv> 2"
abbreviation (input) NTP_CLIENT_ERROR_FLAG :: u32 where "NTP_CLIENT_ERROR_FLAG \<equiv> 4"
abbreviation (input) NTP_CLIENT_TERMINATED_FLAG :: u32 where "NTP_CLIENT_TERMINATED_FLAG \<equiv> 8"

abbreviation (input) NTP_CLIENT_ACTION_TIMEOUT_MS :: u32 where "NTP_CLIENT_ACTION_TIMEOUT_MS \<equiv> 60000"
abbreviation (input) NTP_CLIENT_MUTEX_TIMEOUT_MS :: u32 where "NTP_CLIENT_MUTEX_TIMEOUT_MS \<equiv> 1000"
abbreviation (input) NTP_CLIENT_RECV_TIMEOUT_MS :: u32 where "NTP_CLIENT_RECV_TIMEOUT_MS \<equiv> 4000"

abbreviation (input) NTP_EVENT_NONE :: int where "NTP_EVENT_NONE \<equiv> 0"
abbreviation (input) NTP_EVENT_START :: int where "NTP_EVENT_START \<equiv> 1"
abbreviation (input) NTP_EVENT_GET_TIME :: int where "NTP_EVENT_GET_TIME \<equiv> 2"
abbreviation (input) NTP_EVENT_STOP :: int where "NTP_EVENT_STOP \<equiv> 3"
abbreviation (input) NTP_EVENT_TERMINATE :: int where "NTP_EVENT_TERMINATE \<equiv> 4"

abbreviation (input) TIME1970 :: int where "TIME1970 \<equiv> 2208988800"

abbreviation (input) ESOCK :: int where "ESOCK \<equiv> - 2"
abbreviation (input) EAGAIN :: int where "EAGAIN \<equiv> - 6"
abbreviation (input) ETIMEDOUT :: int where "ETIMEDOUT \<equiv> - 8"

definition no_listener :: listener where
  "no_listener = \<lparr>l_cb = 0, l_ctx = 0, l_next = 0\<rparr>"

definition zero_config :: ntp_config where
  "zero_config = \<lparr>hostname = None, port = 0, interval_ms = 0\<rparr>"

text \<open>\<open>memset\<close> of the whole context; the cached frequency and the heap are not part of it.\<close>

definition clear_context :: "unit ntp_m" where
  "clear_context = modify (\<lambda>s. s\<lparr>config := zero_config, listeners := no_listener,
     state := IOT_NTP_CLIENT_UNINITIALISED, error := IOT_NTP_CLIENT_OK, thread := 0, mutex := 0,
     event_queue := 0, event_flags := 0, ntp_time := 0\<rparr>)"

section \<open>Helpers\<close>

definition os :: "ntp_os \<Rightarrow> os_call \<Rightarrow> int ntp_m" where
  "os w c = call (ntp_env w) (Os c)"

text \<open>A call during which the other thread may run.\<close>

definition os_wait :: "ntp_os \<Rightarrow> os_call \<Rightarrow> int ntp_m" where
  "os_wait w c = do { r \<leftarrow> extern (ntp_env w) (Os c); modify (ntp_rely w r); return (ret r) }"

definition ms_to_ticks :: "ntp_os \<Rightarrow> u32 \<Rightarrow> u32 ntp_m" where
  "ms_to_ticks w ms =
     do {
       f \<leftarrow> gets freq;
       do_if (f = 0)
         (do { r \<leftarrow> os w OsKernelGetTickFreq; modify (\<lambda>s. s\<lparr>freq := ucast (of_int r :: u32)\<rparr>) });
       f \<leftarrow> gets freq;
       return (ucast ((ucast ms * f) div 1000))
     }"

definition ntp_timer_callback :: "ntp_os \<Rightarrow> unit ntp_m" where
  "ntp_timer_callback w =
     do { q \<leftarrow> gets event_queue; os w (OsMessageQueuePut q NTP_EVENT_GET_TIME 0); return () }"

definition ntohl :: "u32 \<Rightarrow> u32" where
  "ntohl x =
     push_bit 24 (x AND 0xff) OR push_bit 8 (x AND 0xff00) OR
     drop_bit 8 (x AND 0xff0000) OR drop_bit 24 (x AND 0xff000000)"

definition acquire :: "ntp_os \<Rightarrow> int ntp_m" where
  "acquire w =
     do { t \<leftarrow> ms_to_ticks w NTP_CLIENT_MUTEX_TIMEOUT_MS; m \<leftarrow> gets mutex; os_wait w (OsMutexAcquire m t) }"

definition release :: "ntp_os \<Rightarrow> int ntp_m" where
  "release w = do { m \<leftarrow> gets mutex; os w (OsMutexRelease m) }"

definition set_flags :: "ntp_os \<Rightarrow> u32 \<Rightarrow> int ntp_m" where
  "set_flags w f = do { e \<leftarrow> gets event_flags; r \<leftarrow> os w (OsEventFlagsSet e f); return (sint (of_int r :: u32)) }"

definition wait_for_ntp_event :: "ntp_os \<Rightarrow> u32 \<Rightarrow> ntp_result ntp_m" where
  "wait_for_ntp_event w event =
     do {
       t \<leftarrow> ms_to_ticks w NTP_CLIENT_ACTION_TIMEOUT_MS;
       e \<leftarrow> gets event_flags;
       r \<leftarrow> os_wait w (OsEventFlagsWait e (event OR NTP_CLIENT_ERROR_FLAG) (osFlagsWaitAny OR osFlagsNoClear) t);
       let flags = (of_int r :: u32);
       if sint flags < 0 then gets error
       else do {
         e \<leftarrow> gets event_flags;
         r \<leftarrow> os w (OsEventFlagsClear e ((event OR NTP_CLIENT_ERROR_FLAG) AND flags));
         if sint (of_int r :: u32) < 0 then return IOT_NTP_CLIENT_ERR_EVENT_FLAG
         else if flags = event then return IOT_NTP_CLIENT_OK
         else if flags AND NTP_CLIENT_ERROR_FLAG \<noteq> 0 then
           do {
             status \<leftarrow> acquire w;
             if status \<noteq> osOK then return IOT_NTP_CLIENT_ERR_MUTEX
             else do {
               res \<leftarrow> gets error;
               status \<leftarrow> release w;
               return (if status \<noteq> osOK then IOT_NTP_CLIENT_ERR_MUTEX else res)
             }
           }
         else return IOT_NTP_CLIENT_ERR_INTERNAL
       }
     }"

section \<open>The task\<close>

text \<open>The local variables of \<open>ntp_task\<close> that outlive one event.\<close>

record ntp_task =
  t_timer :: int
  t_socket :: int
  t_error :: ntp_result
  t_working :: bool
  t_started :: bool
  t_config :: ntp_config

definition failed :: "ntp_result \<Rightarrow> ntp_task \<Rightarrow> ntp_task" where
  "failed e k = k\<lparr>t_error := e\<rparr>"

text \<open>\<open>NTP_EVENT_START\<close> up to the fall through; the answer says whether it is reached.\<close>

definition start_event :: "ntp_os \<Rightarrow> ntp_task \<Rightarrow> (ntp_task \<times> bool) ntp_m" where
  "start_event w k =
     do {
       closed \<leftarrow>
         (if t_socket k \<noteq> ESOCK then
            do {
              do_if (t_started k) (do { os w (OsTimerStop (t_timer k)); return () });
              call (ntp_env w) (NtpSocketClose (t_socket k))
            }
          else return 0);
       if closed \<noteq> 0 then return (failed IOT_NTP_CLIENT_ERR_NETWORK k, False)
       else do {
         socket \<leftarrow> call (ntp_env w) NtpSocketCreate;
         let k = k\<lparr>t_socket := socket\<rparr>;
         if socket < 0 then return (failed IOT_NTP_CLIENT_ERR_NETWORK k, False)
         else do {
           res \<leftarrow> call (ntp_env w) (NtpSocketSetRecvTimeout socket NTP_CLIENT_RECV_TIMEOUT_MS);
           if res \<noteq> 0 then return (failed IOT_NTP_CLIENT_ERR_NETWORK k, False)
           else do {
             status \<leftarrow> acquire w;
             if status \<noteq> osOK then return (failed IOT_NTP_CLIENT_ERR_MUTEX k, False)
             else do {
               c \<leftarrow> gets config;
               let k = k\<lparr>t_config := c\<rparr>;
               status \<leftarrow> release w;
               if status \<noteq> osOK then return (failed IOT_NTP_CLIENT_ERR_MUTEX k, False)
               else do {
                 g \<leftarrow> extern (ntp_env w) (NtpGetHostByName (case hostname c of None \<Rightarrow> '''' | Some h \<Rightarrow> h));
                 if ret g \<noteq> 0 then return (failed IOT_NTP_CLIENT_ERR_NETWORK k, False)
                 else do {
                   res \<leftarrow> call (ntp_env w) (NtpSocketConnect socket (pad 4 (payload g)) (port c));
                   if res \<noteq> 0 then return (failed IOT_NTP_CLIENT_ERR_NETWORK k, False)
                   else return (k, True)
                 }
               }
             }
           }
         }
       }
     }"

text \<open>The loop over the listeners; \<open>n\<close> bounds the number of nodes.\<close>

fun call_listeners :: "ntp_os \<Rightarrow> nat \<Rightarrow> listener \<Rightarrow> unit ntp_m" where
  "call_listeners w n x =
     (if l_cb x = 0 then return ()
      else do {
        t \<leftarrow> gets ntp_time;
        tell (ntp_env w) (NtpListener (l_cb x) t (l_ctx x));
        if l_next x = 0 then return ()
        else do {
          h \<leftarrow> gets nodes;
          case (n, h_get h (l_next x)) of
            (Suc m, Some y) \<Rightarrow> call_listeners w m y
          | _ \<Rightarrow> crash
        }
      })"

definition request_bytes :: "byte list" where
  "request_bytes = 0x1b # replicate 47 0"

text \<open>\<open>buf[10]\<close> on a little-endian machine.\<close>

definition word10 :: "byte list \<Rightarrow> u32" where
  "word10 b = ucast (b ! 40) OR push_bit 8 (ucast (b ! 41)) OR push_bit 16 (ucast (b ! 42)) OR push_bit 24 (ucast (b ! 43))"

text \<open>After a send or a receive that fails: a timeout asks for a new request at once.\<close>

definition transfer_failed :: "ntp_os \<Rightarrow> int \<Rightarrow> ntp_task \<Rightarrow> ntp_task ntp_m" where
  "transfer_failed w res k =
     (if res = EAGAIN \<or> res = ETIMEDOUT then do { ntp_timer_callback w; return (k\<lparr>t_working := False\<rparr>) }
      else return (failed IOT_NTP_CLIENT_ERR_NETWORK (k\<lparr>t_working := False\<rparr>)))"

definition time_received_event :: "ntp_os \<Rightarrow> int \<Rightarrow> ntp_task \<Rightarrow> (ntp_task \<times> bool) ntp_m" where
  "time_received_event w time_received k =
     (if time_received < TIME1970 then
        do { ntp_timer_callback w; return (k\<lparr>t_working := False\<rparr>, False) }
      else do {
        status \<leftarrow> acquire w;
        if status \<noteq> osOK then return (failed IOT_NTP_CLIENT_ERR_MUTEX k, False)
        else do {
          modify (\<lambda>s. s\<lparr>ntp_time := time_received - TIME1970\<rparr>);
          l \<leftarrow> gets listeners;
          h \<leftarrow> gets nodes;
          call_listeners w (Suc (length h)) l;
          status \<leftarrow> release w;
          return (if status \<noteq> osOK then (failed IOT_NTP_CLIENT_ERR_MUTEX k, False) else (k, True))
        }
      })"

definition first_answer :: "ntp_os \<Rightarrow> ntp_task \<Rightarrow> ntp_task ntp_m" where
  "first_answer w k =
     (if t_started k then return (k\<lparr>t_working := True\<rparr>)
      else do {
        t \<leftarrow> ms_to_ticks w (interval_ms (t_config k));
        res \<leftarrow> os w (OsTimerStart (t_timer k) t);
        if res \<noteq> 0 then return (failed IOT_NTP_CLIENT_ERR_TIMER k)
        else do {
          let k = k\<lparr>t_started := True\<rparr>;
          res \<leftarrow> set_flags w NTP_CLIENT_START_FLAG;
          return (if res < 0 then failed IOT_NTP_CLIENT_ERR_EVENT_FLAG k else k\<lparr>t_working := True\<rparr>)
        }
      })"

definition get_time_event :: "ntp_os \<Rightarrow> ntp_task \<Rightarrow> ntp_task ntp_m" where
  "get_time_event w k =
     do {
       res \<leftarrow> call (ntp_env w) (NtpSend (t_socket k) request_bytes);
       if res < 0 then transfer_failed w res k
       else do {
         r \<leftarrow> extern (ntp_env w) (NtpRecv (t_socket k) 48);
         if ret r < 0 then transfer_failed w (ret r) k
         else do {
           (k, go) \<leftarrow> (if ret r = 48 then time_received_event w (uint (ntohl (word10 (pad 48 (payload r))))) k
                        else return (k, True));
           if go then first_answer w k else return k
         }
       }
     }"

definition stop_event :: "ntp_os \<Rightarrow> ntp_task \<Rightarrow> ntp_task ntp_m" where
  "stop_event w k =
     do {
       os w (OsTimerStop (t_timer k));
       res \<leftarrow> call (ntp_env w) (NtpSocketClose (t_socket k));
       if res \<noteq> 0 then return (failed IOT_NTP_CLIENT_ERR_NETWORK k)
       else do {
         let k = k\<lparr>t_socket := ESOCK\<rparr>;
         res \<leftarrow> set_flags w NTP_CLIENT_STOP_FLAG;
         return (if res < 0 then failed IOT_NTP_CLIENT_ERR_EVENT_FLAG k else k)
       }
     }"

definition handle_event :: "ntp_os \<Rightarrow> int \<Rightarrow> ntp_task \<Rightarrow> ntp_task ntp_m" where
  "handle_event w event k =
     (if event = NTP_EVENT_START then
        do { (k, go) \<leftarrow> start_event w k; if go then get_time_event w k else return k }
      else if event = NTP_EVENT_GET_TIME then get_time_event w k
      else if event = NTP_EVENT_STOP then stop_event w k
      else return k)"

text \<open>The report of an error; the answer is \<open>False\<close> when the task gives up.\<close>

definition report_error :: "ntp_os \<Rightarrow> ntp_result \<Rightarrow> bool ntp_m" where
  "report_error w e =
     (if e = IOT_NTP_CLIENT_OK then return True
      else do {
        status \<leftarrow> acquire w;
        if status \<noteq> osOK then return False
        else do {
          modify (\<lambda>s. s\<lparr>error := e\<rparr>);
          status \<leftarrow> release w;
          if status \<noteq> osOK then return False
          else do { res \<leftarrow> set_flags w NTP_CLIENT_ERROR_FLAG; return (0 \<le> res) }
        }
      })"

text \<open>One turn of the loop; the answer says whether the loop goes on.\<close>

definition ntp_turn :: "ntp_os \<Rightarrow> ntp_task \<Rightarrow> (ntp_task \<times> bool) ntp_m" where
  "ntp_turn w k =
     do {
       q \<leftarrow> gets event_queue;
       r \<leftarrow> extern (ntp_env w) (Os (OsMessageQueueGet q osWaitForever));
       modify (ntp_rely w r);
       let k = (if ret r \<noteq> osOK then failed IOT_NTP_CLIENT_ERR_EVENT_QUEUE k else k);
       let event = (if ret r \<noteq> osOK then NTP_EVENT_NONE else (case outs r of [] \<Rightarrow> NTP_EVENT_NONE | e # _ \<Rightarrow> e));
       let event = (if event = NTP_EVENT_GET_TIME \<and> \<not> t_working k then NTP_EVENT_START else event);
       k \<leftarrow> handle_event w event k;
       go \<leftarrow> report_error w (t_error k);
       return (k, go \<and> event \<noteq> NTP_EVENT_TERMINATE)
     }"

fun ntp_loop :: "ntp_os \<Rightarrow> nat \<Rightarrow> ntp_task \<Rightarrow> ntp_task option ntp_m" where
  "ntp_loop w 0 k = return None"
| "ntp_loop w (Suc fuel) k =
     do { (k, go) \<leftarrow> ntp_turn w k; if go then ntp_loop w fuel k else return (Some k) }"

definition ntp_task_exit :: "ntp_os \<Rightarrow> ntp_task \<Rightarrow> unit ntp_m" where
  "ntp_task_exit w k =
     do {
       do_if (t_socket k \<noteq> ESOCK) (tell (ntp_env w) (NtpSocketClose (t_socket k)));
       do_if (t_timer k \<noteq> 0) (do { os w (OsTimerDelete (t_timer k)); return () });
       set_flags w NTP_CLIENT_TERMINATED_FLAG;
       tell (ntp_env w) (Os OsThreadExit)
     }"

definition ntp_task_main :: "ntp_os \<Rightarrow> nat \<Rightarrow> unit option ntp_m" where
  "ntp_task_main w fuel =
     do {
       timer \<leftarrow> os w (OsTimerNew 0);
       if timer = 0 then return (Some ())
       else do {
         r \<leftarrow> ntp_loop w fuel \<lparr>t_timer = timer, t_socket = ESOCK, t_error = IOT_NTP_CLIENT_OK,
                t_working = False, t_started = False, t_config = zero_config\<rparr>;
         case r of None \<Rightarrow> return None | Some k \<Rightarrow> do { ntp_task_exit w k; return (Some ()) }
       }
     }"

section \<open>The API\<close>

definition put_event :: "ntp_os \<Rightarrow> int \<Rightarrow> int ntp_m" where
  "put_event w event = do { q \<leftarrow> gets event_queue; os w (OsMessageQueuePut q event 0) }"

definition iotNtpClientStop :: "ntp_os \<Rightarrow> ntp_result ntp_m" where
  "iotNtpClientStop w =
     do {
       st \<leftarrow> gets state;
       if st = IOT_NTP_CLIENT_UNINITIALISED then return IOT_NTP_CLIENT_ERR_WRONG_STATE
       else do {
         status \<leftarrow> (if st = IOT_NTP_CLIENT_RUNNING then put_event w NTP_EVENT_STOP else return osOK);
         if status \<noteq> osOK then return IOT_NTP_CLIENT_ERR_EVENT_QUEUE
         else do {
           res \<leftarrow> wait_for_ntp_event w NTP_CLIENT_STOP_FLAG;
           do_if (res = IOT_NTP_CLIENT_OK) (modify (\<lambda>s. s\<lparr>state := IOT_NTP_CLIENT_STOPPED\<rparr>));
           return res
         }
       }
     }"

definition iotNtpClientStart :: "ntp_os \<Rightarrow> ntp_result ntp_m" where
  "iotNtpClientStart w =
     do {
       st \<leftarrow> gets state;
       if st = IOT_NTP_CLIENT_UNINITIALISED then return IOT_NTP_CLIENT_ERR_WRONG_STATE
       else do {
         status \<leftarrow> (if st = IOT_NTP_CLIENT_STOPPED then put_event w NTP_EVENT_START else return osOK);
         if status \<noteq> osOK then return IOT_NTP_CLIENT_ERR_EVENT_QUEUE
         else do {
           res \<leftarrow> wait_for_ntp_event w NTP_CLIENT_START_FLAG;
           do_if (res = IOT_NTP_CLIENT_OK) (modify (\<lambda>s. s\<lparr>state := IOT_NTP_CLIENT_RUNNING\<rparr>));
           return res
         }
       }
     }"

text \<open>The three deletions at the end of \<open>iotNtpClientDeinit\<close>.\<close>

definition delete_objects :: "ntp_os \<Rightarrow> ntp_result ntp_m" where
  "delete_objects w =
     do {
       e \<leftarrow> gets event_flags;
       res \<leftarrow> (if e \<noteq> 0 then os w (OsEventFlagsDelete e) else return osOK);
       if res \<noteq> osOK then return IOT_NTP_CLIENT_ERR_EVENT_FLAG
       else do {
         q \<leftarrow> gets event_queue;
         res \<leftarrow> (if q \<noteq> 0 then os w (OsMessageQueueDelete q) else return osOK);
         if res \<noteq> osOK then return IOT_NTP_CLIENT_ERR_EVENT_QUEUE
         else do {
           modify (\<lambda>s. s\<lparr>event_queue := 0\<rparr>);
           m \<leftarrow> gets mutex;
           res \<leftarrow> (if m \<noteq> 0 then os w (OsMutexDelete m) else return osOK);
           if res \<noteq> osOK then return IOT_NTP_CLIENT_ERR_MUTEX
           else do { clear_context; return IOT_NTP_CLIENT_OK }
         }
       }
     }"

definition iotNtpClientDeinit :: "ntp_os \<Rightarrow> ntp_result ntp_m" where
  "iotNtpClientDeinit w =
     do {
       st \<leftarrow> gets state;
       res \<leftarrow> (if st = IOT_NTP_CLIENT_RUNNING then iotNtpClientStop w else return IOT_NTP_CLIENT_OK);
       if res \<noteq> IOT_NTP_CLIENT_OK then return res
       else do {
         t \<leftarrow> gets thread;
         res \<leftarrow>
           (if t \<noteq> 0 then
              do {
                status \<leftarrow> put_event w NTP_EVENT_TERMINATE;
                if status \<noteq> osOK then return IOT_NTP_CLIENT_ERR_EVENT_QUEUE
                else do {
                  res \<leftarrow> wait_for_ntp_event w NTP_CLIENT_TERMINATED_FLAG;
                  do_if (res = IOT_NTP_CLIENT_OK) (modify (\<lambda>s. s\<lparr>thread := 0\<rparr>));
                  return res
                }
              }
            else return IOT_NTP_CLIENT_OK);
         if res \<noteq> IOT_NTP_CLIENT_OK then return res else delete_objects w
       }
     }"

definition with_defaults :: "ntp_config \<Rightarrow> ntp_config" where
  "with_defaults c = \<lparr>hostname = (case hostname c of None \<Rightarrow> Some ''pool.ntp.org'' | Some h \<Rightarrow> Some h),
     port = (if port c = 0 then 123 else port c),
     interval_ms = (if interval_ms c = 0 then 15000 else interval_ms c)\<rparr>"

text \<open>Creation of the four objects; a failure takes down what there is and answers with its error.\<close>

definition give_up :: "ntp_os \<Rightarrow> ntp_result \<Rightarrow> ntp_result ntp_m" where
  "give_up w e = do { iotNtpClientDeinit w; return e }"

definition iotNtpClientInit :: "ntp_os \<Rightarrow> ntp_config option \<Rightarrow> ntp_result ntp_m" where
  "iotNtpClientInit w c =
     do {
       st \<leftarrow> gets state;
       if st \<noteq> IOT_NTP_CLIENT_UNINITIALISED then return IOT_NTP_CLIENT_OK
       else do {
         clear_context;
         modify (\<lambda>s. s\<lparr>config := with_defaults (case c of None \<Rightarrow> zero_config | Some x \<Rightarrow> x)\<rparr>);
         i \<leftarrow> os w OsMutexNew;
         modify (\<lambda>s. s\<lparr>mutex := i\<rparr>);
         if i = 0 then give_up w IOT_NTP_CLIENT_ERR_MUTEX
         else do {
           i \<leftarrow> os w (OsMessageQueueNew 5 4);
           modify (\<lambda>s. s\<lparr>event_queue := i\<rparr>);
           if i = 0 then give_up w IOT_NTP_CLIENT_ERR_EVENT_QUEUE
           else do {
             i \<leftarrow> os w OsEventFlagsNew;
             modify (\<lambda>s. s\<lparr>event_flags := i\<rparr>);
             if i = 0 then give_up w IOT_NTP_CLIENT_ERR_EVENT_FLAG
             else do {
               i \<leftarrow> os w (OsThreadNew 0 0 0 0);
               modify (\<lambda>s. s\<lparr>thread := i\<rparr>);
               if i = 0 then give_up w IOT_NTP_CLIENT_ERR_THREAD
               else do { modify (\<lambda>s. s\<lparr>state := IOT_NTP_CLIENT_STOPPED\<rparr>); return IOT_NTP_CLIENT_OK }
             }
           }
         }
       }
     }"

section \<open>Listeners\<close>

text \<open>A pointer to a listener: the member of the context, or a node.\<close>

datatype lptr = Head | Node nat

definition get_listener :: "lptr \<Rightarrow> listener ntp_m" where
  "get_listener p = (case p of Head \<Rightarrow> gets listeners
     | Node a \<Rightarrow> do { h \<leftarrow> gets nodes;
         case h_get h a of Some x \<Rightarrow> return x | None \<Rightarrow> do { crash; return no_listener } })"

definition set_listener :: "lptr \<Rightarrow> (listener \<Rightarrow> listener) \<Rightarrow> unit ntp_m" where
  "set_listener p f =
     do { x \<leftarrow> get_listener p;
          case p of Head \<Rightarrow> modify (\<lambda>s. s\<lparr>listeners := f x\<rparr>)
          | Node a \<Rightarrow> modify (\<lambda>s. s\<lparr>nodes := h_put (nodes s) a (f x)\<rparr>) }"

text \<open>\<open>malloc\<close> leaves the node's fields as the memory had them: the words in the answer's \<open>outs\<close>.\<close>

definition word_of :: "reply \<Rightarrow> nat \<Rightarrow> nat" where
  "word_of r i = (if i < length (outs r) then nat (outs r ! i) else 0)"

definition malloc_listener :: "ntp_os \<Rightarrow> nat ntp_m" where
  "malloc_listener w =
     do {
       r \<leftarrow> extern (ntp_env w) (NtpMalloc 12);
       h \<leftarrow> gets nodes;
       let (a, h') = h_alloc h (word_of r 0) 12 \<lparr>l_cb = word_of r 1, l_ctx = word_of r 2, l_next = word_of r 3\<rparr>;
       modify (\<lambda>s. s\<lparr>nodes := h'\<rparr>);
       return a
     }"

definition free_listener :: "lptr \<Rightarrow> unit ntp_m" where
  "free_listener p = (case p of Head \<Rightarrow> crash
     | Node a \<Rightarrow> do { h \<leftarrow> gets nodes; do_if (h_get h a = None) crash; modify (\<lambda>s. s\<lparr>nodes := h_free h a\<rparr>) })"

fun find_free :: "ntp_os \<Rightarrow> nat \<Rightarrow> lptr \<Rightarrow> lptr option ntp_m" where
  "find_free w 0 p = return None"
| "find_free w (Suc fuel) p =
     do {
       x \<leftarrow> get_listener p;
       if l_cb x = 0 then return (Some p)
       else do {
         do_if (l_next x = 0)
           (do { a \<leftarrow> malloc_listener w;
                 set_listener p (\<lambda>x. x\<lparr>l_next := a\<rparr>);
                 set_listener (Node a) (\<lambda>x. x\<lparr>l_next := 0\<rparr>) });
         x \<leftarrow> get_listener p;
         find_free w fuel (Node (l_next x))
       }
     }"

definition iotNtpClientAddListener :: "ntp_os \<Rightarrow> nat \<Rightarrow> nat \<Rightarrow> nat \<Rightarrow> ntp_result option ntp_m" where
  "iotNtpClientAddListener w fuel callback context =
     (if callback = 0 then return (Some IOT_NTP_CLIENT_ERR_INVALID_ARG)
      else do {
        st \<leftarrow> gets state;
        if st = IOT_NTP_CLIENT_UNINITIALISED then return (Some IOT_NTP_CLIENT_ERR_WRONG_STATE)
        else do {
          status \<leftarrow> acquire w;
          if status \<noteq> osOK then return (Some IOT_NTP_CLIENT_ERR_MUTEX)
          else do {
            f \<leftarrow> find_free w fuel Head;
            case f of None \<Rightarrow> return None
            | Some p \<Rightarrow>
              do {
                set_listener p (\<lambda>x. x\<lparr>l_cb := callback\<rparr>);
                do_if (context \<noteq> 0) (set_listener p (\<lambda>x. x\<lparr>l_ctx := context\<rparr>));
                status \<leftarrow> release w;
                return (Some (if status \<noteq> osOK then IOT_NTP_CLIENT_ERR_MUTEX else IOT_NTP_CLIENT_OK))
              }
          }
        }
      })"

fun free_loop :: "nat \<Rightarrow> lptr \<Rightarrow> unit option ntp_m" where
  "free_loop 0 p = return None"
| "free_loop (Suc fuel) p =
     do {
       x \<leftarrow> get_listener p;
       if l_next x = 0 then return (Some ())
       else do { free_listener p; free_loop fuel (Node (l_next x)) }
     }"

definition iotNtpClientClearListeners :: "ntp_os \<Rightarrow> nat \<Rightarrow> ntp_result option ntp_m" where
  "iotNtpClientClearListeners w fuel =
     do {
       st \<leftarrow> gets state;
       if st = IOT_NTP_CLIENT_UNINITIALISED then return (Some IOT_NTP_CLIENT_ERR_WRONG_STATE)
       else do {
         status \<leftarrow> acquire w;
         if status \<noteq> osOK then return (Some IOT_NTP_CLIENT_ERR_MUTEX)
         else do {
           modify (\<lambda>s. s\<lparr>listeners := (listeners s)\<lparr>l_cb := 0\<rparr>\<rparr>);
           modify (\<lambda>s. s\<lparr>listeners := (listeners s)\<lparr>l_ctx := 0\<rparr>\<rparr>);
           r \<leftarrow> free_loop fuel Head;
           case r of None \<Rightarrow> return None
           | Some _ \<Rightarrow>
             do {
               status \<leftarrow> release w;
               return (Some (if status \<noteq> osOK then IOT_NTP_CLIENT_ERR_MUTEX else IOT_NTP_CLIENT_OK))
             }
         }
       }
     }"

section \<open>Time and state\<close>

text \<open>The result enumeration as the number it is converted to when it is returned as a time.\<close>

fun result_code :: "ntp_result \<Rightarrow> int" where
  "result_code IOT_NTP_CLIENT_OK = 0"
| "result_code IOT_NTP_CLIENT_ERR_WRONG_STATE = 1"
| "result_code IOT_NTP_CLIENT_ERR_INVALID_ARG = 2"
| "result_code IOT_NTP_CLIENT_ERR_THREAD = 3"
| "result_code IOT_NTP_CLIENT_ERR_MUTEX = 4"
| "result_code IOT_NTP_CLIENT_ERR_EVENT_QUEUE = 5"
| "result_code IOT_NTP_CLIENT_ERR_EVENT_FLAG = 6"
| "result_code IOT_NTP_CLIENT_ERR_NETWORK = 7"
| "result_code IOT_NTP_CLIENT_ERR_TIMER = 8"
| "result_code IOT_NTP_CLIENT_ERR_INTERNAL = 9"

definition iotNtpClientGetTime :: "ntp_os \<Rightarrow> int ntp_m" where
  "iotNtpClientGetTime w =
     do {
       st \<leftarrow> gets state;
       if st = IOT_NTP_CLIENT_UNINITIALISED then return (result_code IOT_NTP_CLIENT_ERR_WRONG_STATE)
       else do {
         status \<leftarrow> acquire w;
         if status \<noteq> osOK then return (result_code IOT_NTP_CLIENT_ERR_MUTEX)
         else do {
           t \<leftarrow> gets ntp_time;
           status \<leftarrow> release w;
           return (if status \<noteq> osOK then result_code IOT_NTP_CLIENT_ERR_MUTEX else t)
         }
       }
     }"

definition iotNtpClientGetState :: "ntp_state ntp_m" where
  "iotNtpClientGetState = gets state"

end
