(* ===== verification/Ntp_Spec.thy ===== *)
theory Ntp_Spec
  imports Ntp_Client
begin

unbundle bit_operations_syntax

text \<open>
  What the NTP client promises: an answer of the server sets the time and reaches every listener; and
  where it does not keep its promise, after a stop, after a timeout and when listeners are cleared.
\<close>

section \<open>The time in an answer\<close>

lemma ntohl_mask: "ntohl x = push_bit 24 (x AND mask 8) OR push_bit 8 (x AND push_bit 8 (mask 8)) OR
     drop_bit 8 (x AND push_bit 16 (mask 8)) OR drop_bit 24 (x AND push_bit 24 (mask 8))"
proof -
  have "(mask 8 :: u32) = 0xff" "(push_bit 8 (mask 8) :: u32) = 0xff00"
    "(push_bit 16 (mask 8) :: u32) = 0xff0000" "(push_bit 24 (mask 8) :: u32) = 0xff000000"
    by (simp_all add: mask_eq_exp_minus_1)
  then show ?thesis by (simp only: ntohl_def)
qed

lemma byte_high: "bit (x :: byte) n \<Longrightarrow> n < 8"
  using bit_imp_le_length [of x n] by simp

lemma pick_byte:
  fixes a b c d :: byte
  defines "x \<equiv> ucast a OR push_bit 8 (ucast b) OR push_bit 16 (ucast c) OR push_bit 24 (ucast d) :: u32"
  shows "x AND mask 8 = ucast a" "x AND push_bit 8 (mask 8) = push_bit 8 (ucast b)"
    "x AND push_bit 16 (mask 8) = push_bit 16 (ucast c)" "x AND push_bit 24 (mask 8) = push_bit 24 (ucast d)"
  unfolding x_def by (rule bit_word_eqI; auto simp: bit_simps dest: byte_high)+

lemma ntohl_little_endian:
  fixes a b c d :: byte
  shows "ntohl (ucast a OR push_bit 8 (ucast b) OR push_bit 16 (ucast c) OR push_bit 24 (ucast d)) =
    push_bit 24 (ucast a) OR push_bit 16 (ucast b) OR push_bit 8 (ucast c) OR ucast d"
proof -
  have "drop_bit 8 (push_bit 16 (ucast c)) = (push_bit 8 (ucast c) :: u32)"
    "drop_bit 24 (push_bit 24 (ucast d)) = (ucast d :: u32)"
    by (rule bit_word_eqI; auto simp: bit_simps dest: byte_high)+
  then show ?thesis unfolding ntohl_mask pick_byte by simp
qed

lemma or_add: "(x :: u32) AND y = 0 \<Longrightarrow> x OR y = x + y"
  by (simp add: disjunctive_add_eq_or)

lemma uint_big_endian:
  fixes a b c d :: byte
  shows "uint (push_bit 24 (ucast a) OR push_bit 16 (ucast b) OR push_bit 8 (ucast c) OR ucast d :: u32) =
   uint a * 16777216 + uint b * 65536 + uint c * 256 + uint d"
proof -
  have z1: "push_bit 8 (ucast c) AND (ucast d :: u32) = 0"
    by (rule bit_word_eqI) (auto simp: bit_simps dest: bit_imp_le_length)
  have z2: "push_bit 16 (ucast b) AND (push_bit 8 (ucast c) OR ucast d :: u32) = 0"
    by (rule bit_word_eqI) (auto simp: bit_simps dest: bit_imp_le_length)
  have z3: "push_bit 24 (ucast a) AND (push_bit 16 (ucast b) OR push_bit 8 (ucast c) OR ucast d :: u32) = 0"
    by (rule bit_word_eqI) (auto simp: bit_simps dest: bit_imp_le_length)
  have l: "uint x < 256" for x :: byte
    by (rule order_less_le_trans [OF uint_lt2p]) simp
  have u: "uint (ucast x :: u32) = uint x" for x :: byte
    using l [of x] by (simp only: unsigned_ucast_eq) (simp add: take_bit_int_eq_self)
  show ?thesis
    using l [of a] l [of b] l [of c] l [of d]
    by (subst or_add [OF z3], subst or_add [OF z2], subst or_add [OF z1])
      (simp add: push_bit_eq_mult uint_word_ariths u)
qed

text \<open>The transmit timestamp of an NTP packet: four bytes from offset 40, most significant first.\<close>

definition seconds_of :: "byte list \<Rightarrow> int" where
  "seconds_of b = uint (b ! 40) * 16777216 + uint (b ! 41) * 65536 + uint (b ! 42) * 256 + uint (b ! 43)"

lemma received_seconds: "uint (ntohl (word10 b)) = seconds_of b"
  by (simp add: word10_def ntohl_little_endian uint_big_endian seconds_of_def)

section \<open>Listeners\<close>

text \<open>The list of callbacks and contexts that starts at a listener.\<close>

fun chain :: "listener heap \<Rightarrow> listener \<Rightarrow> (nat \<times> nat) list \<Rightarrow> bool" where
  "chain h x [] = (l_cb x = 0)"
| "chain h x ((c, d) # ls) =
     (c \<noteq> 0 \<and> l_cb x = c \<and> l_ctx x = d \<and>
      (if l_next x = 0 then ls = [] else (case h_get h (l_next x) of None \<Rightarrow> False | Some y \<Rightarrow> chain h y ls)))"

definition told :: "int \<Rightarrow> (nat \<times> nat) list \<Rightarrow> ntp_call list" where
  "told t ls = map (\<lambda>(c, d). NtpListener c t d) ls"

lemma wp_call_listeners:
  "chain (nodes s) x ls \<Longrightarrow> length ls \<le> n \<Longrightarrow>
    wp (call_listeners w n x) (\<lambda>_ t. t = s\<lparr>history := history t\<rparr> \<and> calls t = calls s @ told (ntp_time s) ls) s"
proof (induction ls arbitrary: s x n)
  case Nil
  then show ?case by (simp add: wp told_def)
next
  case (Cons p ls)
  obtain c d where p: "p = (c, d)" by (cases p)
  show ?case
  proof (cases "l_next x = 0")
    case True
    then show ?thesis using Cons.prems by (simp add: wp told_def p calls_def)
  next
    case False
    then obtain y where y: "h_get (nodes s) (l_next x) = Some y" "chain (nodes s) y ls"
      using Cons.prems(1) by (auto simp: p split: option.splits)
    define u where "u = s\<lparr>history := (NtpListener c (ntp_time s) d,
      ntp_env w (history s) (NtpListener c (ntp_time s) d)) # history s\<rparr>"
    show ?thesis
    proof (cases n)
      case 0
      then show ?thesis using Cons.prems(2) by simp
    next
      case (Suc m)
      have "wp (call_listeners w m y) (\<lambda>_ t. t = u\<lparr>history := history t\<rparr> \<and> calls t = calls u @ told (ntp_time u) ls) u"
        using Cons.IH [of u y m] y(2) Cons.prems(2) Suc by (simp add: u_def)
      then have "wp (call_listeners w m y) (\<lambda>_ t. t = s\<lparr>history := history t\<rparr> \<and>
          calls t = calls s @ told (ntp_time s) (p # ls)) u"
        by (rule wp_mono) (auto simp: u_def told_def calls_def p)
      moreover have "nodes u = nodes s" by (simp add: u_def)
      ultimately show ?thesis
        using False y Cons.prems(1) Suc
        by (subst call_listeners.simps) (simp add: wp p u_def [symmetric] del: call_listeners.simps)
    qed
  qed
qed

section \<open>An answer of the server\<close>

fun listener_call :: "ntp_call \<Rightarrow> bool" where
  "listener_call (NtpListener c t d) = True"
| "listener_call c = False"

definition told_so_far :: "ntp \<Rightarrow> ntp_call list" where
  "told_so_far s = filter listener_call (calls s)"

lemma told_call [simp]: "\<not> listener_call c \<Longrightarrow> told_so_far (s\<lparr>history := (c, r) # history s\<rparr>) = told_so_far s"
  by (simp add: told_so_far_def calls_def)

lemma told_fields [simp]:
  "told_so_far (s\<lparr>freq := f\<rparr>) = told_so_far s" "told_so_far (s\<lparr>ntp_time := x\<rparr>) = told_so_far s" "told_so_far (s\<lparr>error := e\<rparr>) = told_so_far s"
  by (simp_all add: told_so_far_def calls_def)

text \<open>What the other thread may do while this one waits: not touch the listeners, and not call for this one.\<close>

definition polite :: "ntp_os \<Rightarrow> bool" where
  "polite w \<longleftrightarrow> (\<forall>r s. history (ntp_rely w r s) = history s \<and> listeners (ntp_rely w r s) = listeners s \<and>
     nodes (ntp_rely w r s) = nodes s)"

lemma polite_told: "polite w \<Longrightarrow> told_so_far (ntp_rely w r s) = told_so_far s"
  by (simp add: polite_def told_so_far_def calls_def)

definition with_list :: "listener \<Rightarrow> listener heap \<Rightarrow> ntp_call list \<Rightarrow> ntp \<Rightarrow> bool" where
  "with_list l h c s \<longleftrightarrow> listeners s = l \<and> nodes s = h \<and> told_so_far s = c"

lemma keeps_ms_to_ticks:
  "keeps (with_list l h c) (ms_to_ticks w x)"
  "keeps (\<lambda>s. ntp_time s = t \<and> told_so_far s = c) (ms_to_ticks w x)"
  unfolding ms_to_ticks_def os_def by (intro keeps; simp add: with_list_def)+

lemma ensures_acquire:
  assumes "polite w" and "\<And>h m t. ret (ntp_env w h (Os (OsMutexAcquire m t))) = 0"
  shows "ensures (with_list l h c) (\<lambda>r. r = 0) (acquire w)"
  unfolding acquire_def
  by (intro ensures_skip [OF keeps_ms_to_ticks(1)] ensures_skip [OF keeps_gets])
    (use assms in \<open>simp add: ensures_def os_wait_def wp with_list_def polite_told polite_def\<close>)

lemma keeps_release: "keeps (\<lambda>s. ntp_time s = t \<and> told_so_far s = c) (release w)"
  unfolding release_def os_def by (intro keeps; simp)+

lemma keeps_first_answer: "keeps (\<lambda>s. ntp_time s = t \<and> told_so_far s = c) (first_answer w k)"
  unfolding first_answer_def set_flags_def os_def
  by (intro keeps keeps_ms_to_ticks; simp)+

lemma ensures_release:
  assumes "\<And>h m. ret (ntp_env w h (Os (OsMutexRelease m))) = 0"
  shows "ensures (\<lambda>s. ntp_time s = t \<and> told_so_far s = c) (\<lambda>r. r = 0) (release w)"
  unfolding release_def os_def using assms by (simp add: ensures_def wp)

lemma filter_told [simp]: "filter listener_call (told t ls) = told t ls"
  by (induction ls) (auto simp: told_def)

text \<open>The hypotheses on a working kernel.\<close>

definition mutex_works :: "ntp_os \<Rightarrow> bool" where
  "mutex_works w \<longleftrightarrow> (\<forall>h m t. ret (ntp_env w h (Os (OsMutexAcquire m t))) = 0 \<and>
     ret (ntp_env w h (Os (OsMutexRelease m))) = 0)"

lemma time_received:
  assumes "polite w" and "mutex_works w"
    and "TIME1970 \<le> n" and "chain h l ls" and "length ls \<le> Suc (length h)"
    and s: "with_list l h c s"
  shows "wp (time_received_event w n k)
    (\<lambda>a t. a = (k, True) \<and> ntp_time t = n - TIME1970 \<and> told_so_far t = c @ told (n - TIME1970) ls) s"
proof -
  have listen: "wp (do { modify (\<lambda>s. s\<lparr>ntp_time := n - TIME1970\<rparr>); l \<leftarrow> gets listeners; h \<leftarrow> gets nodes;
        call_listeners w (Suc (length h)) l; status \<leftarrow> release w;
        return (if status \<noteq> osOK then (failed IOT_NTP_CLIENT_ERR_MUTEX k, False) else (k, True)) })
      (\<lambda>a t. a = (k, True) \<and> ntp_time t = n - TIME1970 \<and> told_so_far t = c @ told (n - TIME1970) ls) u"
    if u: "with_list l h c u" for u
  proof -
    define v where "v = u\<lparr>ntp_time := n - TIME1970\<rparr>"
    have v: "listeners v = l" "nodes v = h" "told_so_far v = c" "ntp_time v = n - TIME1970"
      using u by (simp_all add: v_def with_list_def)
    have "wp (call_listeners w (Suc (length h)) l)
        (\<lambda>_ t. t = v\<lparr>history := history t\<rparr> \<and> calls t = calls v @ told (ntp_time v) ls) v"
      using assms(4,5) v by (intro wp_call_listeners) simp_all
    then have L: "wp (call_listeners w (Suc (length h)) l)
        (\<lambda>_ t. ntp_time t = n - TIME1970 \<and> told_so_far t = c @ told (n - TIME1970) ls) v"
    proof (rule wp_mono)
      fix x t
      assume t: "t = v\<lparr>history := history t\<rparr> \<and> calls t = calls v @ told (ntp_time v) ls"
      then have "ntp_time t = ntp_time (v\<lparr>history := history t\<rparr>)" by (intro arg_cong [of t _ ntp_time]) simp
      then have "ntp_time t = ntp_time v" by simp
      then show "ntp_time t = n - TIME1970 \<and> told_so_far t = c @ told (n - TIME1970) ls"
        using t v by (simp add: told_so_far_def)
    qed
    have R: "wp (do { status \<leftarrow> release w;
        return (if status \<noteq> osOK then (failed IOT_NTP_CLIENT_ERR_MUTEX k, False) else (k, True)) })
      (\<lambda>a t. a = (k, True) \<and> ntp_time t = n - TIME1970 \<and> told_so_far t = c @ told (n - TIME1970) ls) t"
      if "ntp_time t = n - TIME1970 \<and> told_so_far t = c @ told (n - TIME1970) ls" for t
      unfolding wp_bind
      by (rule wp_mono [OF ensuresD [OF ensures_release that]]) (use assms(2) in \<open>auto simp: mutex_works_def wp\<close>)
    show ?thesis
      by (simp only: wp_bind wp_modify wp_gets v_def [symmetric] v) (rule wp_mono [OF L], rule R)
  qed
  show ?thesis
    unfolding time_received_event_def using assms(3)
    by (simp add: wp_bind not_less)
      (rule wp_mono [OF ensuresD [OF ensures_acquire [OF assms(1)] s]],
        use assms(2) listen in \<open>auto simp: mutex_works_def wp_bind\<close>)
qed

text \<open>
  C16. When the server answers a request with a whole packet whose transmit time is not before 1970, the
  client's time becomes that time as seconds since 1970, and every listener is called once with it, in
  the order of the list, whatever the rest of the round does.
\<close>

theorem ntp_answer_sets_time:
  assumes "polite w" and "mutex_works w" and "\<And>h i d. 0 \<le> ret (ntp_env w h (NtpSend i d))"
    and "\<And>h i n. ntp_env w h (NtpRecv i n) = r" and "ret r = 48" and "length (payload r) = 48"
    and "TIME1970 \<le> seconds_of (payload r)" and "chain (nodes s) (listeners s) ls"
    and "length ls \<le> Suc (length (nodes s))"
  shows "wp (get_time_event w k)
    (\<lambda>_ t. ntp_time t = seconds_of (payload r) - TIME1970 \<and>
       told_so_far t = told_so_far s @ told (seconds_of (payload r) - TIME1970) ls) s"
proof -
  define c where "c = NtpSend (t_socket k) request_bytes"
  define s1 where "s1 = s\<lparr>history := (c, ntp_env w (history s) c) # history s\<rparr>"
  define s2 where "s2 = s1\<lparr>history := (NtpRecv (t_socket k) 48, r) # history s1\<rparr>"
  have "with_list (listeners s) (nodes s) (told_so_far s) s1"
    by (simp add: s1_def c_def with_list_def)
  then have "with_list (listeners s) (nodes s) (told_so_far s) s2"
    by (simp add: s2_def with_list_def)
  then have "wp (time_received_event w (seconds_of (payload r)) k)
      (\<lambda>a t. a = (k, True) \<and> ntp_time t = seconds_of (payload r) - TIME1970 \<and>
         told_so_far t = told_so_far s @ told (seconds_of (payload r) - TIME1970) ls) s2"
    by (rule time_received [OF assms(1,2,7-9)])
  then have "wp (do { a \<leftarrow> time_received_event w (seconds_of (payload r)) k;
      case a of (k, go) \<Rightarrow> if go then first_answer w k else return k })
    (\<lambda>_ t. ntp_time t = seconds_of (payload r) - TIME1970 \<and>
       told_so_far t = told_so_far s @ told (seconds_of (payload r) - TIME1970) ls) s2"
    unfolding wp_bind by (rule wp_mono) (auto intro: keepsD [OF keeps_first_answer])
  moreover have "\<not> ret (ntp_env w (history s) c) < 0" using assms(3) by (simp add: c_def not_less)
  ultimately show ?thesis
    using assms(4-6) unfolding get_time_event_def
    by (simp add: wp_bind wp_call wp_extern wp_if not_less received_seconds pad_def c_def [symmetric]
      s1_def [symmetric] s2_def [symmetric])
qed

section \<open>After a stop\<close>

fun start_signal :: "ntp_call \<Rightarrow> bool" where
  "start_signal (Os (OsEventFlagsSet e f)) = (f AND NTP_CLIENT_START_FLAG \<noteq> 0)"
| "start_signal c = False"

definition signals :: "ntp \<Rightarrow> ntp_call list" where
  "signals s = filter start_signal (calls s)"

lemma signals_call [simp]: "\<not> start_signal c \<Longrightarrow> signals (s\<lparr>history := (c, r) # history s\<rparr>) = signals s"
  by (simp add: signals_def calls_def)

lemma signals_fields [simp]:
  "signals (s\<lparr>freq := f\<rparr>) = signals s" "signals (s\<lparr>ntp_time := x\<rparr>) = signals s"
  "signals (s\<lparr>error := e\<rparr>) = signals s" "signals (s\<lparr>fault := b\<rparr>) = signals s"
  by (simp_all add: signals_def calls_def)

lemma signals_polite: "polite w \<Longrightarrow> signals (ntp_rely w r s) = signals s"
  by (simp add: polite_def signals_def calls_def)

abbreviation (input) silent :: "ntp_call list \<Rightarrow> ntp \<Rightarrow> bool" where
  "silent c \<equiv> \<lambda>s. signals s = c"

lemma silent_helpers:
  assumes "polite w"
  shows "keeps (silent c) (ms_to_ticks w x)" "keeps (silent c) (acquire w)" "keeps (silent c) (release w)"
    "keeps (silent c) (ntp_timer_callback w)" "f AND 1 = 0 \<Longrightarrow> keeps (silent c) (set_flags w f)"
proof -
  show ticks: "keeps (silent c) (ms_to_ticks w x)" for x
    unfolding ms_to_ticks_def os_def by (intro keeps; simp)+
  show "keeps (silent c) (acquire w)"
    unfolding acquire_def os_wait_def by (intro keeps ticks; simp add: signals_polite [OF assms])+
  show "keeps (silent c) (release w)" "keeps (silent c) (ntp_timer_callback w)"
    unfolding release_def ntp_timer_callback_def os_def by (intro keeps; simp)+
  show "f AND 1 = 0 \<Longrightarrow> keeps (silent c) (set_flags w f)"
    unfolding set_flags_def os_def by (intro keeps; simp)+
qed

lemma silent_listeners: "keeps (silent c) (call_listeners w n x)"
proof (induction n arbitrary: x)
  case 0
  show ?case by (subst call_listeners.simps) (intro keeps; simp add: keeps del: call_listeners.simps)
next
  case (Suc n)
  show ?case
    by (subst call_listeners.simps) (simp del: call_listeners.simps, intro impI conjI keeps Suc.IH; simp)
qed

lemma silent_transfer:
  "polite w \<Longrightarrow> t_started k \<Longrightarrow> ensures (silent c) t_started (transfer_failed w r k)"
  unfolding transfer_failed_def
  by (intro ensures_if ensures_skip ensures_return silent_helpers) (simp_all add: failed_def)

lemma silent_received:
  "polite w \<Longrightarrow> t_started k \<Longrightarrow> ensures (silent c) (\<lambda>a. t_started (fst a)) (time_received_event w n k)"
  unfolding time_received_event_def
  by (intro ensures_if ensures_skip ensures_return silent_helpers silent_listeners keeps_gets keeps_modify)
    (simp_all add: failed_def)

lemma silent_events:
  assumes "polite w" and "t_started k"
  shows "ensures (silent c) (\<lambda>a. t_started (fst a)) (start_event w k)"
    and "ensures (silent c) t_started (get_time_event w k)"
    and "ensures (silent c) t_started (stop_event w k)"
proof -
  note assms = assms
  show "ensures (silent c) (\<lambda>a. t_started (fst a)) (start_event w k)"
    unfolding start_event_def os_def
    by (intro ensures_if ensures_let ensures_skip ensures_return silent_helpers assms keeps; simp add: failed_def assms)
  have first: "t_started k \<Longrightarrow> ensures (silent c) t_started (first_answer w k)" for k
    by (simp add: first_answer_def ensures_return)
  show "ensures (silent c) t_started (get_time_event w k)"
    unfolding get_time_event_def
    by (intro ensures_if ensures_skip ensures_return keeps silent_transfer assms
      ensures_bind [where R = "\<lambda>a. t_started (fst a)"] silent_received; auto simp: assms intro: ensures_return first)
  show "ensures (silent c) t_started (stop_event w k)"
    unfolding stop_event_def os_def
    by (intro ensures_if ensures_let ensures_skip ensures_return silent_helpers assms keeps; simp add: failed_def assms)
qed


text \<open>
  Once the task has answered a start it never signals one again: it forgets at a stop that its timer
  is stopped.  So when the client is stopped and started again, \<open>NTP_CLIENT_START_FLAG\<close> is not set by any
  event, \<open>iotNtpClientStart\<close> waits for its whole timeout, and the periodic requests do not resume.
\<close>

lemma restart_never_signals:
  assumes "polite w" and "t_started k"
  shows "wp (handle_event w event k) (\<lambda>k' t. t_started k' \<and> signals t = signals s) s"
proof -
  have "ensures (silent (signals s)) t_started (handle_event w event k)"
    unfolding handle_event_def
    by (intro ensures_if ensures_bind [OF silent_events(1)] silent_events assms ensures_return)
      (use assms in \<open>auto intro: silent_events ensures_return split: prod.splits\<close>)
  from ensuresD [OF this refl] show ?thesis by (simp add: conj_commute)
qed


section \<open>A start that times out\<close>

text \<open>
  When the flags never come and no error was reported, the wait of \<open>iotNtpClientStart\<close> ends with a
  negative status, for which \<open>wait_for_ntp_event\<close> answers the last reported error, \<open>IOT_NTP_CLIENT_OK\<close>: so
  the start is reported as a success and the client as running.
\<close>

lemma start_timeout_succeeds:
  assumes "state s = IOT_NTP_CLIENT_STOPPED" and "error s = IOT_NTP_CLIENT_OK"
    and "\<And>h q e t. ret (ntp_env w h (Os (OsMessageQueuePut q e t))) = osOK"
    and "\<And>h e f o' t. sint (of_int (ret (ntp_env w h (Os (OsEventFlagsWait e f o' t)))) :: u32) < 0"
    and "\<And>r s. error (ntp_rely w r s) = error s"
  shows "wp (iotNtpClientStart w) (\<lambda>a t. a = IOT_NTP_CLIENT_OK \<and> state t = IOT_NTP_CLIENT_RUNNING) s"
  using assms
  by (simp add: iotNtpClientStart_def put_event_def wait_for_ntp_event_def ms_to_ticks_def os_def os_wait_def wp Let_def)

section \<open>Clearing the listeners\<close>

lemma fault_free_loop: "keeps fault (free_loop n p)"
proof (induction n arbitrary: p)
  case 0
  show ?case by (simp add: keeps)
next
  case (Suc n)
  have "keeps fault (free_listener q)" for q
    unfolding free_listener_def by (cases q) (simp_all, (intro keeps; simp)+)
  then show ?case
    by (simp add: get_listener_def split: lptr.split) (intro conjI allI impI keeps Suc.IH; simp)
qed

lemma fault_release: "keeps fault (release w)"
  unfolding release_def os_def by (intro keeps; simp)

text \<open>
  Clearing two or more listeners passes the address of the context's own member to \<open>free\<close>, which only
  the addresses of \<open>malloc\<close> may be.
\<close>

lemma clear_listeners_faults:
  assumes "state s \<noteq> IOT_NTP_CLIENT_UNINITIALISED" and "l_next (listeners s) \<noteq> 0"
    and "mutex_works w" and "polite w" and "\<And>r s. fault s \<Longrightarrow> fault (ntp_rely w r s)"
  shows "wp (iotNtpClientClearListeners w (Suc fuel)) (\<lambda>_ t. fault t) s"
proof -
  define l where "l = (listeners s)\<lparr>l_cb := 0, l_ctx := 0\<rparr>"
  have free: "wp (free_loop (Suc fuel) Head) (\<lambda>_ t. fault t) t" if "l_next (listeners t) \<noteq> 0" for t
    using that keepsD [OF fault_free_loop [of fuel "Node (l_next (listeners t))"], of "t\<lparr>fault := True\<rparr>"]
    by (simp add: wp get_listener_def free_listener_def)
  have rest: "wp (do { r \<leftarrow> free_loop (Suc fuel) Head;
        case r of None \<Rightarrow> return None
        | Some _ \<Rightarrow> do { status \<leftarrow> release w;
            return (Some (if status \<noteq> osOK then IOT_NTP_CLIENT_ERR_MUTEX else IOT_NTP_CLIENT_OK)) } })
      (\<lambda>_ t. fault t) t" if "l_next (listeners t) \<noteq> 0" for t
    unfolding wp_bind
    by (rule wp_mono [OF free [OF that]], rule keepsD [of fault], intro keeps fault_release)
  show ?thesis
    unfolding iotNtpClientClearListeners_def using assms(1)
    by (simp add: wp_bind wp_gets del: free_loop.simps)
      (rule wp_mono [OF ensuresD [OF ensures_acquire [OF assms(4)], of "listeners s" "nodes s" "told_so_far s"]],
        use assms(2,3) rest in \<open>auto simp: mutex_works_def with_list_def wp_bind wp_modify simp del: free_loop.simps\<close>)
qed

section \<open>Examples\<close>

text \<open>A kernel that grants the mutex, a server that answers with 1 January 1970, no other thread.\<close>

definition answer_1970 :: "byte list" where
  "answer_1970 = replicate 40 0 @ [0x83, 0xAA, 0x7E, 0x80] @ replicate 4 0"

fun calm_env :: "ntp_call env" where
  "calm_env h (NtpSend i d) = \<lparr>ret = 48, outs = [], payload = []\<rparr>"
| "calm_env h (NtpRecv i n) = \<lparr>ret = 48, outs = [], payload = answer_1970\<rparr>"
| "calm_env h (Os (OsEventFlagsWait e f p t)) = \<lparr>ret = - 2, outs = [], payload = []\<rparr>"
| "calm_env h c = \<lparr>ret = 0, outs = [], payload = []\<rparr>"

definition calm :: ntp_os where
  "calm = \<lparr>ntp_env = calm_env, ntp_rely = \<lambda>r s. s\<rparr>"

definition two_listeners :: ntp where
  "two_listeners = \<lparr>history = [], fault = False, config = zero_config,
     listeners = \<lparr>l_cb = 10, l_ctx = 20, l_next = 4096\<rparr>, state = IOT_NTP_CLIENT_STOPPED,
     error = IOT_NTP_CLIENT_OK, thread = 1, mutex = 2, event_queue = 3, event_flags = 4, ntp_time = 0,
     freq = 1000, nodes = [(4096, 12, \<lparr>l_cb = 11, l_ctx = 21, l_next = 0\<rparr>)]\<rparr>"

definition idle_task :: ntp_task where
  "idle_task = \<lparr>t_timer = 5, t_socket = 0, t_error = IOT_NTP_CLIENT_OK, t_working = True, t_started = True,
     t_config = zero_config\<rparr>"

lemma calm_works: "polite calm" "mutex_works calm"
  by (simp_all add: polite_def mutex_works_def calm_def)

lemma ntp_answer_sets_time_witness:
  "wp (get_time_event calm idle_task)
    (\<lambda>_ t. ntp_time t = 0 \<and> told_so_far t = [NtpListener 10 0 20, NtpListener 11 0 21]) two_listeners"
  using ntp_answer_sets_time [of calm "\<lparr>ret = 48, outs = [], payload = answer_1970\<rparr>" two_listeners
      "[(10, 20), (11, 21)]" idle_task] calm_works
  by (simp add: calm_def answer_1970_def seconds_of_def two_listeners_def told_so_far_def calls_def told_def nth_append)

lemma restart_never_signals_witness:
  "wp (handle_event calm NTP_EVENT_START idle_task) (\<lambda>k' t. t_started k' \<and> signals t = []) two_listeners"
  using restart_never_signals [OF calm_works(1), of idle_task NTP_EVENT_START two_listeners]
  by (simp add: idle_task_def two_listeners_def signals_def calls_def)

lemma start_timeout_succeeds_witness:
  "wp (iotNtpClientStart calm) (\<lambda>a t. a = IOT_NTP_CLIENT_OK \<and> state t = IOT_NTP_CLIENT_RUNNING) two_listeners"
  using start_timeout_succeeds [of two_listeners calm] by (simp add: calm_def two_listeners_def)

lemma clear_listeners_faults_witness:
  "wp (iotNtpClientClearListeners calm (Suc 1)) (\<lambda>_ t. fault t) two_listeners"
  using clear_listeners_faults [of two_listeners calm 1] calm_works by (simp add: calm_def two_listeners_def)

end
