(* ===== verification/Platform.thy ===== *)
theory Platform
  imports Ntp_Client
begin

text \<open>
  The platform layer under the Azure SDK: \<open>platform_openiot.c\<close> (start of the network and of the time),
  \<open>tickcounter_openiot.c\<close> and \<open>ntptime_openiot.c\<close>.

  The NTP client is the model of \<open>Ntp_Client\<close>; its state is a component of the platform's state and its
  operations run on that component.  The kernel and the network task are the environment.  What the network
  task and the time listener do while the platform waits is a parameter, applied at every wait.
\<close>

section \<open>State\<close>

datatype plat_call = POs os_call | StartNetworkTask nat

record platform = "plat_call world" +
  event_flags_id :: int
  network_state_lock :: int
  network_up :: bool
  client :: ntp

record plat_os =
  plat_env :: "plat_call env"
  plat_rely :: "platform \<Rightarrow> platform"
  plat_ntp :: ntp_os
  plat_failure :: int
  ntp_time_enabled :: bool

type_synonym 'a plat_m = "(platform, 'a) state"

abbreviation (input) AZURE_NETWORK_CHANGE_FLAG :: u32 where "AZURE_NETWORK_CHANGE_FLAG \<equiv> 1"
abbreviation (input) AZURE_TIME_READY_FLAG :: u32 where "AZURE_TIME_READY_FLAG \<equiv> 2"
abbreviation (input) AZURE_EVENT_TIMEOUT :: u32 where "AZURE_EVENT_TIMEOUT \<equiv> 15000"

text \<open>A call of the NTP client.\<close>

definition on_client :: "'a ntp_m \<Rightarrow> 'a plat_m" where
  "on_client m = State (\<lambda>s. case run_state m (client s) of (a, c) \<Rightarrow> (a, s\<lparr>client := c\<rparr>))"

definition p_os :: "plat_os \<Rightarrow> os_call \<Rightarrow> int plat_m" where
  "p_os w c = call (plat_env w) (POs c)"

definition p_wait :: "plat_os \<Rightarrow> os_call \<Rightarrow> int plat_m" where
  "p_wait w c = do { r \<leftarrow> p_os w c; modify (plat_rely w); return r }"

definition p_set_flags :: "plat_os \<Rightarrow> u32 \<Rightarrow> unit plat_m" where
  "p_set_flags w f = do { e \<leftarrow> gets event_flags_id; p_os w (OsEventFlagsSet e f); return () }"

section \<open>Start and stop\<close>

definition wait_for_event :: "plat_os \<Rightarrow> u32 \<Rightarrow> int plat_m" where
  "wait_for_event w event =
     do {
       e \<leftarrow> gets event_flags_id;
       r \<leftarrow> p_wait w (OsEventFlagsWait e event (osFlagsWaitAny OR osFlagsNoClear) AZURE_EVENT_TIMEOUT);
       let flags = (of_int r :: u32);
       if sint flags < 0 then return (plat_failure w)
       else do {
         e \<leftarrow> gets event_flags_id;
         p_os w (OsEventFlagsClear e (flags AND event));
         return 0
       }
     }"

text \<open>The callback of the network task; the argument says whether the event is \<open>NETWORK_UP\<close>.\<close>

definition network_state_callback :: "plat_os \<Rightarrow> bool \<Rightarrow> unit plat_m" where
  "network_state_callback w up =
     do {
       m \<leftarrow> gets network_state_lock;
       res \<leftarrow> p_wait w (OsMutexAcquire m osWaitForever);
       if res \<noteq> osOK then return ()
       else do {
         before \<leftarrow> gets network_up;
         do_if (up \<noteq> before)
           (do { modify (network_up_update (\<lambda>_. up)); p_set_flags w AZURE_NETWORK_CHANGE_FLAG });
         m \<leftarrow> gets network_state_lock;
         p_os w (OsMutexRelease m);
         return ()
       }
     }"

definition is_network_up :: "plat_os \<Rightarrow> bool plat_m" where
  "is_network_up w =
     do {
       m \<leftarrow> gets network_state_lock;
       res \<leftarrow> p_wait w (OsMutexAcquire m osWaitForever);
       if res \<noteq> osOK then return False
       else do {
         result \<leftarrow> gets network_up;
         m \<leftarrow> gets network_state_lock;
         p_os w (OsMutexRelease m);
         return result
       }
     }"

definition ntp_listener_callback :: "plat_os \<Rightarrow> unit plat_m" where
  "ntp_listener_callback w = p_set_flags w AZURE_TIME_READY_FLAG"

definition platform_deinit :: "plat_os \<Rightarrow> unit plat_m" where
  "platform_deinit w =
     do {
       do_if (ntp_time_enabled w) (do { on_client (iotNtpClientDeinit (plat_ntp w)); return () });
       m \<leftarrow> gets network_state_lock;
       p_os w (OsMutexDelete m);
       e \<leftarrow> gets event_flags_id;
       p_os w (OsEventFlagsDelete e);
       return ()
     }"

text \<open>The jump to \<open>cleanup\<close>.\<close>

definition cleanup :: "plat_os \<Rightarrow> int \<Rightarrow> int option plat_m" where
  "cleanup w res = do { platform_deinit w; return (Some res) }"

text \<open>
  The time, from the registration of the listener on.  The number is the fuel of the loops over the
  listeners; the address of \<open>ntp_listener_callback\<close> is 1.
\<close>

definition start_time :: "plat_os \<Rightarrow> nat \<Rightarrow> int option plat_m" where
  "start_time w fuel =
     do {
       r \<leftarrow> on_client (iotNtpClientAddListener (plat_ntp w) fuel 1 0);
       case r of None \<Rightarrow> return None
       | Some r \<Rightarrow>
         if r \<noteq> IOT_NTP_CLIENT_OK then cleanup w (result_code r)
         else do {
           r \<leftarrow> on_client (iotNtpClientStart (plat_ntp w));
           if r \<noteq> IOT_NTP_CLIENT_OK then cleanup w (result_code r)
           else do {
             res \<leftarrow> wait_for_event w AZURE_TIME_READY_FLAG;
             if res \<noteq> 0 then cleanup w res
             else do {
               r \<leftarrow> on_client (iotNtpClientClearListeners (plat_ntp w) fuel);
               case r of None \<Rightarrow> return None
               | Some r \<Rightarrow>
                 if r \<noteq> IOT_NTP_CLIENT_OK then cleanup w (result_code r) else return (Some (result_code r))
             }
           }
         }
     }"

definition start_network :: "plat_os \<Rightarrow> nat \<Rightarrow> int option plat_m" where
  "start_network w fuel =
     do {
       res \<leftarrow> call (plat_env w) (StartNetworkTask 0);
       if res \<noteq> osOK then cleanup w res
       else do {
         up \<leftarrow> is_network_up w;
         (res, down) \<leftarrow>
           (if up then return (res, False)
            else do {
              res \<leftarrow> wait_for_event w AZURE_NETWORK_CHANGE_FLAG;
              if res \<noteq> 0 then return (res, True)
              else do { up \<leftarrow> is_network_up w; return (res, \<not> up) }
            });
         if down then cleanup w res
         else if ntp_time_enabled w then start_time w fuel
         else return (Some res)
       }
     }"

definition platform_init :: "plat_os \<Rightarrow> nat \<Rightarrow> int option plat_m" where
  "platform_init w fuel =
     do {
       e \<leftarrow> p_os w OsEventFlagsNew;
       modify (event_flags_id_update (\<lambda>_. e));
       if e = 0 then return (Some (plat_failure w))
       else do {
         modify (network_up_update (\<lambda>_. False));
         m \<leftarrow> p_os w OsMutexNew;
         modify (network_state_lock_update (\<lambda>_. m));
         if m = 0 then
           do { e \<leftarrow> gets event_flags_id; p_os w (OsEventFlagsDelete e); return (Some (plat_failure w)) }
         else do {
           r \<leftarrow> (if ntp_time_enabled w then on_client (iotNtpClientInit (plat_ntp w) None) else return IOT_NTP_CLIENT_OK);
           if r \<noteq> IOT_NTP_CLIENT_OK then cleanup w (result_code r) else start_network w fuel
         }
       }
     }"

section \<open>The C library's \<open>time\<close>\<close>

text \<open>\<open>ntptime_openiot.c\<close>; the second component is what \<open>*dst\<close> receives.\<close>

definition time_now :: "plat_os \<Rightarrow> bool \<Rightarrow> (int \<times> int option) plat_m" where
  "time_now w dst =
     do {
       st \<leftarrow> on_client iotNtpClientGetState;
       result \<leftarrow> (if st = IOT_NTP_CLIENT_RUNNING then on_client (iotNtpClientGetTime (plat_ntp w)) else return 0);
       return (result, if dst then Some result else None)
     }"

section \<open>Lemmas\<close>

lemma wp_on_client [wp]: "wp (on_client m) Q s \<longleftrightarrow> wp m (\<lambda>a c. Q a (s\<lparr>client := c\<rparr>)) (client s)"
  by (simp add: on_client_def wp_State wp_run split: prod.split)

text \<open>
  When the network change is signalled in time but the network is down again when \<open>platform_init\<close> checks,
  it deletes the mutex and the flags it created and answers 0, success.
\<close>

lemma init_succeeds_without_network:
  assumes "\<not> ntp_time_enabled w" and "\<And>s. \<not> network_up s \<Longrightarrow> \<not> network_up (plat_rely w s)"
    and "\<And>s. history (plat_rely w s) = history s \<and> event_flags_id (plat_rely w s) = event_flags_id s \<and>
      network_state_lock (plat_rely w s) = network_state_lock s"
    and "\<And>h. ret (plat_env w h (POs OsEventFlagsNew)) = e" and "e \<noteq> 0"
    and "\<And>h. ret (plat_env w h (POs OsMutexNew)) = m" and "m \<noteq> 0"
    and "\<And>h. ret (plat_env w h (StartNetworkTask 0)) = osOK"
    and "\<And>h f o' t. ret (plat_env w h (POs (OsEventFlagsWait e f o' t))) = 1"
  shows "wp (platform_init w fuel) (\<lambda>a t. a = Some 0 \<and> \<not> network_up t \<and>
    (\<exists>cs. calls t = cs @ [POs (OsMutexDelete m), POs (OsEventFlagsDelete e)])) s"
  using assms
  by (simp add: platform_init_def start_network_def is_network_up_def wait_for_event_def p_wait_def p_os_def
    cleanup_def platform_deinit_def calls_def wp Let_def)

definition plat_demo :: plat_os where
  "plat_demo = \<lparr>plat_env = (\<lambda>h c. \<lparr>ret = (case c of POs OsEventFlagsNew \<Rightarrow> 7 | POs OsMutexNew \<Rightarrow> 8
       | POs (OsEventFlagsWait e f p t) \<Rightarrow> 1 | _ \<Rightarrow> 0), outs = [], payload = []\<rparr>),
     plat_rely = (\<lambda>s. s), plat_ntp = \<lparr>ntp_env = \<lambda>h c. \<lparr>ret = 0, outs = [], payload = []\<rparr>, ntp_rely = \<lambda>r s. s\<rparr>,
     plat_failure = 1, ntp_time_enabled = False\<rparr>"

definition plat_initial :: platform where
  "plat_initial = \<lparr>history = [], fault = False, event_flags_id = 0, network_state_lock = 0, network_up = False,
     client = \<lparr>history = [], fault = False, config = zero_config, listeners = no_listener,
       state = IOT_NTP_CLIENT_UNINITIALISED, error = IOT_NTP_CLIENT_OK, thread = 0, mutex = 0, event_queue = 0,
       event_flags = 0, ntp_time = 0, freq = 0, nodes = []\<rparr>\<rparr>"

lemma init_succeeds_without_network_witness:
  "wp (platform_init plat_demo 3) (\<lambda>a t. a = Some 0 \<and> \<not> network_up t \<and>
    (\<exists>cs. calls t = cs @ [POs (OsMutexDelete 8), POs (OsEventFlagsDelete 7)])) plat_initial"
  using init_succeeds_without_network [of plat_demo 7 8 3 plat_initial] by (simp add: plat_demo_def)

end
