(* ===== verification/C_Double.thy ===== *)
theory C_Double
  imports C_Memory
begin

text \<open>
  Prelude: what the code uses of \<open>double\<close>.  A nonnegative \<open>double\<close> is a fraction \<open>(n, d)\<close> of natural
  numbers; an operation computes the exact fraction and rounds it to 53 significant bits, ties to the even
  neighbour, as IEEE 754 prescribes.  The magnitudes in the code (at most \<open>2 ^ 96\<close>, at least \<open>2 ^ - 42\<close>) are
  far from the limits of the exponent.
\<close>

fun bits :: "nat \<Rightarrow> nat" where
  "bits n = (if n = 0 then 0 else Suc (bits (n div 2)))"

declare bits.simps [simp del]

definition nearest_even :: "nat \<Rightarrow> nat \<Rightarrow> nat" where
  "nearest_even a b =
     (let q = a div b; r = a mod b in if 2 * r < b \<or> (2 * r = b \<and> even q) then q else q + 1)"

text \<open>
  \<open>a div b\<close>, or half of it, has 53 bits: \<open>n / d\<close> is between \<open>2 ^ (bits n - bits d - 1)\<close> and
  \<open>2 ^ (bits n - bits d + 1)\<close>.
\<close>

definition lowest :: "nat \<times> nat \<Rightarrow> nat \<times> nat" where
  "lowest x = (fst x div gcd (fst x) (snd x), snd x div gcd (fst x) (snd x))"

definition round_significand :: "nat \<times> nat \<Rightarrow> nat \<times> nat" where
  "round_significand x =
     (let (n, d) = x; a = n * 2 ^ (53 + bits d); b = d * 2 ^ bits n; c = (if a < 2 ^ 53 * b then 1 else 2)
      in (nearest_even a (c * b) * (c * 2 ^ bits n), 2 ^ (53 + bits d)))"

definition round_double :: "nat \<times> nat \<Rightarrow> nat \<times> nat" where
  "round_double x = lowest (round_significand x)"

definition double_of :: "nat \<Rightarrow> nat \<times> nat" where
  "double_of n = round_double (n, 1)"

definition double_mult :: "nat \<times> nat \<Rightarrow> nat \<times> nat \<Rightarrow> nat \<times> nat" where
  "double_mult x y = round_double (fst x * fst y, snd x * snd y)"

definition double_div :: "nat \<times> nat \<Rightarrow> nat \<times> nat \<Rightarrow> nat \<times> nat" where
  "double_div x y = round_double (fst x * snd y, snd x * fst y)"

text \<open>The conversion to an unsigned integer of \<open>w\<close> bits, undefined in C when the value does not fit.\<close>

definition double_to_unsigned :: "nat \<Rightarrow> nat \<times> nat \<Rightarrow> nat option" where
  "double_to_unsigned w x = (if snd x \<noteq> 0 \<and> fst x div snd x < 2 ^ w then Some (fst x div snd x) else None)"

section \<open>Truncation of a rounded quotient\<close>

lemma bits_bounds: "0 < n \<Longrightarrow> 2 ^ (bits n - 1) \<le> n \<and> n < 2 ^ bits n \<and> 0 < bits n"
proof (induction n rule: bits.induct)
  case (1 n)
  show ?case
  proof (cases "n = 1")
    case True
    then show ?thesis by (simp add: bits.simps)
  next
    case False
    then have n: "0 < n div 2" "n \<noteq> 0" using 1(2) by auto
    have b: "bits n = Suc (bits (n div 2))" by (subst bits.simps) (simp add: n(2))
    obtain k where k: "bits (n div 2) = Suc k" using 1(1) [OF n(2,1)] gr0_conv_Suc by auto
    show ?thesis using 1(1) [OF n(2,1)] unfolding b k by auto
  qed
qed

lemma nearest_even_exact: "0 < b \<Longrightarrow> nearest_even (q * b) b = q"
  by (simp add: nearest_even_def Let_def)

lemma nearest_even_close:
  assumes "0 < b"
  shows "2 * (nearest_even a b * b) \<le> 2 * a + b" and "2 * a \<le> 2 * (nearest_even a b * b) + b"
proof -
  define q r where "q = a div b" and "r = a mod b"
  have a: "a = q * b + r" "r < b" using assms by (simp_all add: q_def r_def)
  have e: "nearest_even a b = (if 2 * r < b \<or> (2 * r = b \<and> even q) then q else q + 1)"
    by (simp add: nearest_even_def Let_def q_def r_def)
  have m: "(q + 1) * b = q * b + b" by simp
  show "2 * (nearest_even a b * b) \<le> 2 * a + b" "2 * a \<le> 2 * (nearest_even a b * b) + b"
    unfolding e using a by auto
qed

lemma div_between: "k * b \<le> a \<Longrightarrow> a < (k + 1) * b \<Longrightarrow> a div b = (k :: nat)"
  by (rule div_nat_eqI) (simp_all add: mult.commute)

lemma lowest_div: "0 < y \<Longrightarrow> fst (lowest (x, y)) div snd (lowest (x, y)) = x div y"
  by (simp add: lowest_def div_mult2_eq [symmetric] dvd_mult_div_cancel mult.commute)

lemma lowest_int: "0 < y \<Longrightarrow> lowest (n * y, y) = (n, 1)"
  by (simp add: lowest_def)

text \<open>Rounding to 53 bits never moves a quotient of a number below \<open>2 ^ 53\<close> across an integer.\<close>

lemma round_significand_cases:
  assumes "0 < d" and "n < 2 ^ 53"
  obtains x E where "round_significand (n, d) = (x, E)" "0 < E" "x div E = n div d"
    "n mod d = 0 \<Longrightarrow> x = n div d * E"
proof (cases "n = 0")
  case True
  then show ?thesis by (intro that [of 0 "2 ^ (53 + bits d)"]) (simp_all add: round_significand_def Let_def nearest_even_def)
next
  case False
  define E where "E = (2 :: nat) ^ (53 + bits d)"
  define c where "c = (if n * E < 2 ^ 53 * (d * 2 ^ bits n) then 1 else 2 :: nat)"
  define q where "q = nearest_even (n * E) (c * (d * 2 ^ bits n))"
  define x where "x = q * (c * 2 ^ bits n)"
  have r: "round_significand (n, d) = (x, E)"
    by (simp add: round_significand_def Let_def x_def q_def c_def E_def)
  have n: "2 ^ (bits n - 1) \<le> n" "0 < bits n" using False bits_bounds [of n] by auto
  have "(2 :: nat) ^ (bits n - 1) < 2 ^ 53" using n(1) assms(2) by (rule order_le_less_trans)
  then have "bits n - 1 < 53" by (rule power_less_imp_less_exp [rotated]) simp
  then have n53: "bits n \<le> 53" by linarith
  have c: "0 < c" "c \<le> 2" "c dvd 2" by (simp_all add: c_def)
  have d: "d < 2 ^ bits d" "0 < bits d" using assms(1) bits_bounds [of d] by auto
  have E: "0 < E" by (simp add: E_def)
  have pos: "0 < c * (d * 2 ^ bits n)" using c assms(1) by simp
  have small: "c * (d * 2 ^ bits n) < 2 * E"
  proof -
    have "d * 2 ^ bits n < 2 ^ bits d * 2 ^ bits n" using d(1) by simp
    also have "\<dots> \<le> 2 ^ bits d * 2 ^ 53" using n53 by (intro mult_left_mono power_increasing) simp_all
    also have "\<dots> = E" by (simp add: E_def power_add)
    finally have "d * 2 ^ bits n < E" .
    then have "2 * (d * 2 ^ bits n) < 2 * E" by simp
    moreover have "c * (d * 2 ^ bits n) \<le> 2 * (d * 2 ^ bits n)" using c(2) by (rule mult_right_mono) simp
    ultimately show ?thesis by linarith
  qed
  have xd: "q * (c * (d * 2 ^ bits n)) = x * d" by (simp add: x_def)
  have near: "x * d < n * E + E" "n * E < x * d + E"
    using nearest_even_close [OF pos, of "n * E"] small unfolding q_def [symmetric] xd by linarith+
  have nd: "n = n div d * d + n mod d" "n mod d < d" using assms(1) by simp_all
  have "x < (n div d + 1) * E"
  proof -
    have "(n div d + 1) * d = n div d * d + d" by simp
    then have "n + 1 \<le> (n div d + 1) * d" using nd by linarith
    then have "(n + 1) * E \<le> (n div d + 1) * d * E" by (rule mult_right_mono) simp
    then have "x * d < (n div d + 1) * E * d" using near(1) by (simp add: algebra_simps)
    then show ?thesis by simp
  qed
  moreover have exact: "x = n div d * E" if "n mod d = 0"
  proof -
    have "c * 2 ^ bits n dvd 2 * 2 ^ 53"
      using c(3) n53 by (intro mult_dvd_mono le_imp_power_dvd)
    also have "2 * 2 ^ 53 dvd E"
      using d(2) by (simp only: E_def power_Suc [symmetric]) (rule le_imp_power_dvd, simp)
    finally obtain m where m: "E = c * 2 ^ bits n * m" by (auto elim: dvdE)
    have "n * E = n div d * m * (c * (d * 2 ^ bits n))"
      using that by (subst nd(1)) (simp add: m algebra_simps)
    then have "q = n div d * m" unfolding q_def using nearest_even_exact [OF pos] by simp
    then show ?thesis by (simp add: x_def m)
  qed
  moreover have "n div d * E \<le> x"
  proof (cases "n mod d = 0")
    case True
    then show ?thesis using exact by simp
  next
    case False
    then have "n div d * d + 1 \<le> n" using nd by linarith
    then have "(n div d * d + 1) * E \<le> n * E" by (rule mult_right_mono) simp
    then have "n div d * E * d + E \<le> n * E" by (simp add: algebra_simps)
    then have "n div d * E * d < x * d" using near(2) by linarith
    then show ?thesis by simp
  qed
  ultimately have div: "x div E = n div d" using div_between [of "n div d" E x] by blast
  show ?thesis by (rule that [OF r E div exact])
qed

lemma round_double_trunc:
  "0 < d \<Longrightarrow> n < 2 ^ 53 \<Longrightarrow> fst (round_double (n, d)) div snd (round_double (n, d)) = n div d"
  by (rule round_significand_cases [of d n]) (simp_all add: round_double_def lowest_div)

text \<open>So an integer below \<open>2 ^ 53\<close> is a \<open>double\<close>, and the conversion of a quotient is its integer part.\<close>

lemma round_double_int: "n < 2 ^ 53 \<Longrightarrow> round_double (n, 1) = (n, 1)"
  by (rule round_significand_cases [of 1 n]) (simp_all add: round_double_def lowest_int)

lemma snd_round_double: "0 < d \<Longrightarrow> n < 2 ^ 53 \<Longrightarrow> snd (round_double (n, d)) \<noteq> 0"
  by (rule round_significand_cases [of d n]) (simp_all add: round_double_def lowest_def div_eq_0_iff not_less gcd_le2_nat)

lemma double_to_unsigned_quotient:
  "0 < d \<Longrightarrow> n < 2 ^ 53 \<Longrightarrow>
    double_to_unsigned w (round_double (n, d)) = (if n div d < 2 ^ w then Some (n div d) else None)"
  by (simp add: double_to_unsigned_def round_double_trunc snd_round_double)

end
