(* ===== verification/Tick_Counter.thy ===== *)
theory Tick_Counter
  imports C_Heap C_Double
begin

text \<open>
  The tick counter of the Azure SDK's platform layer, \<open>azure-iot-sdk-c/platform/src/tickcounter_openiot.c\<close>.
  The instances live in a heap; the kernel and the allocator are the environment.  \<open>tickcounter_ms_t\<close> is an
  unsigned type of the Azure SDK, a word of any length here.
\<close>

section \<open>State and operations\<close>

datatype tick_call = TOs os_call | TMalloc nat

record 'm tick_counter =
  previous_tick_count :: u32
  current_ms :: 'm

record 'm ticks = "tick_call world" +
  counters :: "'m tick_counter heap"

type_synonym ('w, 'a) tick_m = "('w word ticks, 'a) state"

text \<open>The size of an instance: two fields, the second aligned to its size.\<close>

definition instance_size :: "'w :: len itself \<Rightarrow> nat" where
  "instance_size w = (let n = LENGTH('w) div 8 in max 4 n + n)"

text \<open>The fields of a new instance hold what the memory held; both are written at once.\<close>

definition tickcounter_create :: "tick_call env \<Rightarrow> ('w :: len, nat) tick_m" where
  "tickcounter_create env =
     do {
       a \<leftarrow> call env (TMalloc (instance_size TYPE('w)));
       h \<leftarrow> gets counters;
       let (p, h') = h_alloc h (nat a) (instance_size TYPE('w)) \<lparr>previous_tick_count = 0, current_ms = 0\<rparr>;
       if p = 0 then return 0
       else do {
         modify (counters_update (\<lambda>_. h'));
         now \<leftarrow> call env (TOs OsKernelGetTickCount);
         modify (counters_update (\<lambda>h. h_put h p \<lparr>previous_tick_count = of_int now, current_ms = 0\<rparr>));
         return p
       }
     }"

definition tickcounter_destroy :: "nat \<Rightarrow> ('w :: len, unit) tick_m" where
  "tickcounter_destroy p =
     do_if (p \<noteq> 0)
       (do { h \<leftarrow> gets counters; do_if (h_get h p = None) crash; modify (counters_update (\<lambda>h. h_free h p)) })"

text \<open>\<open>(tickcounter_ms_t)((tickcounter_ms_t)ticks * 1000.0 / freq)\<close>, computed in \<open>double\<close>.\<close>

definition elapsed_ms :: "u32 \<Rightarrow> u32 \<Rightarrow> 'w :: len word option" where
  "elapsed_ms ticks freq =
     map_option of_nat
       (double_to_unsigned LENGTH('w)
         (double_div (double_mult (double_of (unat (ucast ticks :: 'w word))) (1000, 1)) (double_of (unat freq))))"

text \<open>The answer is the result and what \<open>*current_ms\<close> receives; \<open>dst\<close> says that the pointer is not null.\<close>

definition tickcounter_get_current_ms ::
  "tick_call env \<Rightarrow> int \<Rightarrow> nat \<Rightarrow> bool \<Rightarrow> ('w :: len, int \<times> 'w word option) tick_m" where
  "tickcounter_get_current_ms env mu_failure p dst =
     (if p = 0 \<or> \<not> dst then return (mu_failure, None)
      else do {
        now \<leftarrow> call env (TOs OsKernelGetTickCount);
        h \<leftarrow> gets counters;
        case h_get h p of
          None \<Rightarrow> do { crash; return (mu_failure, None) }
        | Some c \<Rightarrow>
            do {
              let ticks = of_int now - previous_tick_count c;
              freq \<leftarrow> call env (TOs OsKernelGetTickFreq);
              case elapsed_ms ticks (of_int freq) of
                None \<Rightarrow> do { crash; return (mu_failure, None) }
              | Some e \<Rightarrow>
                  do {
                    let ms = current_ms c + e;
                    modify (counters_update (\<lambda>h. h_put h p \<lparr>previous_tick_count = of_int now, current_ms = ms\<rparr>));
                    return (0, Some ms)
                  }
            }
      })"

section \<open>The conversion is exact\<close>

lemma unat_u32: "unat (x :: u32) < 4294967296"
  by (rule order_less_le_trans [OF unsigned_less]) simp

lemma elapsed_ms_exact:
  assumes "32 \<le> LENGTH('w)" and "freq \<noteq> 0"
  shows "elapsed_ms ticks freq = (let n = unat ticks * 1000 div unat freq in
    if n < 2 ^ LENGTH('w) then Some (of_nat n :: 'w :: len word) else None)"
proof -
  have "(4294967296 :: nat) \<le> 2 ^ LENGTH('w)" using power_increasing [OF assms(1), of "2 :: nat"] by simp
  with unat_u32 [of ticks] have "unat ticks < 2 ^ LENGTH('w)" by (rule order_less_le_trans)
  then have t: "unat (ucast ticks :: 'w word) = unat ticks"
    by (simp add: unsigned_ucast_eq take_bit_nat_eq_self_iff)
  have f: "0 < unat freq" using assms(2) by (simp add: unat_gt_0)
  have d: "double_of (unat x) = (unat x, 1)" for x :: u32
    unfolding double_of_def by (rule round_double_int) (rule order_less_trans [OF unat_u32], simp)
  have "unat ticks * 1000 < 4294967296 * 1000"
    by (rule mult_strict_right_mono [OF unat_u32]) simp
  also have "\<dots> < 2 ^ 53" by simp
  finally have ms: "unat ticks * 1000 < 2 ^ 53" .
  have "double_div (double_mult (double_of (unat ticks)) (1000, 1)) (double_of (unat freq)) =
      round_double (unat ticks * 1000, unat freq)"
    unfolding d double_div_def double_mult_def fst_conv snd_conv mult_1_right mult_1_left round_double_int [OF ms] ..
  then show ?thesis
    using f by (simp only: elapsed_ms_def t double_to_unsigned_quotient [OF f ms]) (simp add: Let_def)
qed

text \<open>
  C17. A reading of a live counter adds exactly the whole milliseconds since the previous reading, the ticks
  counted modulo \<open>2 ^ 32\<close>: the rounding of \<open>double\<close> never shows.  The fraction of a millisecond is dropped and the
  tick count taken over, so readings that follow each other in less than a millisecond never advance the time.
\<close>

theorem tick_reading_exact:
  fixes s :: "('w :: len) word ticks" and now freq :: u32
  assumes "32 \<le> LENGTH('w)" and "0 < p" and "h_get (counters s) p = Some c"
    and "\<And>h. ret (env h (TOs OsKernelGetTickCount)) = uint now"
    and "\<And>h. ret (env h (TOs OsKernelGetTickFreq)) = uint freq" and "freq \<noteq> 0"
    and "n = unat (now - previous_tick_count c) * 1000 div unat freq" and "n < 2 ^ LENGTH('w)"
  shows "wp (tickcounter_get_current_ms env e p True)
    (\<lambda>a t. a = (0, Some (current_ms c + of_nat n)) \<and> fault t = fault s \<and>
      counters t = h_put (counters s) p \<lparr>previous_tick_count = now, current_ms = current_ms c + of_nat n\<rparr>) s"
  using assms by (simp add: tickcounter_get_current_ms_def wp elapsed_ms_exact Let_def)

definition tick_env :: "tick_call env" where
  "tick_env h c = \<lparr>ret = (case c of TOs OsKernelGetTickCount \<Rightarrow> 39 | TOs OsKernelGetTickFreq \<Rightarrow> 32768 | _ \<Rightarrow> 0),
     outs = [], payload = []\<rparr>"

definition one_counter :: "32 word ticks" where
  "one_counter = \<lparr>history = [], fault = False,
     counters = [(64, 8, \<lparr>previous_tick_count = 4294967295, current_ms = 7\<rparr>)]\<rparr>"

text \<open>Forty ticks of 32768 Hz, across the overflow of the tick count: 1.2 ms.\<close>

lemma tick_reading_exact_witness:
  "wp (tickcounter_get_current_ms tick_env 1 64 True) (\<lambda>a t. a = (0, Some 8) \<and> \<not> fault t \<and>
    counters t = [(64, 8, \<lparr>previous_tick_count = 39, current_ms = 8\<rparr>)]) one_counter"
  using tick_reading_exact [of 64 one_counter "\<lparr>previous_tick_count = 4294967295, current_ms = 7\<rparr>" tick_env 39 32768 1 1]
  by (simp add: one_counter_def tick_env_def)

end
