(* ===== verification/Thread_Api.thy ===== *)
theory Thread_Api
  imports C_Heap C_Double
begin

text \<open>
  Threads for the Azure SDK, \<open>azure-iot-sdk-c/platform/src/threadapi_openiot.c\<close>: a context per thread, in a
  doubly linked list on the heap.  The kernel, \<open>calloc\<close> and the thread functions are the environment.  The
  last section relates the linked structure to a list and shows what creation and removal do to it.
\<close>

section \<open>State\<close>

datatype threadapi_result = THREADAPI_OK | THREADAPI_INVALID_ARG | THREADAPI_NO_MEMORY | THREADAPI_ERROR

record thread_context =
  tc_func :: nat
  tc_arg :: nat
  tc_id :: int
  tc_queue :: int
  tc_next :: nat
  tc_prev :: nat

datatype thread_call = ThOs os_call | ThCalloc nat | ThThreadNew nat | ThGetId | ThFunction nat nat

record threads = "thread_call world" +
  threads_head :: nat
  threads_last :: nat
  contexts :: "thread_context heap"

type_synonym 'a thread_m = "(threads, 'a) state"

abbreviation (input) context_size :: nat where "context_size \<equiv> 24"

definition blank_context :: thread_context where
  "blank_context = \<lparr>tc_func = 0, tc_arg = 0, tc_id = 0, tc_queue = 0, tc_next = 0, tc_prev = 0\<rparr>"

definition get_context :: "nat \<Rightarrow> thread_context thread_m" where
  "get_context a =
     do { h \<leftarrow> gets contexts;
          case h_get h a of None \<Rightarrow> do { crash; return blank_context } | Some c \<Rightarrow> return c }"

definition set_context :: "nat \<Rightarrow> (thread_context \<Rightarrow> thread_context) \<Rightarrow> unit thread_m" where
  "set_context a f = do { c \<leftarrow> get_context a; modify (contexts_update (\<lambda>h. h_put h a (f c))) }"

definition th_free :: "nat \<Rightarrow> unit thread_m" where
  "th_free a = do { _ \<leftarrow> get_context a; modify (contexts_update (\<lambda>h. h_free h a)) }"

section \<open>Operations\<close>

fun os_status_to_threadapi_result :: "int \<Rightarrow> threadapi_result" where
  "os_status_to_threadapi_result status =
     (if status = osOK then THREADAPI_OK
      else if status = - 4 then THREADAPI_INVALID_ARG
      else if status = - 5 then THREADAPI_NO_MEMORY
      else THREADAPI_ERROR)"

text \<open>The search along the list; the number is fuel.\<close>

fun find_context :: "nat \<Rightarrow> int \<Rightarrow> nat \<Rightarrow> nat option thread_m" where
  "find_context 0 i a = return None"
| "find_context (Suc fuel) i a =
     (if a = 0 then return (Some 0)
      else do {
        c \<leftarrow> get_context a;
        if tc_id c = i then return (Some a) else find_context fuel i (tc_next c)
      })"

definition get_current_thread_context :: "thread_call env \<Rightarrow> nat \<Rightarrow> nat option thread_m" where
  "get_current_thread_context env fuel =
     do {
       h \<leftarrow> gets threads_head;
       if h = 0 then return (Some 0)
       else do {
         i \<leftarrow> call env ThGetId;
         if i = 0 then return (Some 0) else find_context fuel i h
       }
     }"

definition destroy_thread_context :: "thread_call env \<Rightarrow> nat \<Rightarrow> threadapi_result thread_m" where
  "destroy_thread_context env a =
     (if a = 0 then return THREADAPI_INVALID_ARG
      else do {
        c \<leftarrow> get_context a;
        res \<leftarrow>
          (if tc_queue c \<noteq> 0 then
             do { status \<leftarrow> call env (ThOs (OsMessageQueueDelete (tc_queue c)));
                  return (os_status_to_threadapi_result status) }
           else return THREADAPI_OK);
        if res \<noteq> THREADAPI_OK then return res
        else do {
          do_if (tc_prev c \<noteq> 0) (set_context (tc_prev c) (tc_next_update (\<lambda>_. tc_next c)));
          th_free a;
          return THREADAPI_OK
        }
      })"

definition exit_thread :: "thread_call env \<Rightarrow> nat \<Rightarrow> int \<Rightarrow> threadapi_result thread_m" where
  "exit_thread env a res =
     (if a = 0 then return THREADAPI_INVALID_ARG
      else do {
        c \<leftarrow> get_context a;
        status \<leftarrow> call env (ThOs (OsMessageQueuePut (tc_queue c) res osWaitForever));
        let r = os_status_to_threadapi_result status;
        if r \<noteq> THREADAPI_OK then return r
        else do { tell env (ThOs OsThreadExit); return r }
      })"

definition thread_wrapper_callback :: "thread_call env \<Rightarrow> nat \<Rightarrow> unit thread_m" where
  "thread_wrapper_callback env a =
     do_if (a \<noteq> 0)
       (do {
          c \<leftarrow> get_context a;
          res \<leftarrow> call env (ThFunction (tc_func c) (tc_arg c));
          exit_thread env a res;
          return ()
        })"

text \<open>A new context goes to the end of the list.\<close>

definition append_context :: "nat \<Rightarrow> unit thread_m" where
  "append_context p =
     do {
       l \<leftarrow> gets threads_last;
       if l \<noteq> 0 then
         do {
           set_context p (tc_prev_update (\<lambda>_. l));
           set_context l (tc_next_update (\<lambda>_. p));
           modify (threads_last_update (\<lambda>_. p))
         }
       else do { modify (threads_head_update (\<lambda>_. p)); modify (threads_last_update (\<lambda>_. p)) }
     }"

text \<open>The answer is the result and what \<open>*threadHandle\<close> receives; \<open>handle\<close> says that the pointer is not null.\<close>

definition ThreadAPI_Create ::
  "thread_call env \<Rightarrow> bool \<Rightarrow> nat \<Rightarrow> nat \<Rightarrow> (threadapi_result \<times> nat option) thread_m" where
  "ThreadAPI_Create env handle func arg =
     (if \<not> handle \<or> func = 0 then return (THREADAPI_INVALID_ARG, None)
      else do {
        a \<leftarrow> call env (ThCalloc context_size);
        h \<leftarrow> gets contexts;
        let (p, h') = h_alloc h (nat a) context_size blank_context;
        if p = 0 then return (THREADAPI_NO_MEMORY, None)
        else do {
          modify (contexts_update (\<lambda>_. h'));
          append_context p;
          set_context p (tc_func_update (\<lambda>_. func));
          set_context p (tc_arg_update (\<lambda>_. arg));
          q \<leftarrow> call env (ThOs (OsMessageQueueNew 1 4));
          set_context p (tc_queue_update (\<lambda>_. q));
          if q = 0 then do { destroy_thread_context env p; return (THREADAPI_ERROR, None) }
          else do {
            i \<leftarrow> call env (ThThreadNew p);
            set_context p (tc_id_update (\<lambda>_. i));
            if i = 0 then do { destroy_thread_context env p; return (THREADAPI_ERROR, None) }
            else return (THREADAPI_OK, Some p)
          }
        }
      })"

definition ThreadAPI_Join ::
  "thread_call env \<Rightarrow> nat \<Rightarrow> bool \<Rightarrow> (threadapi_result \<times> int option) thread_m" where
  "ThreadAPI_Join env a res =
     (if a = 0 \<or> \<not> res then return (THREADAPI_INVALID_ARG, None)
      else do {
        c \<leftarrow> get_context a;
        r \<leftarrow> extern env (ThOs (OsMessageQueueGet (tc_queue c) osWaitForever));
        let result = os_status_to_threadapi_result (ret r);
        let out = (case outs r of [] \<Rightarrow> None | v # _ \<Rightarrow> Some v);
        if result = THREADAPI_OK then do { d \<leftarrow> destroy_thread_context env a; return (d, out) }
        else return (result, out)
      })"

text \<open>\<open>None\<close>: the fuel is used up in the search.\<close>

definition ThreadAPI_Exit :: "thread_call env \<Rightarrow> nat \<Rightarrow> int \<Rightarrow> unit option thread_m" where
  "ThreadAPI_Exit env fuel res =
     do {
       f \<leftarrow> get_current_thread_context env fuel;
       case f of None \<Rightarrow> return None
       | Some a \<Rightarrow>
         if a = 0 then return (Some ()) else do { exit_thread env a res; return (Some ()) }
     }"

text \<open>\<open>(uint32_t)(freq / 1000.0 * milliseconds)\<close>.\<close>

definition sleep_ticks :: "u32 \<Rightarrow> u32 \<Rightarrow> u32 option" where
  "sleep_ticks freq ms =
     map_option of_nat
       (double_to_unsigned 32 (double_mult (double_div (double_of (unat freq)) (1000, 1)) (double_of (unat ms))))"

definition ThreadAPI_Sleep :: "thread_call env \<Rightarrow> u32 \<Rightarrow> unit thread_m" where
  "ThreadAPI_Sleep env ms =
     do {
       freq \<leftarrow> call env (ThOs OsKernelGetTickFreq);
       case sleep_ticks (of_int freq) ms of
         None \<Rightarrow> crash
       | Some ticks \<Rightarrow> tell env (ThOs (OsDelay ticks))
     }"

section \<open>The list of contexts\<close>

text \<open>The contexts from one address on, each with the address of the one before it.\<close>

fun dll :: "thread_context heap \<Rightarrow> nat \<Rightarrow> nat \<Rightarrow> nat list \<Rightarrow> bool" where
  "dll h q a [] = (a = 0)"
| "dll h q a (x # xs) =
     (a = x \<and> 0 < x \<and>
      (case h_get h x of None \<Rightarrow> False | Some c \<Rightarrow> tc_prev c = q \<and> dll h x (tc_next c) xs))"

definition threads_ok :: "threads \<Rightarrow> nat list \<Rightarrow> bool" where
  "threads_ok s xs \<longleftrightarrow> dll (contexts s) 0 (threads_head s) xs \<and> distinct xs \<and>
     threads_last s = (if xs = [] then 0 else last xs)"

lemma dll_get: "dll h q a xs \<Longrightarrow> x \<in> set xs \<Longrightarrow> 0 < x \<and> (\<exists>c. h_get h x = Some c)"
  by (induction h q a xs rule: dll.induct) (auto split: option.splits)

lemma dll_last: "dll h q a xs \<Longrightarrow> xs \<noteq> [] \<Longrightarrow> h_get h (last xs) = Some c \<Longrightarrow> tc_next c = 0"
  by (induction h q a xs rule: dll.induct) (auto split: option.splits if_splits)

lemma dll_append:
  assumes "dll h q a xs" and "xs \<noteq> []" and "distinct xs" and "0 < p"
    and "h_get h (last xs) = Some c" and "h_get h' (last xs) = Some (c\<lparr>tc_next := p\<rparr>)"
    and "h_get h' p = Some d" and "tc_prev d = last xs" and "tc_next d = 0"
    and "\<And>x. x \<in> set (butlast xs) \<Longrightarrow> h_get h' x = h_get h x"
  shows "dll h' q a (xs @ [p])"
  using assms
proof (induction h q a xs rule: dll.induct)
  case (2 h q a x xs)
  show ?case
  proof (cases "xs = []")
    case True
    then show ?thesis using 2(2-) by (auto split: option.splits)
  next
    case False
    obtain e where e: "h_get h x = Some e" "tc_prev e = q" "dll h x (tc_next e) xs"
      using 2(2) by (auto split: option.splits)
    have "dll h' x (tc_next e) (xs @ [p])"
      using 2(3-) e False by (intro 2(1)) auto
    moreover have "h_get h' x = Some e" using 2(11) [of x] e(1) False by simp
    ultimately show ?thesis using 2(2) e by simp
  qed
qed simp

text \<open>
  C20. Creating a thread when the allocator, the queue and the kernel comply appends its context to the list
  of threads: the list keeps its links in both directions and its order, the new context is the last one and
  holds what was asked for, and the other contexts change in nothing but their links.
\<close>

theorem thread_create_appends:
  assumes ok: "threads_ok s xs" and "func \<noteq> 0"
    and "p = nat (ret (env (history s) (ThCalloc context_size)))" and fits: "h_fits (contexts s) p context_size"
    and "\<And>h. ret (env h (ThOs (OsMessageQueueNew 1 4))) = q" and "q \<noteq> 0"
    and "\<And>h. ret (env h (ThThreadNew p)) = i" and "i \<noteq> 0"
  shows "wp (ThreadAPI_Create env True func arg)
    (\<lambda>a t. a = (THREADAPI_OK, Some p) \<and> threads_ok t (xs @ [p]) \<and> fault t = fault s \<and>
       h_get (contexts t) p = Some \<lparr>tc_func = func, tc_arg = arg, tc_id = i, tc_queue = q, tc_next = 0,
         tc_prev = threads_last s\<rparr> \<and>
       (\<forall>x. x \<noteq> p \<longrightarrow> map_option (tc_next_update (\<lambda>_. 0)) (h_get (contexts t) x) =
          map_option (tc_next_update (\<lambda>_. 0)) (h_get (contexts s) x))) s"
proof (cases "xs = []")
  case True
  then show ?thesis
    using assms h_fits_fresh [OF fits]
    by (auto simp: ThreadAPI_Create_def append_context_def set_context_def get_context_def h_alloc_def
      blank_context_def threads_ok_def wp Let_def)
next
  case False
  have p: "0 < p" "h_get (contexts s) p = None" using h_fits_fresh [OF fits] by auto
  have l: "threads_last s = last xs" "last xs \<in> set xs" using ok False by (simp_all add: threads_ok_def)
  then obtain c where c: "h_get (contexts s) (last xs) = Some c" "0 < last xs"
    using ok dll_get [of "contexts s" 0 "threads_head s" xs "last xs"] by (auto simp: threads_ok_def)
  have new: "p \<notin> set xs" using ok p dll_get [of "contexts s" 0 "threads_head s" xs p] by (auto simp: threads_ok_def)
  then have lp: "last xs \<noteq> p" using l(2) by auto
  have apart: "x \<noteq> last xs \<and> x \<noteq> p" if "x \<in> set (butlast xs)" for x
  proof -
    have "distinct (butlast xs @ [last xs])" using ok False by (simp add: threads_ok_def)
    then show ?thesis using that new in_set_butlastD [OF that] by auto
  qed
  define d where "d = \<lparr>tc_func = func, tc_arg = arg, tc_id = i, tc_queue = q, tc_next = 0, tc_prev = last xs\<rparr>"
  define H where "H = (p, context_size, d) # h_put (contexts s) (last xs) (c\<lparr>tc_next := p\<rparr>)"
  have "wp (ThreadAPI_Create env True func arg)
    (\<lambda>a t. a = (THREADAPI_OK, Some p) \<and> contexts t = H \<and> threads_head t = threads_head s \<and>
       threads_last t = p \<and> fault t = fault s) s"
    using assms(2-) p c lp l(1)
    by (simp add: ThreadAPI_Create_def append_context_def set_context_def get_context_def h_alloc_def
      blank_context_def H_def d_def h_put_fresh wp Let_def)
  then show ?thesis
  proof (rule wp_mono)
    fix a and t :: threads
    assume t: "a = (THREADAPI_OK, Some p) \<and> contexts t = H \<and> threads_head t = threads_head s \<and>
      threads_last t = p \<and> fault t = fault s"
    have "dll H 0 (threads_head s) (xs @ [p])"
      by (rule dll_append [of "contexts s" _ _ xs p c H d])
        (use ok False p c lp apart in \<open>auto simp: threads_ok_def H_def d_def\<close>)
    then show "a = (THREADAPI_OK, Some p) \<and> threads_ok t (xs @ [p]) \<and> fault t = fault s \<and>
       h_get (contexts t) p = Some \<lparr>tc_func = func, tc_arg = arg, tc_id = i, tc_queue = q, tc_next = 0,
         tc_prev = threads_last s\<rparr> \<and>
       (\<forall>x. x \<noteq> p \<longrightarrow> map_option (tc_next_update (\<lambda>_. 0)) (h_get (contexts t) x) =
          map_option (tc_next_update (\<lambda>_. 0)) (h_get (contexts s) x))"
      using t ok new c l(1) by (auto simp: threads_ok_def H_def d_def)
  qed
qed


section \<open>Removal\<close>

lemma fault_set_context: "keeps fault (set_context a f)"
  unfolding set_context_def get_context_def by (intro keeps; simp)

text \<open>
  Joining the only thread frees its context but leaves the head and the end of the list pointing to it:
  the next \<open>ThreadAPI_Create\<close> writes to the freed block, or, when \<open>calloc\<close> gives the same address again,
  makes the new context its own successor, and the search of the list never ends.
\<close>

lemma create_after_join_breaks:
  assumes "threads_ok s [a]" and "h_get (contexts s) a = Some c"
    and "\<And>h. ret (env h (ThOs (OsMessageQueueGet (tc_queue c) osWaitForever))) = osOK"
    and "\<And>h j. ret (env h (ThOs (OsMessageQueueDelete j))) = osOK"
    and "\<And>h. nat (ret (env h (ThCalloc context_size))) = p" and "h_fits (h_free (contexts s) a) p context_size"
    and "\<And>h. ret (env h (ThOs (OsMessageQueueNew 1 4))) \<noteq> 0" and "\<And>h j. ret (env h (ThThreadNew j)) \<noteq> 0"
    and "func \<noteq> 0"
  shows "wp (do { ThreadAPI_Join env a True; ThreadAPI_Create env True func arg })
    (\<lambda>_ t. fault t \<or> (\<exists>d. h_get (contexts t) a = Some d \<and> tc_next d = a \<and> threads_head t = a)) s"
proof -
  have p: "0 < p" using h_fits_fresh [OF assms(6)] by simp
  have s: "threads_head s = a" "threads_last s = a" "0 < a" "tc_prev c = 0"
    using assms(1,2) by (auto simp: threads_ok_def)
  show ?thesis
    using assms(2-9) p s
    by (cases "p = a")
      (simp_all add: ThreadAPI_Join_def ThreadAPI_Create_def destroy_thread_context_def append_context_def th_free_def
        set_context_def get_context_def h_alloc_def blank_context_def wp Let_def)
qed

section \<open>Examples\<close>

definition th_env :: "thread_call env" where
  "th_env h c = \<lparr>ret = (case c of ThCalloc n \<Rightarrow> 4096 | ThThreadNew a \<Rightarrow> 5 | ThOs (OsMessageQueueNew m n) \<Rightarrow> 6 | _ \<Rightarrow> 0),
     outs = [], payload = []\<rparr>"

definition one_thread :: threads where
  "one_thread = \<lparr>history = [], fault = False, threads_head = 64, threads_last = 64,
     contexts = [(64, 24, \<lparr>tc_func = 1, tc_arg = 2, tc_id = 3, tc_queue = 4, tc_next = 0, tc_prev = 0\<rparr>)]\<rparr>"

lemma one_thread_ok: "threads_ok one_thread [64]"
  by (simp add: threads_ok_def one_thread_def)

lemma thread_create_appends_witness:
  "wp (ThreadAPI_Create th_env True 8 9)
    (\<lambda>a t. a = (THREADAPI_OK, Some 4096) \<and> threads_ok t [64, 4096] \<and> \<not> fault t \<and>
       h_get (contexts t) 4096 = Some \<lparr>tc_func = 8, tc_arg = 9, tc_id = 5, tc_queue = 6, tc_next = 0, tc_prev = 64\<rparr>)
    one_thread"
  by (rule wp_mono [OF thread_create_appends [OF one_thread_ok, of 8 4096 th_env 6 5 9]])
    (simp_all add: th_env_def one_thread_def h_fits_def)

lemma create_after_join_breaks_witness:
  "wp (do { ThreadAPI_Join th_env 64 True; ThreadAPI_Create th_env True 8 9 })
    (\<lambda>_ t. fault t \<or> (\<exists>d. h_get (contexts t) 64 = Some d \<and> tc_next d = 64 \<and> threads_head t = 64)) one_thread"
  by (rule create_after_join_breaks [OF one_thread_ok, where p = 4096])
    (simp_all add: th_env_def one_thread_def h_fits_def h_free_def)

end
