(* ===== verification/Aws_Network.thy ===== *)
theory Aws_Network
  imports Extern
begin

unbundle bit_operations_syntax

text \<open>
  The TLS connection of the AWS SDK,
  \<open>aws-iot-device-sdk-embedded-c/aws_network_manager/aws_network_manager.c\<close>: a network context with its
  socket, the retry loop of the connection, and the transport functions.

  Mbed TLS, the socket library, the back-off library and the kernel are the environment; the TLS objects
  have no state here but the calls made on them.  The hook is a program on the context.  The two BIO
  functions, which Mbed TLS calls back, are operations of their own.
\<close>

section \<open>Calls and state\<close>

datatype tls_object = Entropy | CtrDrbg | CaCert | ClientCert | Pkey | Ssl | SslConf

text \<open>What the demonstration program of Aws_Client calls besides.\<close>

datatype demo_call =
    MqttInit | MqttConnect | MqttGetPacketId | MqttPublish u16 | MqttDisconnect | MqttProcessLoop u32
  | DemoOs os_call | KernelInitialize | KernelStart | FlagsGet int | StartNetworkTask | SetThreading | SetNvSeed
  | ExampleSerial | LogInit int | SetBaud int u32

datatype aws_call =
    TlsInit tls_object | TlsFree tls_object
  | DrbgSeed "byte list" u32 | DrbgRandom nat
  | CrtParse tls_object string | PkParseKey string
  | SslConfigDefaults | SslConfOwnCert | SslConfAuthmodeRequired | SslConfCaChain | SslConfRng
  | SslSetup | SslSetHostname string | SslSetBio
  | SslHandshake | SslGetVerifyResult | CrtVerifyInfo u32
  | SslCloseNotify | SslSessionReset | SslWrite "byte list" | SslRead nat
  | SockCreate | SockSetOpt int int u32 | SockClose int
  | SockGetHostByName string | SockConnect int "byte list" u32 u16 | SockSend int "byte list" | SockRecv int nat
  | BackoffInitialize u16 u16 u32 | BackoffGetNext u32
  | AwsKernelGetTickFreq | AwsDelay u32 | Demo demo_call

record aws_config =
  server_name :: string
  client_certificate :: string
  server_certificate :: string
  client_private_key :: string
  client_public_key :: string
  drbg :: "byte list"
  drbg_len :: u32
  send_timeout :: u32
  receive_timeout :: u32
  retry_max_attempts :: u32
  backoff_max_delay :: u32
  backoff_base :: u32
  server_port :: u16

record aws = "aws_call world" +
  aws_cfg :: "aws_config option"
  socket_fd :: int

type_synonym 'a aws_m = "(aws, 'a) state"

abbreviation (input) ESOCK :: int where "ESOCK \<equiv> - 2"
abbreviation (input) EAGAIN :: int where "EAGAIN \<equiv> - 6"
abbreviation (input) SO_RCVTIMEO :: int where "SO_RCVTIMEO \<equiv> 2"
abbreviation (input) SO_SNDTIMEO :: int where "SO_SNDTIMEO \<equiv> 3"
abbreviation (input) MBEDTLS_ERR_SSL_WANT_READ :: int where "MBEDTLS_ERR_SSL_WANT_READ \<equiv> - 0x6900"
abbreviation (input) MBEDTLS_ERR_SSL_WANT_WRITE :: int where "MBEDTLS_ERR_SSL_WANT_WRITE \<equiv> - 0x6880"
abbreviation (input) MBEDTLS_ERR_SSL_BAD_INPUT_DATA :: int where "MBEDTLS_ERR_SSL_BAD_INPUT_DATA \<equiv> - 0x7100"
abbreviation (input) MBEDTLS_ERR_SSL_INTERNAL_ERROR :: int where "MBEDTLS_ERR_SSL_INTERNAL_ERROR \<equiv> - 0x6C00"

definition blank_config :: aws_config where
  "blank_config = \<lparr>server_name = [], client_certificate = [], server_certificate = [], client_private_key = [],
     client_public_key = [], drbg = [], drbg_len = 0, send_timeout = 0, receive_timeout = 0, retry_max_attempts = 0,
     backoff_max_delay = 0, backoff_base = 0, server_port = 0\<rparr>"

text \<open>\<open>ctx->config\<close>; the context is zeroed by \<open>AwsNetwork_close\<close>.\<close>

definition get_config :: "aws_config aws_m" where
  "get_config = do { c \<leftarrow> gets aws_cfg; case c of None \<Rightarrow> do { crash; return blank_config } | Some x \<Rightarrow> return x }"

section \<open>Life of a context\<close>

definition AwsNetwork_init :: "aws_call env \<Rightarrow> aws_config option \<Rightarrow> unit aws_m" where
  "AwsNetwork_init env c =
     do {
       modify (aws_cfg_update (\<lambda>_. c));
       modify (socket_fd_update (\<lambda>_. ESOCK));
       tell env (TlsInit Entropy);
       tell env (TlsInit CtrDrbg);
       tell env (TlsInit CaCert);
       tell env (TlsInit ClientCert);
       tell env (TlsInit Pkey);
       tell env (TlsInit Ssl);
       tell env (TlsInit SslConf)
     }"

definition AwsNetwork_close :: "aws_call env \<Rightarrow> unit aws_m" where
  "AwsNetwork_close env =
     do {
       fd \<leftarrow> gets socket_fd;
       do_if (fd \<noteq> ESOCK) (tell env SslCloseNotify);
       tell env (TlsFree Entropy);
       tell env (TlsFree CtrDrbg);
       tell env (TlsFree CaCert);
       tell env (TlsFree ClientCert);
       tell env (TlsFree Pkey);
       tell env (TlsFree Ssl);
       tell env (TlsFree SslConf);
       fd \<leftarrow> gets socket_fd;
       do_if (fd \<noteq> ESOCK) (tell env (SockClose fd));
       modify (aws_cfg_update (\<lambda>_. None));
       modify (socket_fd_update (\<lambda>_. ESOCK))
     }"

section \<open>Steps of a connection\<close>

text \<open>The result of the second \<open>iotSocketSetOpt\<close> is not assigned, so the test after it sees the first one's.\<close>

definition AwsNetwork_configure_socket :: "aws_call env \<Rightarrow> int aws_m" where
  "AwsNetwork_configure_socket env =
     do {
       res \<leftarrow> call env SockCreate;
       if res < 0 then return res
       else do {
         modify (socket_fd_update (\<lambda>_. res));
         c \<leftarrow> get_config;
         fd \<leftarrow> gets socket_fd;
         res \<leftarrow> call env (SockSetOpt fd SO_RCVTIMEO (receive_timeout c));
         fd \<leftarrow> gets socket_fd;
         do_if (res = 0) (tell env (SockSetOpt fd SO_SNDTIMEO (send_timeout c)));
         if res \<noteq> 0 then do {
           tell env (SockClose fd);
           modify (socket_fd_update (\<lambda>_. ESOCK));
           return res
         }
         else return 0
       }
     }"

definition AwsNetwork_configure_tls_contexts :: "aws_call env \<Rightarrow> int aws_m" where
  "AwsNetwork_configure_tls_contexts env =
     do {
       c \<leftarrow> get_config;
       res \<leftarrow> call env (DrbgSeed (drbg c) (drbg_len c));
       if res \<noteq> 0 then return res
       else do {
         res \<leftarrow> call env (CrtParse CaCert (server_certificate c));
         if res \<noteq> 0 then return res
         else do {
           res \<leftarrow> call env (CrtParse ClientCert (client_certificate c));
           if res \<noteq> 0 then return res
           else do {
             res \<leftarrow> call env SslConfigDefaults;
             if res \<noteq> 0 then return res
             else do {
               res \<leftarrow> call env (PkParseKey (client_private_key c));
               if res \<noteq> 0 then return res
               else do {
                 res \<leftarrow> call env SslConfOwnCert;
                 if res \<noteq> 0 then return res
                 else do {
                   tell env SslConfAuthmodeRequired;
                   tell env SslConfCaChain;
                   tell env SslConfRng;
                   res \<leftarrow> call env SslSetup;
                   if res \<noteq> 0 then return res
                   else do {
                     res \<leftarrow> call env (SslSetHostname (server_name c));
                     if res \<noteq> 0 then return res
                     else do { tell env SslSetBio; return 0 }
                   }
                 }
               }
             }
           }
         }
       }
     }"

definition AwsNetwork_connect_server :: "aws_call env \<Rightarrow> int aws_m" where
  "AwsNetwork_connect_server env =
     do {
       c \<leftarrow> get_config;
       r \<leftarrow> extern env (SockGetHostByName (server_name c));
       if ret r < 0 then return (ret r)
       else do {
         let len = (case outs r of [] \<Rightarrow> 4 | n # _ \<Rightarrow> of_int n);
         fd \<leftarrow> gets socket_fd;
         call env (SockConnect fd (pad 4 (payload r)) len (server_port c))
       }
     }"

text \<open>The handshake, repeated while it wants to read or write; the number is fuel.\<close>

fun handshake :: "aws_call env \<Rightarrow> nat \<Rightarrow> int option aws_m" where
  "handshake env 0 = return None"
| "handshake env (Suc fuel) =
     do {
       res \<leftarrow> call env SslHandshake;
       if res = MBEDTLS_ERR_SSL_WANT_READ \<or> res = MBEDTLS_ERR_SSL_WANT_WRITE then handshake env fuel
       else return (Some res)
     }"

definition AwsNetwork_connect_tls :: "aws_call env \<Rightarrow> nat \<Rightarrow> int option aws_m" where
  "AwsNetwork_connect_tls env fuel =
     do {
       h \<leftarrow> handshake env fuel;
       case h of None \<Rightarrow> return None
       | Some res \<Rightarrow>
         if res < 0 then return (Some res)
         else do {
           v \<leftarrow> call env SslGetVerifyResult;
           let flags = (of_int v :: u32);
           if flags \<noteq> 0 then do {
             res \<leftarrow> call env (CrtVerifyInfo flags);
             return (Some (if res < 0 then res else sint flags))
           }
           else return (Some 0)
         }
     }"

section \<open>The connection with its retries\<close>

datatype attempt = Connected | SocketError | TlsError | HookError | OutOfFuel

definition connect_attempt :: "aws_call env \<Rightarrow> int aws_m option \<Rightarrow> nat \<Rightarrow> attempt aws_m" where
  "connect_attempt env hook fuel =
     do {
       err \<leftarrow> AwsNetwork_configure_socket env;
       if err \<noteq> 0 then return SocketError
       else do {
         err \<leftarrow> AwsNetwork_connect_server env;
         if err \<noteq> 0 then return SocketError
         else do {
           r \<leftarrow> AwsNetwork_connect_tls env fuel;
           case r of None \<Rightarrow> return OutOfFuel
           | Some err \<Rightarrow>
             if err \<noteq> 0 then return TlsError
             else (case hook of None \<Rightarrow> return Connected
               | Some connect_cb \<Rightarrow>
                 do { err \<leftarrow> connect_cb; return (if err \<noteq> 0 then HookError else Connected) })
         }
       }
     }"

text \<open>The three error labels, which fall through to the next; the answer is \<open>False\<close> when the context was reset.\<close>

definition handle_errors :: "aws_call env \<Rightarrow> aws_config option \<Rightarrow> attempt \<Rightarrow> bool aws_m" where
  "handle_errors env config a =
     do {
       fd \<leftarrow> gets socket_fd;
       do_if (a = HookError \<and> fd \<noteq> ESOCK) (tell env SslCloseNotify);
       err \<leftarrow> (if a = HookError \<or> a = TlsError then call env SslSessionReset else return 0);
       if err \<noteq> 0 then do { AwsNetwork_close env; AwsNetwork_init env config; return False }
       else do {
         fd \<leftarrow> gets socket_fd;
         do_if (fd \<noteq> ESOCK) (do { tell env (SockClose fd); modify (socket_fd_update (\<lambda>_. ESOCK)) });
         return True
       }
     }"

definition first_out :: "reply \<Rightarrow> int" where
  "first_out r = (case outs r of [] \<Rightarrow> 0 | x # _ \<Rightarrow> x)"

text \<open>The wait before the next attempt; the answer says whether there is one.\<close>

definition retry_delay :: "aws_call env \<Rightarrow> bool aws_m" where
  "retry_delay env =
     do {
       r \<leftarrow> extern env (DrbgRandom 4);
       if ret r \<noteq> 0 then return False
       else do {
         b \<leftarrow> extern env (BackoffGetNext (of_int (first_out r)));
         if ret b \<noteq> 0 then return False
         else do {
           let next_retry_backoff_ms = ucast (of_int (first_out b) :: u16);
           f \<leftarrow> call env AwsKernelGetTickFreq;
           let ticks = (next_retry_backoff_ms * of_int f) div 1000;
           f \<leftarrow> call env AwsKernelGetTickFreq;
           let remainder = (next_retry_backoff_ms * of_int f) mod 1000;
           tell env (AwsDelay (if remainder \<noteq> 0 then ticks + 1 else ticks));
           return True
         }
       }
     }"

text \<open>The loop; the first number is the fuel of the loop, the second that of each handshake.\<close>

fun connect_loop :: "aws_call env \<Rightarrow> int aws_m option \<Rightarrow> aws_config option \<Rightarrow> nat \<Rightarrow> nat \<Rightarrow> int option aws_m" where
  "connect_loop env hook config 0 hs = return None"
| "connect_loop env hook config (Suc fuel) hs =
     do {
       a \<leftarrow> connect_attempt env hook hs;
       if a = Connected then return (Some 0)
       else if a = OutOfFuel then return None
       else do {
         ok \<leftarrow> handle_errors env config a;
         if \<not> ok then return (Some (- 1))
         else do {
           again \<leftarrow> retry_delay env;
           if again then connect_loop env hook config fuel hs else return (Some (- 1))
         }
       }
     }"

definition AwsNetwork_connect :: "aws_call env \<Rightarrow> int aws_m option \<Rightarrow> nat \<Rightarrow> nat \<Rightarrow> int option aws_m" where
  "AwsNetwork_connect env hook fuel hs =
     do {
       c \<leftarrow> get_config;
       tell env (BackoffInitialize (ucast (backoff_base c)) (ucast (backoff_max_delay c)) (retry_max_attempts c));
       config \<leftarrow> gets aws_cfg;
       err \<leftarrow> AwsNetwork_configure_tls_contexts env;
       if err \<noteq> 0 then return (Some (- 1)) else connect_loop env hook config fuel hs
     }"

section \<open>Transport\<close>

definition iot_socket_to_mbedlts_error :: "int \<Rightarrow> int" where
  "iot_socket_to_mbedlts_error error_code =
     (if error_code = EAGAIN then MBEDTLS_ERR_SSL_WANT_WRITE else MBEDTLS_ERR_SSL_INTERNAL_ERROR)"

definition mbedtls_to_mqtt_error :: "int \<Rightarrow> int" where
  "mbedtls_to_mqtt_error return_code =
     (if return_code = MBEDTLS_ERR_SSL_WANT_WRITE \<or> return_code = MBEDTLS_ERR_SSL_WANT_READ then 0 else return_code)"

text \<open>\<open>ctx\<close> says that the context pointer is not null.\<close>

definition AwsNetwork_send :: "aws_call env \<Rightarrow> bool \<Rightarrow> byte list \<Rightarrow> int aws_m" where
  "AwsNetwork_send env ctx buf =
     (if \<not> ctx then return MBEDTLS_ERR_SSL_BAD_INPUT_DATA
      else do { res \<leftarrow> call env (SslWrite buf); return (mbedtls_to_mqtt_error res) })"

definition AwsNetwork_recv :: "aws_call env \<Rightarrow> bool \<Rightarrow> nat \<Rightarrow> (int \<times> byte list) aws_m" where
  "AwsNetwork_recv env ctx len =
     (if \<not> ctx then return (MBEDTLS_ERR_SSL_BAD_INPUT_DATA, [])
      else do { r \<leftarrow> extern env (SslRead len); return (mbedtls_to_mqtt_error (ret r), payload r) })"

text \<open>A null buffer is \<open>None\<close>, allowed with a length of 0.\<close>

definition iot_socket_send_bio :: "aws_call env \<Rightarrow> bool \<Rightarrow> byte list option \<Rightarrow> nat \<Rightarrow> int aws_m" where
  "iot_socket_send_bio env ctx buf len =
     (if \<not> ctx \<or> (buf = None \<and> len \<noteq> 0) then return MBEDTLS_ERR_SSL_BAD_INPUT_DATA
      else do {
        fd \<leftarrow> gets socket_fd;
        res \<leftarrow> call env (SockSend fd (case buf of None \<Rightarrow> [] | Some b \<Rightarrow> take len b));
        if res < 0 then
          return (if res = EAGAIN then MBEDTLS_ERR_SSL_WANT_WRITE else iot_socket_to_mbedlts_error res)
        else return res
      })"

definition iot_socket_recv_bio :: "aws_call env \<Rightarrow> bool \<Rightarrow> nat \<Rightarrow> (int \<times> byte list) aws_m" where
  "iot_socket_recv_bio env ctx len =
     (if \<not> ctx then return (MBEDTLS_ERR_SSL_BAD_INPUT_DATA, [])
      else do {
        fd \<leftarrow> gets socket_fd;
        r \<leftarrow> extern env (SockRecv fd len);
        if ret r < 0 then
          return (if ret r = EAGAIN then MBEDTLS_ERR_SSL_WANT_READ else iot_socket_to_mbedlts_error (ret r), [])
        else return (ret r, payload r)
      })"

section \<open>Sockets opened and closed\<close>

fun opened :: "(aws_call \<times> reply) list \<Rightarrow> nat" where
  "opened [] = 0"
| "opened ((SockCreate, r) # h) = (if ret r < 0 then opened h else Suc (opened h))"
| "opened (c # h) = opened h"

fun closed :: "(aws_call \<times> reply) list \<Rightarrow> nat" where
  "closed [] = 0"
| "closed ((SockClose i, r) # h) = Suc (closed h)"
| "closed (c # h) = closed h"

text \<open>The socket of the context is the only one not closed.\<close>

definition sockets :: "nat \<Rightarrow> aws \<Rightarrow> bool" where
  "sockets n s \<longleftrightarrow> opened (history s) = closed (history s) + n + (if socket_fd s = ESOCK then 0 else 1)"

definition no_socket :: "nat \<Rightarrow> aws \<Rightarrow> bool" where
  "no_socket n s \<longleftrightarrow> socket_fd s = ESOCK \<and> opened (history s) = closed (history s) + n"

lemma no_socket_sockets: "no_socket n s \<Longrightarrow> sockets n s"
  by (simp add: no_socket_def sockets_def)

fun other_call :: "aws_call \<Rightarrow> bool" where
  "other_call SockCreate = False"
| "other_call (SockClose i) = False"
| "other_call c = True"

lemma other_call_counts [simp]:
  "other_call c \<Longrightarrow> opened ((c, r) # h) = opened h" "other_call c \<Longrightarrow> closed ((c, r) # h) = closed h"
  by (cases c; simp)+

lemma sockets_other [simp]:
  "other_call c \<Longrightarrow> sockets n (s\<lparr>history := (c, r) # history s\<rparr>) = sockets n s"
  "other_call c \<Longrightarrow> no_socket n (s\<lparr>history := (c, r) # history s\<rparr>) = no_socket n s"
  "sockets n (s\<lparr>fault := b\<rparr>) = sockets n s" "no_socket n (s\<lparr>fault := b\<rparr>) = no_socket n s"
  "sockets n (s\<lparr>aws_cfg := x\<rparr>) = sockets n s" "no_socket n (s\<lparr>aws_cfg := x\<rparr>) = no_socket n s"
  by (simp_all add: sockets_def no_socket_def)


lemma keeps_get_config:
  "keeps (sockets n) get_config" "keeps (no_socket n) get_config"
  unfolding get_config_def by (intro keeps; simp)+

lemma keeps_handshake: "keeps (sockets n) (handshake env fuel)"
  by (induction fuel) (simp_all add: keeps)

lemma steps_keep_sockets:
  "keeps (sockets n) (AwsNetwork_connect_server env)" "keeps (sockets n) (AwsNetwork_connect_tls env fuel)"
  "keeps (no_socket n) (AwsNetwork_configure_tls_contexts env)" "keeps (no_socket n) (retry_delay env)"
  unfolding AwsNetwork_connect_server_def AwsNetwork_connect_tls_def AwsNetwork_configure_tls_contexts_def retry_delay_def
  by (intro keeps keeps_get_config keeps_handshake; simp)+

lemma configure_socket_sockets:
  "no_socket n s \<Longrightarrow> wp (AwsNetwork_configure_socket env) (\<lambda>_. sockets n) s"
  by (simp add: AwsNetwork_configure_socket_def get_config_def wp sockets_def no_socket_def split: option.split)

lemma attempt_sockets:
  assumes "\<And>cb. hook = Some cb \<Longrightarrow> keeps (sockets n) cb" and "no_socket n s"
  shows "wp (connect_attempt env hook fuel) (\<lambda>_. sockets n) s"
  unfolding connect_attempt_def wp_bind
  by (rule wp_mono [OF configure_socket_sockets [OF assms(2)]], rule keepsD [of "sockets n"])
    (intro keeps steps_keep_sockets assms(1); simp)+

lemma close_no_socket: "sockets n s \<Longrightarrow> wp (AwsNetwork_close env) (\<lambda>_. no_socket n) s"
  by (simp add: AwsNetwork_close_def wp sockets_def no_socket_def)

lemma errors_no_socket: "sockets n s \<Longrightarrow> wp (handle_errors env config a) (\<lambda>_. no_socket n) s"
  by (auto simp: handle_errors_def AwsNetwork_close_def AwsNetwork_init_def wp sockets_def no_socket_def)

text \<open>What the loop and the connection leave behind.\<close>

definition clean :: "nat \<Rightarrow> int option \<Rightarrow> aws \<Rightarrow> bool" where
  "clean n r s \<longleftrightarrow> sockets n s \<and> (case r of None \<Rightarrow> True | Some e \<Rightarrow> e = 0 \<or> (e = - 1 \<and> no_socket n s))"

lemma clean_results:
  "clean n None s = sockets n s" "clean n (Some 0) s = sockets n s" "no_socket n s \<Longrightarrow> clean n (Some (- 1)) s"
  by (auto simp: clean_def no_socket_sockets)

lemma loop_clean:
  assumes hook: "\<And>cb. hook = Some cb \<Longrightarrow> keeps (sockets n) cb"
  shows "no_socket n s \<Longrightarrow> wp (connect_loop env hook config fuel hs) (clean n) s"
proof (induction fuel arbitrary: s)
  case 0
  then show ?case by (simp add: wp clean_results no_socket_sockets)
next
  case (Suc fuel)
  have retry: "wp (do { again \<leftarrow> retry_delay env;
      if again then connect_loop env hook config fuel hs else return (Some (- 1)) }) (clean n) t"
    if "no_socket n t" for t
    unfolding wp_bind
    by (rule wp_mono [OF keepsD [OF steps_keep_sockets(4) that]])
      (use Suc.IH in \<open>auto simp: wp clean_results no_socket_sockets\<close>)
  have errors: "wp (do { ok \<leftarrow> handle_errors env config a;
      if \<not> ok then return (Some (- 1))
      else do { again \<leftarrow> retry_delay env;
        if again then connect_loop env hook config fuel hs else return (Some (- 1)) } }) (clean n) t"
    if "sockets n t" for t a
    unfolding wp_bind [of "handle_errors env config a"]
    by (rule wp_mono [OF errors_no_socket [OF that]])
      (use retry in \<open>auto simp: wp_if wp_return clean_results no_socket_sockets\<close>)
  show ?case
    unfolding connect_loop.simps wp_bind [of "connect_attempt env hook hs"]
    by (rule wp_mono [OF attempt_sockets [OF hook Suc.prems]])
      (use errors in \<open>auto simp: wp_if wp_return clean_results\<close>)
qed

lemma connect_clean:
  assumes "\<And>cb. hook = Some cb \<Longrightarrow> keeps (sockets n) cb" and "no_socket n s"
  shows "wp (AwsNetwork_connect env hook fuel hs) (clean n) s"
proof -
  have start: "keeps (no_socket n) get_config" by (rule keeps_get_config)
  show ?thesis
    unfolding AwsNetwork_connect_def
    by (intro wp_seq [of "no_socket n"] keeps_get_config keeps_gets keeps_tell steps_keep_sockets assms(2))
      (use loop_clean [OF assms(1)] in \<open>auto simp: wp_if wp_return clean_results no_socket_sockets\<close>)
qed


section \<open>The retries end\<close>

text \<open>How often the next delay has been asked for.\<close>

fun backoffs :: "(aws_call \<times> reply) list \<Rightarrow> nat" where
  "backoffs [] = 0"
| "backoffs ((BackoffGetNext x, r) # h) = Suc (backoffs h)"
| "backoffs (c # h) = backoffs h"

lemma backoffs_Cons: "backoffs h \<le> backoffs (c # h)"
proof (cases c)
  case (Pair a r)
  then show ?thesis by (cases a) simp_all
qed

lemma backoffs_grow [simp]: "m \<le> backoffs h \<Longrightarrow> m \<le> backoffs (c # h)"
  using backoffs_Cons order_trans by blast

abbreviation (input) at_least :: "nat \<Rightarrow> aws \<Rightarrow> bool" where
  "at_least m \<equiv> \<lambda>s. m \<le> backoffs (history s)"

definition quick_handshake :: "aws_call env \<Rightarrow> bool" where
  "quick_handshake env \<longleftrightarrow> (\<forall>h. ret (env h SslHandshake) \<noteq> MBEDTLS_ERR_SSL_WANT_READ \<and>
     ret (env h SslHandshake) \<noteq> MBEDTLS_ERR_SSL_WANT_WRITE)"

lemma at_least_steps:
  "keeps (at_least m) get_config" "keeps (at_least m) (AwsNetwork_configure_socket env)"
  "keeps (at_least m) (AwsNetwork_connect_server env)" "keeps (at_least m) (AwsNetwork_configure_tls_contexts env)"
  "keeps (at_least m) (handle_errors env config a)"
proof -
  show c: "keeps (at_least m) get_config" unfolding get_config_def by (intro keeps; simp)
  show "keeps (at_least m) (AwsNetwork_configure_socket env)" "keeps (at_least m) (AwsNetwork_connect_server env)"
    "keeps (at_least m) (AwsNetwork_configure_tls_contexts env)" "keeps (at_least m) (handle_errors env config a)"
    unfolding AwsNetwork_configure_socket_def AwsNetwork_connect_server_def AwsNetwork_configure_tls_contexts_def
      handle_errors_def AwsNetwork_close_def AwsNetwork_init_def
    by (intro keeps c; simp)+
qed

lemma tls_returns:
  assumes "quick_handshake env"
  shows "ensures (at_least m) (\<lambda>r. r \<noteq> None) (AwsNetwork_connect_tls env (Suc hs))"
  using assms by (simp add: ensures_def AwsNetwork_connect_tls_def quick_handshake_def wp Let_def)

lemma attempt_returns:
  assumes "quick_handshake env" and "\<And>cb. hook = Some cb \<Longrightarrow> keeps (at_least m) cb"
  shows "ensures (at_least m) (\<lambda>a. a \<noteq> OutOfFuel) (connect_attempt env hook (Suc hs))"
  unfolding connect_attempt_def
  by (intro ensures_skip [OF at_least_steps(2)] ensures_skip [OF at_least_steps(3)] ensures_if
      ensures_bind [OF tls_returns [OF assms(1)]])
    (auto split: option.splits if_splits intro!: ensures_return ensures_if ensures_skip [OF assms(2)])

text \<open>
  C19. When the back-off library gives up after a bounded number of delays, as it is documented to, and no
  handshake wants to wait, \<open>AwsNetwork_connect\<close> returns: one more iteration than there are delays is enough.
\<close>

theorem connect_returns:
  assumes "quick_handshake env" and "\<And>cb m. hook = Some cb \<Longrightarrow> keeps (at_least m) cb"
    and "\<And>h x. N \<le> backoffs h \<Longrightarrow> ret (env h (BackoffGetNext x)) \<noteq> 0"
    and "N \<le> backoffs (history s) + fuel"
  shows "wp (AwsNetwork_connect env hook (Suc fuel) (Suc hs)) (\<lambda>r _. r \<noteq> None) s"
proof -
  have loop: "wp (connect_loop env hook config (Suc fuel) (Suc hs)) (\<lambda>r _. r \<noteq> None) s"
    if "N \<le> backoffs (history s) + fuel" for s config
    using that
  proof (induction fuel arbitrary: s rule: less_induct)
    case (less fuel)
    define m where "m = backoffs (history s)"
    have retry: "wp (do { again \<leftarrow> retry_delay env;
        if again then connect_loop env hook config fuel (Suc hs) else return (Some (- 1)) }) (\<lambda>r _. r \<noteq> None) t"
      if "at_least m t" for t
    proof -
      have "wp (retry_delay env)
          (\<lambda>again u. again \<longrightarrow> backoffs (history t) < N \<and> backoffs (history u) = Suc (backoffs (history t))) t"
        using assms(3) by (auto simp: retry_delay_def wp Let_def not_le [symmetric])
      then show ?thesis
        unfolding wp_bind
      proof (rule wp_mono)
        fix again and u :: aws
        assume u: "again \<longrightarrow> backoffs (history t) < N \<and> backoffs (history u) = Suc (backoffs (history t))"
        have "wp (connect_loop env hook config fuel (Suc hs)) (\<lambda>r _. r \<noteq> None) u" if again
        proof (cases fuel)
          case 0
          then show ?thesis using u that less.prems \<open>at_least m t\<close> by (simp add: m_def)
        next
          case (Suc k)
          then show ?thesis using less.IH [of k u] u that less.prems \<open>at_least m t\<close> by (simp add: m_def)
        qed
        then show "wp (if again then connect_loop env hook config fuel (Suc hs) else return (Some (- 1)))
          (\<lambda>r _. r \<noteq> None) u" by (simp add: wp)
      qed
    qed
    have errors: "wp (do { ok \<leftarrow> handle_errors env config a;
        if \<not> ok then return (Some (- 1))
        else do { again \<leftarrow> retry_delay env;
          if again then connect_loop env hook config fuel (Suc hs) else return (Some (- 1)) } }) (\<lambda>r _. r \<noteq> None) t"
      if "at_least m t" for t a
      unfolding wp_bind [of "handle_errors env config a"]
      by (rule wp_mono [OF keepsD [OF at_least_steps(5) that]]) (use retry in \<open>auto simp: wp_if wp_return\<close>)
    show ?case
      unfolding connect_loop.simps wp_bind [of "connect_attempt env hook (Suc hs)"]
      by (rule wp_mono [OF ensuresD [OF attempt_returns [where m = m, OF assms(1,2)]]])
        (use errors in \<open>auto simp: wp_if wp_return m_def\<close>)
  qed
  show ?thesis
    unfolding AwsNetwork_connect_def
    by (intro wp_seq [of "at_least (backoffs (history s))"] at_least_steps keeps_gets keeps_tell order_refl)
      (use loop assms(4) in \<open>auto simp: wp_if wp_return simp del: connect_loop.simps\<close>)
qed

section \<open>Examples\<close>

text \<open>A network on which every connection is refused, with two retries.\<close>

definition refuse_env :: "aws_call env" where
  "refuse_env h c = \<lparr>ret = (case c of SockConnect i a n p \<Rightarrow> - 12 | BackoffGetNext x \<Rightarrow> if 2 \<le> backoffs h then 1 else 0
       | SockCreate \<Rightarrow> 3 | _ \<Rightarrow> 0), outs = [], payload = []\<rparr>"

definition fresh_context :: aws where
  "fresh_context = \<lparr>history = [], fault = False, aws_cfg = Some blank_config, socket_fd = ESOCK\<rparr>"


lemma connect_returns_witness:
  "wp (AwsNetwork_connect refuse_env None (Suc 2) (Suc 0)) (\<lambda>r _. r \<noteq> None) fresh_context"
  by (rule connect_returns [where N = 2]) (simp_all add: quick_handshake_def refuse_env_def)

end
