(* ===== verification/Aws_Client.thy ===== *)
theory Aws_Client
  imports Aws_Network
begin

text \<open>
  The AWS client, \<open>templates/examples/aws-client/main.c\<close>, on top of the network manager: the task that connects,
  publishes and cleans up, the thread that receives, and the event flags between them.

  The task is a program; what it does to sockets is that of \<open>AwsNetwork_connect\<close> and \<open>AwsNetwork_close\<close>, and the
  receiving thread is part of its environment.  The static handles of the queue and the flags are arguments.
  How the two threads end is a step relation of its own.
\<close>

section \<open>The task\<close>

abbreviation (input) MQTTSuccess :: int where "MQTTSuccess \<equiv> 0"
abbreviation (input) EVENT_TERMINATE_MQTT_THREAD :: u32 where "EVENT_TERMINATE_MQTT_THREAD \<equiv> 1"
abbreviation (input) EVENT_MQTT_THREAD_TERMINATING :: u32 where "EVENT_MQTT_THREAD_TERMINATING \<equiv> 2"
abbreviation (input) EVENT_MQTT_THREAD_ACK_RECEIVED :: u32 where "EVENT_MQTT_THREAD_ACK_RECEIVED \<equiv> 4"

datatype net_event_t = NET_EVENT_NETWORK_UP | NET_EVENT_NETWORK_DOWN | NET_EVENT_NONE

text \<open>A message of the queue is the number of its event.\<close>

definition event_of :: "int \<Rightarrow> net_event_t" where
  "event_of n = (if n = 0 then NET_EVENT_NETWORK_UP else if n = 1 then NET_EVENT_NETWORK_DOWN else NET_EVENT_NONE)"

definition demo :: "aws_call env \<Rightarrow> demo_call \<Rightarrow> int aws_m" where
  "demo env c = call env (Demo c)"

definition network_event_callback :: "aws_call env \<Rightarrow> int \<Rightarrow> bool \<Rightarrow> unit aws_m" where
  "network_event_callback env queue up = do { _ \<leftarrow> demo env (DemoOs (OsMessageQueuePut queue (if up then 0 else 1) 0)); return () }"

definition connect_mqtt :: "aws_call env \<Rightarrow> int aws_m" where
  "connect_mqtt env = do { r \<leftarrow> demo env MqttConnect; return (if r \<noteq> MQTTSuccess then - 1 else 0) }"

fun await_network :: "aws_call env \<Rightarrow> int \<Rightarrow> nat \<Rightarrow> bool aws_m" where
  "await_network env queue 0 = return False"
| "await_network env queue (Suc fuel) =
     do {
       r \<leftarrow> extern env (Demo (DemoOs (OsMessageQueueGet queue 1000)));
       let event = (if ret r \<noteq> osOK then NET_EVENT_NONE else event_of (first_out r));
       if event = NET_EVENT_NETWORK_UP then return True else await_network env queue fuel
     }"

text \<open>Where the task returns.\<close>

datatype demo_end = NoNetwork | InitFailed | ConnectFailed | StuckConnecting | NoFlags | NoThread | PublishFailed
  | AckFailed | SignalFailed | StopFailed | KillFailed | DisconnectFailed | DemoFinished

definition flags_failed :: "int \<Rightarrow> bool" where
  "flags_failed r \<longleftrightarrow> (of_int r :: u32) AND osFlagsError \<noteq> 0"

text \<open>After the connection: publish, wait for the acknowledgement, stop the receiving thread, and clean up.\<close>

definition stop_receiver :: "aws_call env \<Rightarrow> int \<Rightarrow> int \<Rightarrow> demo_end aws_m" where
  "stop_receiver env events thread =
     do {
       e \<leftarrow> demo env (DemoOs (OsEventFlagsSet events EVENT_TERMINATE_MQTT_THREAD));
       if flags_failed e then return SignalFailed
       else do {
         e \<leftarrow> demo env (DemoOs (OsEventFlagsWait events EVENT_MQTT_THREAD_TERMINATING osFlagsWaitAny osWaitForever));
         if flags_failed e then return StopFailed
         else do {
           r \<leftarrow> demo env (DemoOs (OsThreadTerminate thread));
           if r \<noteq> 0 then return KillFailed
           else do {
             r \<leftarrow> demo env MqttDisconnect;
             if r \<noteq> MQTTSuccess then return DisconnectFailed else do { AwsNetwork_close env; return DemoFinished }
           }
         }
       }
     }"

definition publish_and_stop :: "aws_call env \<Rightarrow> demo_end aws_m" where
  "publish_and_stop env =
     do {
       events \<leftarrow> demo env (DemoOs OsEventFlagsNew);
       if events = 0 then return NoFlags
       else do {
         thread \<leftarrow> demo env (DemoOs (OsThreadNew 1 0 4096 0));
         if thread = 0 then return NoThread
         else do {
           packet_id \<leftarrow> demo env MqttGetPacketId;
           r \<leftarrow> demo env (MqttPublish (of_int packet_id));
           if r \<noteq> MQTTSuccess then return PublishFailed
           else do {
             e \<leftarrow> demo env (DemoOs (OsEventFlagsWait events EVENT_MQTT_THREAD_ACK_RECEIVED osFlagsWaitAny osWaitForever));
             if flags_failed e then return AckFailed else stop_receiver env events thread
           }
         }
       }
     }"

definition after_connect :: "aws_call env \<Rightarrow> int option \<Rightarrow> demo_end aws_m" where
  "after_connect env res =
     (case res of None \<Rightarrow> return StuckConnecting
      | Some res \<Rightarrow> if res \<noteq> 0 then do { AwsNetwork_close env; return ConnectFailed } else publish_and_stop env)"

definition mqtt_session :: "aws_call env \<Rightarrow> aws_config \<Rightarrow> nat \<Rightarrow> nat \<Rightarrow> demo_end aws_m" where
  "mqtt_session env config fuel hs =
     do {
       r \<leftarrow> demo env MqttInit;
       if r \<noteq> MQTTSuccess then return InitFailed
       else do {
         AwsNetwork_init env (Some config);
         res \<leftarrow> AwsNetwork_connect env (Some (connect_mqtt env)) fuel hs;
         after_connect env res
       }
     }"

definition app_task :: "aws_call env \<Rightarrow> aws_config \<Rightarrow> int \<Rightarrow> nat \<Rightarrow> nat \<Rightarrow> nat \<Rightarrow> demo_end aws_m" where
  "app_task env config queue waits fuel hs =
     do { up \<leftarrow> await_network env queue waits; if up then mqtt_session env config fuel hs else return NoNetwork }"

section \<open>The receiving thread and the callbacks\<close>

datatype mqtt_packet = PUBACK u16 | OtherPacket

definition mqtt_event_cb :: "aws_call env \<Rightarrow> int \<Rightarrow> u16 \<Rightarrow> mqtt_packet \<Rightarrow> unit aws_m" where
  "mqtt_event_cb env events mqtt_packet_id packet =
     (case packet of
       PUBACK packetIdentifier \<Rightarrow> do_if (mqtt_packet_id = packetIdentifier)
         (do { _ \<leftarrow> demo env (DemoOs (OsEventFlagsSet events EVENT_MQTT_THREAD_ACK_RECEIVED)); return () })
     | OtherPacket \<Rightarrow> return ())"

text \<open>\<open>False\<close>: the thread goes on for longer than the fuel.\<close>

fun mqtt_background_process :: "aws_call env \<Rightarrow> int \<Rightarrow> nat \<Rightarrow> bool aws_m" where
  "mqtt_background_process env events 0 = return False"
| "mqtt_background_process env events (Suc fuel) =
     do {
       f \<leftarrow> demo env (FlagsGet events);
       if (of_int f :: u32) AND EVENT_TERMINATE_MQTT_THREAD \<noteq> 0 then do {
         _ \<leftarrow> demo env (DemoOs (OsEventFlagsSet events EVENT_MQTT_THREAD_TERMINATING));
         tell env (Demo (DemoOs (OsDelay osWaitForever)));
         return True
       }
       else do { _ \<leftarrow> demo env (MqttProcessLoop 100); mqtt_background_process env events fuel }
     }"

definition get_time_ms :: "aws_call env \<Rightarrow> u32 aws_m" where
  "get_time_ms env =
     do {
       n \<leftarrow> demo env (DemoOs OsKernelGetTickCount);
       f \<leftarrow> demo env (DemoOs OsKernelGetTickFreq);
       let time_ms = (ucast ((of_int n * 1000) div of_int f :: u32) :: u64);
       n \<leftarrow> demo env (DemoOs OsKernelGetTickCount);
       f \<leftarrow> demo env (DemoOs OsKernelGetTickFreq);
       return (ucast (if (of_int n * 1000 :: u32) mod of_int f \<noteq> 0 then time_ms + 1 else time_ms))
     }"

definition nv_seed_read :: "bool \<Rightarrow> nat \<Rightarrow> int \<times> byte list" where
  "nv_seed_read null buf_len = (if null then (- 1, []) else (0, replicate buf_len 0xA5))"

section \<open>Start\<close>

definition client_main :: "aws_call env \<Rightarrow> int aws_m" where
  "client_main env =
     do {
       serial \<leftarrow> demo env ExampleSerial;
       _ \<leftarrow> demo env (SetBaud serial 115200);
       res \<leftarrow> demo env KernelInitialize;
       if res \<noteq> osOK then return 1
       else do {
         _ \<leftarrow> demo env (LogInit serial);
         queue \<leftarrow> demo env (DemoOs (OsMessageQueueNew 10 8));
         if queue = 0 then return 1
         else do {
           thread \<leftarrow> demo env (DemoOs (OsThreadNew 0 0 8192 0));
           if thread = 0 then return 1
           else do {
             res \<leftarrow> demo env StartNetworkTask;
             if res \<noteq> osOK then return 1
             else do {
               st \<leftarrow> demo env (DemoOs OsKernelGetState);
               if st \<noteq> 1 then return 1
               else do {
                 _ \<leftarrow> demo env SetThreading;
                 err \<leftarrow> demo env SetNvSeed;
                 if err \<noteq> 0 then return 1
                 else do { res \<leftarrow> demo env KernelStart; return (if res \<noteq> osOK then 1 else 0) }
               }
             }
           }
         }
       }
     }"

section \<open>Sockets\<close>

lemma sockets_demo [simp]:
  "sockets n (s\<lparr>history := (Demo c, r) # history s\<rparr>) = sockets n s"
  "no_socket n (s\<lparr>history := (Demo c, r) # history s\<rparr>) = no_socket n s"
  by simp_all

lemma keeps_demo: "keeps (no_socket n) (demo env c)" "keeps (sockets n) (demo env c)"
  by (simp_all add: demo_def keeps_def wp)

lemma keeps_await: "keeps (no_socket n) (await_network env queue fuel)"
  by (induction fuel) (intro keeps | simp)+

lemma connect_mqtt_keeps: "keeps (sockets n) (connect_mqtt env)"
  unfolding connect_mqtt_def by (intro keeps keeps_demo)

text \<open>An end without a socket of the connection, or one that still has it.\<close>

definition cleaned :: "demo_end \<Rightarrow> bool" where
  "cleaned e \<longleftrightarrow> e \<in> {NoNetwork, InitFailed, ConnectFailed, DemoFinished}"

definition ends_with :: "nat \<Rightarrow> demo_end \<Rightarrow> aws \<Rightarrow> bool" where
  "ends_with n e s \<longleftrightarrow> sockets n s \<and> (cleaned e \<longrightarrow> no_socket n s)"

lemma ends_with_simps [simp]:
  "\<not> cleaned e \<Longrightarrow> ends_with n e s = sockets n s" "cleaned e \<Longrightarrow> ends_with n e s = no_socket n s"
  by (auto simp: ends_with_def no_socket_sockets)

lemma demo_then:
  assumes "sockets n s" and "\<And>r t. sockets n t \<Longrightarrow> wp (f r) (ends_with n) t"
  shows "wp (demo env c \<bind> f) (ends_with n) s"
  by (rule wp_seq [OF keeps_demo(2) assms])

lemma demo_or_fail:
  assumes "sockets n s" and "\<not> cleaned e" and "\<And>r t. sockets n t \<Longrightarrow> wp (g r) (ends_with n) t"
  shows "wp (demo env c \<bind> (\<lambda>r. if b r then return e else g r)) (ends_with n) s"
  by (rule demo_then [OF assms(1)]) (use assms(2,3) in \<open>simp add: wp_return\<close>)

lemma close_ends: "sockets n s \<Longrightarrow> cleaned e \<Longrightarrow> wp (do { AwsNetwork_close env; return e }) (ends_with n) s"
  by (rule wp_then [OF close_no_socket]) (simp_all add: wp)

lemma stop_ends: "sockets n s \<Longrightarrow> wp (stop_receiver env events thread) (ends_with n) s"
  unfolding stop_receiver_def by (intro demo_or_fail close_ends; simp add: cleaned_def)

lemma publish_ends: "sockets n s \<Longrightarrow> wp (publish_and_stop env) (ends_with n) s"
  unfolding publish_and_stop_def by (intro demo_or_fail demo_then stop_ends; simp add: cleaned_def)

lemma session_ends: "no_socket n s \<Longrightarrow> wp (mqtt_session env config fuel hs) (ends_with n) s"
proof -
  have after: "wp (after_connect env res) (ends_with n) t" if "clean n res t" for res t
    using that by (auto simp: after_connect_def clean_def cleaned_def wp_return publish_ends close_ends split: option.splits)
  have connect: "wp (AwsNetwork_connect env (Some (connect_mqtt env)) fuel hs \<bind> after_connect env) (ends_with n) t"
    if "no_socket n t" for t
    by (rule wp_then [OF connect_clean [where n = n, OF _ that] after]) (auto simp: connect_mqtt_keeps)
  have init: "wp (AwsNetwork_init env c) (\<lambda>_. no_socket n) t" if "no_socket n t" for c t
    using that by (simp add: AwsNetwork_init_def wp no_socket_def)
  assume "no_socket n s"
  then show ?thesis
    unfolding mqtt_session_def
    by (rule wp_seq [OF keeps_demo(1)]) (auto simp: wp_return cleaned_def intro: wp_then [OF init] connect)
qed


section \<open>The end of the receiving thread\<close>

text \<open>
  The flags, and where the two threads are: the task from its wait for the acknowledgement on, the receiver in its
  loop.  A step is what one of them does between two calls of the kernel; an acknowledgement arrives while the
  receiver processes packets (one that finds its flag set changes nothing and is no step).
\<close>

datatype task_at = AwaitAck | RequestStop | AwaitStop | KillReceiver | UseAlone | TaskDone
datatype receiver_at = CheckFlag | Processing | SignalStop | Asleep | Killed

record two_threads =
  event_flags :: u32
  task :: task_at
  receiver :: receiver_at

definition flag_is_set :: "u32 \<Rightarrow> two_threads \<Rightarrow> bool" where
  "flag_is_set f s \<longleftrightarrow> event_flags s AND f \<noteq> 0"

definition set_flag :: "u32 \<Rightarrow> two_threads \<Rightarrow> two_threads" where
  "set_flag f s = s\<lparr>event_flags := event_flags s OR f\<rparr>"

definition clear_flag :: "u32 \<Rightarrow> two_threads \<Rightarrow> two_threads" where
  "clear_flag f s = s\<lparr>event_flags := event_flags s AND NOT f\<rparr>"

inductive protocol_step :: "two_threads \<Rightarrow> two_threads \<Rightarrow> bool" where
  ack_seen: "task s = AwaitAck \<Longrightarrow> flag_is_set EVENT_MQTT_THREAD_ACK_RECEIVED s \<Longrightarrow>
    protocol_step s ((clear_flag EVENT_MQTT_THREAD_ACK_RECEIVED s)\<lparr>task := RequestStop\<rparr>)"
| stop_requested: "task s = RequestStop \<Longrightarrow> protocol_step s ((set_flag EVENT_TERMINATE_MQTT_THREAD s)\<lparr>task := AwaitStop\<rparr>)"
| stop_seen: "task s = AwaitStop \<Longrightarrow> flag_is_set EVENT_MQTT_THREAD_TERMINATING s \<Longrightarrow>
    protocol_step s ((clear_flag EVENT_MQTT_THREAD_TERMINATING s)\<lparr>task := KillReceiver\<rparr>)"
| killed: "task s = KillReceiver \<Longrightarrow> protocol_step s (s\<lparr>task := UseAlone, receiver := Killed\<rparr>)"
| closed: "task s = UseAlone \<Longrightarrow> protocol_step s (s\<lparr>task := TaskDone\<rparr>)"
| go_on: "receiver s = CheckFlag \<Longrightarrow> \<not> flag_is_set EVENT_TERMINATE_MQTT_THREAD s \<Longrightarrow> protocol_step s (s\<lparr>receiver := Processing\<rparr>)"
| stopping: "receiver s = CheckFlag \<Longrightarrow> flag_is_set EVENT_TERMINATE_MQTT_THREAD s \<Longrightarrow> protocol_step s (s\<lparr>receiver := SignalStop\<rparr>)"
| ack_arrives: "receiver s = Processing \<Longrightarrow> \<not> flag_is_set EVENT_MQTT_THREAD_ACK_RECEIVED s \<Longrightarrow>
    protocol_step s (set_flag EVENT_MQTT_THREAD_ACK_RECEIVED s)"
| processed: "receiver s = Processing \<Longrightarrow> protocol_step s (s\<lparr>receiver := CheckFlag\<rparr>)"
| signalled: "receiver s = SignalStop \<Longrightarrow> protocol_step s ((set_flag EVENT_MQTT_THREAD_TERMINATING s)\<lparr>receiver := Asleep\<rparr>)"

inductive protocol_run :: "two_threads \<Rightarrow> bool" where
  started: "protocol_run \<lparr>event_flags = 0, task = AwaitAck, receiver = CheckFlag\<rparr>"
| stepped: "protocol_run s \<Longrightarrow> protocol_step s t \<Longrightarrow> protocol_run t"

inductive_cases protocol_stepE: "protocol_step s t"

lemma flag_bits:
  "flag_is_set 1 s \<longleftrightarrow> bit (event_flags s) 0" "flag_is_set 2 s \<longleftrightarrow> bit (event_flags s) 1" "flag_is_set 4 s \<longleftrightarrow> bit (event_flags s) 2"
  using and_exp_eq_0_iff_not_bit [of "event_flags s" 0] and_exp_eq_0_iff_not_bit [of "event_flags s" 1]
    and_exp_eq_0_iff_not_bit [of "event_flags s" 2]
  by (simp_all add: flag_is_set_def)

lemma bit_numbers: "bit (1::u32) n \<longleftrightarrow> n = 0" "bit (2::u32) n \<longleftrightarrow> n = 1" "bit (4::u32) n \<longleftrightarrow> n = 2"
  using bit_exp_iff [where 'a = "32 word", of 1 n] bit_exp_iff [where 'a = "32 word", of 2 n]
  by (auto simp: bit_1_iff possible_bit_word)

lemma flags_changed:
  "flag_is_set 1 (set_flag f s) \<longleftrightarrow> bit f 0 \<or> flag_is_set 1 s" "flag_is_set 2 (set_flag f s) \<longleftrightarrow> bit f 1 \<or> flag_is_set 2 s"
  "flag_is_set 4 (set_flag f s) \<longleftrightarrow> bit f 2 \<or> flag_is_set 4 s" "flag_is_set 1 (clear_flag f s) \<longleftrightarrow> \<not> bit f 0 \<and> flag_is_set 1 s"
  "flag_is_set 2 (clear_flag f s) \<longleftrightarrow> \<not> bit f 1 \<and> flag_is_set 2 s" "flag_is_set 4 (clear_flag f s) \<longleftrightarrow> \<not> bit f 2 \<and> flag_is_set 4 s"
  by (auto simp: flag_bits set_flag_def clear_flag_def bit_or_iff bit_and_iff bit_not_iff possible_bit_word)

lemma flags_kept [simp]:
  "flag_is_set f (s\<lparr>task := a\<rparr>) = flag_is_set f s" "flag_is_set f (s\<lparr>receiver := r\<rparr>) = flag_is_set f s"
  "task (set_flag f s) = task s" "receiver (set_flag f s) = receiver s"
  "task (clear_flag f s) = task s" "receiver (clear_flag f s) = receiver s"
  by (simp_all add: flag_is_set_def set_flag_def clear_flag_def)

lemmas flag_facts = flags_changed bit_numbers

text \<open>The stop is requested once the acknowledgement is in, and seen once the receiver has left its loop.\<close>

definition protocol_inv :: "two_threads \<Rightarrow> bool" where
  "protocol_inv s \<longleftrightarrow> (flag_is_set EVENT_TERMINATE_MQTT_THREAD s \<longleftrightarrow> task s \<notin> {AwaitAck, RequestStop}) \<and>
     (task s = KillReceiver \<longrightarrow> receiver s = Asleep) \<and> (receiver s = Killed \<longleftrightarrow> task s \<in> {UseAlone, TaskDone}) \<and>
     (receiver s \<in> {SignalStop, Asleep} \<longrightarrow> flag_is_set EVENT_TERMINATE_MQTT_THREAD s) \<and>
     (flag_is_set EVENT_MQTT_THREAD_TERMINATING s \<longleftrightarrow> receiver s = Asleep \<and> task s = AwaitStop)"

lemma protocol_inv_step:
  assumes "protocol_step s t" and "protocol_inv s"
  shows "protocol_inv t"
  using assms(1)
proof cases
  case signalled
  then show ?thesis using assms(2) by (cases "task s") (auto simp: protocol_inv_def flag_facts)
qed (use assms(2) in \<open>auto simp: protocol_inv_def flag_facts\<close>)

lemma protocol_inv_run: "protocol_run s \<Longrightarrow> protocol_inv s"
proof (induction rule: protocol_run.induct)
  case started
  then show ?case by (simp add: protocol_inv_def flag_is_set_def)
next
  case (stepped s t)
  then show ?case by (blast intro: protocol_inv_step)
qed

text \<open>How many steps are left at most once the stop is requested.\<close>

definition protocol_left :: "two_threads \<Rightarrow> nat" where
  "protocol_left s =
     (case task s of AwaitStop \<Rightarrow> 3 | KillReceiver \<Rightarrow> 2 | UseAlone \<Rightarrow> 1 | TaskDone \<Rightarrow> 0 | _ \<Rightarrow> 4) +
     (case receiver s of Processing \<Rightarrow> 3 | CheckFlag \<Rightarrow> 2 | SignalStop \<Rightarrow> 1 | _ \<Rightarrow> 0) +
     (if flag_is_set EVENT_MQTT_THREAD_ACK_RECEIVED s then 0 else 1)"

abbreviation (input) stopping_phase :: "two_threads \<Rightarrow> bool" where
  "stopping_phase s \<equiv> task s \<in> {AwaitStop, KillReceiver, UseAlone}"

lemma protocol_left_step:
  assumes "protocol_step s t" and "protocol_inv s" and "stopping_phase s"
  shows "protocol_left t < protocol_left s"
  using assms(1) by cases (use assms(2,3) in \<open>auto simp: protocol_left_def protocol_inv_def flag_facts\<close>)

lemma protocol_not_stuck:
  assumes "protocol_inv s" and "stopping_phase s"
  shows "\<exists>t. protocol_step s t"
proof (cases "task s = AwaitStop")
  case True
  then show ?thesis
  proof (cases "receiver s")
    case CheckFlag
    then show ?thesis by (cases "flag_is_set EVENT_TERMINATE_MQTT_THREAD s") (blast intro: go_on stopping)+
  qed (use assms True in \<open>auto simp: protocol_inv_def intro: processed signalled stop_seen\<close>)
next
  case False
  then show ?thesis using assms(2) by (blast intro: killed closed)
qed


section \<open>The time for MQTT\<close>

text \<open>
  The product of the tick count and 1000 is taken in 32 bits: at a thousand ticks a second the time is right up to
  4294967 milliseconds, an hour and twelve minutes, and starts again from the next tick on.
\<close>

definition ticking :: "int \<Rightarrow> aws_call env" where
  "ticking n h c = \<lparr>ret = (case c of Demo (DemoOs OsKernelGetTickCount) \<Rightarrow> n | Demo (DemoOs OsKernelGetTickFreq) \<Rightarrow> 1000 | _ \<Rightarrow> 0),
     outs = [], payload = []\<rparr>"

lemma time_wraps:
  "wp (get_time_ms (ticking 4294967)) (\<lambda>r _. r = 4294967) s" "wp (get_time_ms (ticking 4294968)) (\<lambda>r _. r = 1) s"
  by (simp_all add: get_time_ms_def demo_def ticking_def wp Let_def)

section \<open>Examples\<close>

text \<open>A broker that accepts everything but the publication.\<close>

definition no_publish :: "aws_call env" where
  "no_publish h c = \<lparr>ret = (case c of Demo (MqttPublish i) \<Rightarrow> 1 | Demo (DemoOs OsEventFlagsNew) \<Rightarrow> 1
       | Demo (DemoOs (OsThreadNew i a n x)) \<Rightarrow> 1 | SockCreate \<Rightarrow> 3 | _ \<Rightarrow> 0), outs = [], payload = []\<rparr>"


text \<open>It leaves its socket open.\<close>

lemma failed_publish_leaks:
  "wp (app_task no_publish blank_config 1 1 1 1) (\<lambda>e t. e = PublishFailed \<and> opened (history t) = 1 \<and> closed (history t) = 0) fresh_context"
  by code_simp

definition stop_requested_state :: two_threads where
  "stop_requested_state = \<lparr>event_flags = 1, task = AwaitStop, receiver = Processing\<rparr>"

lemma stop_requested_run: "protocol_run stop_requested_state"
proof -
  have "protocol_run \<lparr>event_flags = 0, task = AwaitAck, receiver = Processing\<rparr>"
    using stepped [OF started go_on] by (simp add: flag_is_set_def)
  then have "protocol_run \<lparr>event_flags = 4, task = AwaitAck, receiver = Processing\<rparr>"
    using stepped [OF _ ack_arrives] by (fastforce simp: flag_is_set_def set_flag_def)
  then have "protocol_run \<lparr>event_flags = 0, task = RequestStop, receiver = Processing\<rparr>"
    using stepped [OF _ ack_seen] by (fastforce simp: flag_is_set_def clear_flag_def)
  then show ?thesis
    using stepped [OF _ stop_requested] by (fastforce simp: set_flag_def stop_requested_state_def)
qed


end
