(* ===== verification/Socket_Address.thy ===== *)
theory Socket_Address
  imports Ip4_String Ip6_Parse
begin

text \<open>
  The addresses of the socket API, \<open>mbed-os-netsocket/src/SocketAddress.cpp\<close> and its header, on top of the
  text conversions of \<open>Ip4_String\<close> and \<open>Ip6_Parse\<close>.  An address owns the text buffer it was last printed
  into; the sixteen bytes are always there, an IPv4 address uses the first four.  \<open>None\<close> as a result is an
  access outside an object, as in the conversions.
\<close>

section \<open>Data\<close>

datatype nsapi_version = NSAPI_UNSPEC | NSAPI_IPv4 | NSAPI_IPv6

abbreviation (input) NSAPI_IPv4_BYTES :: nat where "NSAPI_IPv4_BYTES \<equiv> 4"
abbreviation (input) NSAPI_IPv6_BYTES :: nat where "NSAPI_IPv6_BYTES \<equiv> 16"
abbreviation (input) NSAPI_IP_SIZE :: nat where "NSAPI_IP_SIZE \<equiv> 40"

record socket_address =
  sa_version :: nsapi_version
  sa_bytes :: "byte list"
  sa_port :: u16
  sa_text :: "byte list option"

definition unspecified :: socket_address where
  "unspecified = \<lparr>sa_version = NSAPI_UNSPEC, sa_bytes = replicate 16 0, sa_port = 0, sa_text = None\<rparr>"

definition address_ok :: "socket_address \<Rightarrow> bool" where
  "address_ok a \<longleftrightarrow> length (sa_bytes a) = NSAPI_IPv6_BYTES"

section \<open>Operations\<close>

definition c_strlen :: "byte list \<Rightarrow> nat option" where
  "c_strlen s = (if 0 \<in> set s then Some (length (cstr s)) else None)"

definition set_ip_address :: "byte list option \<Rightarrow> socket_address \<Rightarrow> (bool \<times> socket_address) option" where
  "set_ip_address addr a =
     (case addr of
        None \<Rightarrow> Some (False, a\<lparr>sa_text := None, sa_version := NSAPI_UNSPEC, sa_bytes := replicate 16 0\<rparr>)
      | Some s \<Rightarrow>
          do {
            n \<leftarrow> c_strlen s;
            (ok, b) \<leftarrow> stoip4 s n (take 4 (sa_bytes a));
            let bytes = b @ drop 4 (sa_bytes a);
            if ok then Some (True, a\<lparr>sa_text := None, sa_version := NSAPI_IPv4, sa_bytes := bytes\<rparr>)
            else do {
              (ok, bytes) \<leftarrow> stoip6 s (of_nat n) bytes;
              if ok then Some (True, a\<lparr>sa_text := None, sa_version := NSAPI_IPv6, sa_bytes := bytes\<rparr>)
              else Some (False, a\<lparr>sa_text := None, sa_version := NSAPI_UNSPEC, sa_bytes := replicate 16 0\<rparr>)
            }
          })"

text \<open>\<open>set_ip_bytes\<close> and \<open>set_addr\<close>.\<close>

definition set_ip_bytes :: "byte list \<Rightarrow> nsapi_version \<Rightarrow> socket_address \<Rightarrow> socket_address option" where
  "set_ip_bytes bytes version a =
     do {
       b \<leftarrow> (if version = NSAPI_IPv6 then mem_read bytes 0 NSAPI_IPv6_BYTES
             else if version = NSAPI_IPv4 then mem_read bytes 0 NSAPI_IPv4_BYTES else Some []);
       Some (a\<lparr>sa_text := None, sa_version := version, sa_bytes := b @ replicate (16 - length b) 0\<rparr>)
     }"

definition set_port :: "u16 \<Rightarrow> socket_address \<Rightarrow> socket_address" where
  "set_port p a = a\<lparr>sa_port := p\<rparr>"

text \<open>
  The text and the address with its buffer.  \<open>psz\<close> is the size of a pointer, which \<open>ip6tos\<close> depends on, \<open>raw\<close>
  what the memory of the new buffer holds.
\<close>

definition get_ip_address ::
  "nat \<Rightarrow> byte list \<Rightarrow> socket_address \<Rightarrow> (byte list option \<times> socket_address) option" where
  "get_ip_address psz raw a =
     (if sa_version a = NSAPI_UNSPEC then Some (None, a)
      else case sa_text a of
        Some t \<Rightarrow> Some (Some t, a)
      | None \<Rightarrow>
          do {
            (t, n) \<leftarrow> (if sa_version a = NSAPI_IPv4 then ip4tos (take 4 (sa_bytes a)) raw
                       else ip6tos psz (sa_bytes a) raw);
            Some (Some t, a\<lparr>sa_text := Some t\<rparr>)
          })"

definition get_ip_bytes :: "socket_address \<Rightarrow> byte list option" where
  "get_ip_bytes a = (if sa_version a = NSAPI_UNSPEC then None else Some (sa_bytes a))"

definition address_set :: "socket_address \<Rightarrow> bool" where
  "address_set a =
     (case sa_version a of
        NSAPI_IPv4 \<Rightarrow> list_ex (\<lambda>b. b \<noteq> 0) (take 4 (sa_bytes a))
      | NSAPI_IPv6 \<Rightarrow> list_ex (\<lambda>b. b \<noteq> 0) (take 16 (sa_bytes a))
      | NSAPI_UNSPEC \<Rightarrow> False)"

definition assign :: "socket_address \<Rightarrow> socket_address \<Rightarrow> socket_address" where
  "assign a b = a\<lparr>sa_text := None, sa_version := sa_version b, sa_bytes := sa_bytes b, sa_port := sa_port b\<rparr>"

definition same_address :: "socket_address \<Rightarrow> socket_address \<Rightarrow> bool" where
  "same_address a b =
     (if \<not> address_set a \<and> \<not> address_set b then True
      else if sa_version a \<noteq> sa_version b then False
      else if sa_port a \<noteq> sa_port b then False
      else if sa_version a = NSAPI_IPv4 then take 4 (sa_bytes a) = take 4 (sa_bytes b)
      else take 16 (sa_bytes a) = take 16 (sa_bytes b))"

section \<open>Text and address\<close>

lemma ip6_text_not_ip4:
  assumes "text_chars t"
  shows "ip4_parse 4 t = None"
proof -
  have "chr_dot \<notin> set t"
  proof
    assume "chr_dot \<in> set t"
    then have "is_hex chr_dot \<or> chr_dot = chr_colon" using assms by (auto simp: text_chars_def)
    then show False by (simp add: is_hex_iff)
  qed
  moreover have "chr_dot \<in> set xs" if "ip4_parse (Suc (Suc k)) xs = Some vs" for k xs vs
  proof -
    from that have "hd (dropWhile is_digit xs) = chr_dot" "dropWhile is_digit xs \<noteq> []"
      by (auto simp: Let_def split: if_splits)
    then have "chr_dot \<in> set (dropWhile is_digit xs)" by (metis hd_in_set)
    then show ?thesis by (rule set_dropWhileD)
  qed
  ultimately show ?thesis by (cases "ip4_parse 4 t") (auto simp: numeral_eq_Suc)
qed

lemma c_strlen_text: "0 \<notin> set t \<Longrightarrow> c_strlen (t @ 0 # r) = Some (length t)"
  by (simp add: c_strlen_def cstr_append_nul)

lemma parse_ip4_text:
  assumes "length b = 4" and "address_ok c"
  shows "\<exists>c'. set_ip_address (Some (ip4_text b @ 0 # r)) c = Some (True, c') \<and> sa_version c' = NSAPI_IPv4 \<and>
    take 4 (sa_bytes c') = b"
proof -
  have "ip4_parse 4 (ip4_text b) = Some b"
    using ip4_text_syntax [of b "[]"] assms(1) ip4_parse_iff [of 4 "ip4_text b" b] by simp
  then have "stoip4 (ip4_text b @ 0 # r) (length (ip4_text b)) (take 4 (sa_bytes c)) = Some (True, b)"
    using stoip4_parse [of "length (ip4_text b)" "ip4_text b @ 0 # r" "take 4 (sa_bytes c)"] ip4_text_length [of b] assms(2)
    by (auto simp: address_ok_def)
  then show ?thesis using assms(1) by (simp add: set_ip_address_def c_strlen_text ip4_text_no_nul Let_def)
qed

lemma parse_ip6_text:
  assumes "length b = 16" and "address_ok c" and "ip6_best b zs zl" and "t = ip6_shape hex_text (ip6_parts b) zs zl"
  shows "\<exists>c'. set_ip_address (Some (t @ 0 # r)) c = Some (True, c') \<and> sa_version c' = NSAPI_IPv6 \<and> sa_bytes c' = b"
proof -
  have t: "text_chars t" "0 \<notin> set t" using hex_shape_chars text_chars_plain assms(4) by blast+
  obtain d where d: "length d = 4" "stoip4 (t @ 0 # r) (length t) (take 4 (sa_bytes c)) = Some (False, d)"
    using stoip4_parse [of "length t" "t @ 0 # r" "take 4 (sa_bytes c)"] assms(2) ip6_text_not_ip4 [OF t(1)]
    by (auto simp: address_ok_def split: if_splits)
  have "length (d @ drop 4 (sa_bytes c)) = 16" using d(1) assms(2) by (simp add: address_ok_def)
  then have "stoip6 (t @ 0 # r) (of_nat (length t)) (d @ drop 4 (sa_bytes c)) = Some (True, b)"
    by (rule stoip6_shape [OF assms(3,1) _ assms(4)])
  then show ?thesis using d by (simp add: set_ip_address_def c_strlen_text t(2) Let_def)
qed


definition localhost :: socket_address where
  "localhost = \<lparr>sa_version = NSAPI_IPv4, sa_bytes = [127, 0, 0, 1] @ replicate 12 0, sa_port = 80, sa_text = None\<rparr>"


end
