(* ===== verification/Netsocket.thy ===== *)
theory Netsocket
  imports Extern Socket_Address
begin

text \<open>
  The Internet sockets of \<open>mbed-os-netsocket\<close>: \<open>IotSocketToMbed.c\<close>, \<open>InternetSocket.cpp\<close> with its header,
  \<open>TCPSocket.cpp\<close>, \<open>UDPSocket.cpp\<close> and \<open>InternetDatagramSocket.cpp\<close>.

  The state is one socket object; the address of the peer is a member of datagram sockets only.  The IoT
  socket library, the kernel and \<open>new\<close> are the environment.  An answer with an address lists the port and
  the bytes of the address in \<open>outs\<close>.  The object of an accepted connection is built by \<open>accepted_socket\<close>.
  \<open>DEFAULT_IP_VERSION == NSAPI_IPv4\<close> compares two names the preprocessor does not know, 0 both, and holds in
  every configuration.
\<close>

section \<open>Error codes\<close>

abbreviation (input) NSAPI_ERROR_OK :: int where "NSAPI_ERROR_OK \<equiv> 0"
abbreviation (input) NSAPI_ERROR_WOULD_BLOCK :: int where "NSAPI_ERROR_WOULD_BLOCK \<equiv> - 3001"
abbreviation (input) NSAPI_ERROR_UNSUPPORTED :: int where "NSAPI_ERROR_UNSUPPORTED \<equiv> - 3002"
abbreviation (input) NSAPI_ERROR_PARAMETER :: int where "NSAPI_ERROR_PARAMETER \<equiv> - 3003"
abbreviation (input) NSAPI_ERROR_NO_CONNECTION :: int where "NSAPI_ERROR_NO_CONNECTION \<equiv> - 3004"
abbreviation (input) NSAPI_ERROR_NO_SOCKET :: int where "NSAPI_ERROR_NO_SOCKET \<equiv> - 3005"
abbreviation (input) NSAPI_ERROR_NO_ADDRESS :: int where "NSAPI_ERROR_NO_ADDRESS \<equiv> - 3006"
abbreviation (input) NSAPI_ERROR_NO_MEMORY :: int where "NSAPI_ERROR_NO_MEMORY \<equiv> - 3007"
abbreviation (input) NSAPI_ERROR_AUTH_FAILURE :: int where "NSAPI_ERROR_AUTH_FAILURE \<equiv> - 3011"
abbreviation (input) NSAPI_ERROR_DEVICE_ERROR :: int where "NSAPI_ERROR_DEVICE_ERROR \<equiv> - 3012"
abbreviation (input) NSAPI_ERROR_IN_PROGRESS :: int where "NSAPI_ERROR_IN_PROGRESS \<equiv> - 3013"
abbreviation (input) NSAPI_ERROR_ALREADY :: int where "NSAPI_ERROR_ALREADY \<equiv> - 3014"
abbreviation (input) NSAPI_ERROR_IS_CONNECTED :: int where "NSAPI_ERROR_IS_CONNECTED \<equiv> - 3015"
abbreviation (input) NSAPI_ERROR_CONNECTION_LOST :: int where "NSAPI_ERROR_CONNECTION_LOST \<equiv> - 3016"
abbreviation (input) NSAPI_ERROR_CONNECTION_TIMEOUT :: int where "NSAPI_ERROR_CONNECTION_TIMEOUT \<equiv> - 3017"
abbreviation (input) NSAPI_ERROR_ADDRESS_IN_USE :: int where "NSAPI_ERROR_ADDRESS_IN_USE \<equiv> - 3018"
abbreviation (input) NSAPI_ERROR_HOST_NOT_FOUND :: int where "NSAPI_ERROR_HOST_NOT_FOUND \<equiv> - 3021"
abbreviation (input) NSAPI_ERROR_UNKNOWN :: int where "NSAPI_ERROR_UNKNOWN \<equiv> - 3022"

abbreviation (input) IOT_SOCKET_ENOTSUP :: int where "IOT_SOCKET_ENOTSUP \<equiv> - 4"
abbreviation (input) IOT_SOCKET_ENOTCONN :: int where "IOT_SOCKET_ENOTCONN \<equiv> - 10"
abbreviation (input) IOT_SOCKET_AF_INET :: int where "IOT_SOCKET_AF_INET \<equiv> 1"
abbreviation (input) IOT_SOCKET_AF_INET6 :: int where "IOT_SOCKET_AF_INET6 \<equiv> 2"
abbreviation (input) IOT_SOCKET_IO_FIONBIO :: int where "IOT_SOCKET_IO_FIONBIO \<equiv> 1"
abbreviation (input) IOT_SOCKET_SO_RCVTIMEO :: int where "IOT_SOCKET_SO_RCVTIMEO \<equiv> 2"
abbreviation (input) IOT_SOCKET_SO_SNDTIMEO :: int where "IOT_SOCKET_SO_SNDTIMEO \<equiv> 3"
abbreviation (input) IOT_SOCKET_SO_KEEPALIVE :: int where "IOT_SOCKET_SO_KEEPALIVE \<equiv> 4"
abbreviation (input) IOT_SOCKET_ID_INVALID :: int where "IOT_SOCKET_ID_INVALID \<equiv> - 1"

definition iotSocketErrorToMbed :: "int \<Rightarrow> int" where
  "iotSocketErrorToMbed e =
     (if e > 0 then e
      else if e = 0 then NSAPI_ERROR_OK
      else if e = - 1 then NSAPI_ERROR_UNKNOWN
      else if e = IOT_SOCKET_ENOTSUP then NSAPI_ERROR_UNSUPPORTED
      else if e = - 5 then NSAPI_ERROR_NO_MEMORY
      else if e = - 7 then NSAPI_ERROR_IN_PROGRESS
      else if e = - 6 then NSAPI_ERROR_WOULD_BLOCK
      else if e = - 8 then NSAPI_ERROR_CONNECTION_TIMEOUT
      else if e = - 9 then NSAPI_ERROR_IS_CONNECTED
      else if e = - 3 \<or> e = - 2 then NSAPI_ERROR_NO_SOCKET
      else if e = IOT_SOCKET_ENOTCONN then NSAPI_ERROR_NO_CONNECTION
      else if e = - 12 \<or> e = - 11 then NSAPI_ERROR_AUTH_FAILURE
      else if e = - 13 then NSAPI_ERROR_CONNECTION_LOST
      else if e = - 14 then NSAPI_ERROR_ALREADY
      else if e = - 15 then NSAPI_ERROR_ADDRESS_IN_USE
      else if e = - 16 then NSAPI_ERROR_HOST_NOT_FOUND
      else NSAPI_ERROR_UNKNOWN)"

section \<open>State\<close>

text \<open>
  The TLS calls belong to the wrapper, whose state extends this one; the host name and the start of the system to the
  program that uses a socket.
\<close>

datatype ns_program =
    KernelInitialize | KernelStart | StartNetworkTask | SetThreading | SetNvSeed | ExampleSerial | SetBaud int u32 | LogInit int

datatype ns_call =
    NsOs os_call | NsProgram ns_program | NsGetHost string int
  | NsCreate int int int | NsClose int | NsBind int "byte list option" u32 u16 | NsConnect int "byte list option" u32 u16
  | NsListen int int | NsAccept int | NsNew
  | NsSend int "byte list" | NsRecv int nat | NsRecvFrom int nat
  | NsSendTo int "byte list" "byte list option" u32 u16
  | NsSetOpt int int u32 | NsSetOptRaw int int "byte list" | NsGetOpt int int | NsGetPeerName int
  | TlsObject string | TlsObjectFree string | TlsNew nat | TlsCrtParse nat "byte list" | TlsPkParse "byte list"
  | TlsConfigDefaults nat | TlsConfAuthmode nat | TlsConfOwnCert nat nat | TlsConfCaChain nat nat | TlsConfRng nat
  | TlsDrbgSeed | TlsSetup nat | TlsSetHostname string | TlsSetBio | TlsHandshake | TlsCloseNotify
  | TlsWrite "byte list" | TlsRead nat

record isock = "ns_call world" +
  socket_lock :: int
  socket_id :: int
  ns_timeout :: u32
  ipproto :: int
  sock_type :: int
  af_type :: int
  factory_allocated :: bool
  socket_opened :: bool
  deleted :: bool
  udp_peer :: socket_address

type_synonym ('z, 'a) ns_m = "('z isock_scheme, 'a) state"

definition ns_lock :: "ns_call env \<Rightarrow> ('z, unit) ns_m" where
  "ns_lock env = do { m \<leftarrow> gets socket_lock; tell env (NsOs (OsMutexAcquire m osWaitForever)) }"

definition ns_unlock :: "ns_call env \<Rightarrow> ('z, unit) ns_m" where
  "ns_unlock env = do { m \<leftarrow> gets socket_lock; tell env (NsOs (OsMutexRelease m)) }"

text \<open>The state of a new object; the constructors of \<open>TCPSocket\<close> and \<open>UDPSocket\<close> give protocol and type.\<close>

definition new_socket :: "int \<Rightarrow> int \<Rightarrow> int \<Rightarrow> isock" where
  "new_socket lock proto stype =
     \<lparr>history = [], fault = False, socket_lock = lock, socket_id = IOT_SOCKET_ID_INVALID, ns_timeout = osWaitForever,
      ipproto = proto, sock_type = stype, af_type = 0, factory_allocated = False, socket_opened = False,
      deleted = False, udp_peer = unspecified\<rparr>"

definition tcp_socket :: "int \<Rightarrow> isock" where
  "tcp_socket lock = new_socket lock 1 1"

definition udp_socket :: "int \<Rightarrow> isock" where
  "udp_socket lock = new_socket lock 2 2"

definition accepted_socket :: "int \<Rightarrow> int \<Rightarrow> int \<Rightarrow> isock" where
  "accepted_socket lock i af =
     (tcp_socket lock)\<lparr>socket_id := i, af_type := af, factory_allocated := True\<rparr>"

section \<open>Sockets of both kinds\<close>

definition verify_socket_type :: "ns_call env \<Rightarrow> nsapi_version \<Rightarrow> ('z, bool) ns_m" where
  "verify_socket_type env version =
     do {
       ns_lock env;
       opened \<leftarrow> gets socket_opened;
       af \<leftarrow> gets af_type;
       let want =
         (if version = NSAPI_UNSPEC then (if opened then af else IOT_SOCKET_AF_INET)
          else if version = NSAPI_IPv4 then IOT_SOCKET_AF_INET else IOT_SOCKET_AF_INET6);
       i \<leftarrow> gets socket_id;
       status \<leftarrow>
         (if i \<noteq> IOT_SOCKET_ID_INVALID then return (want = af)
          else if \<not> opened then return False
          else do {
            modify (\<lambda>s. s\<lparr>af_type := want\<rparr>);
            t \<leftarrow> gets sock_type;
            p \<leftarrow> gets ipproto;
            rc \<leftarrow> call env (NsCreate want t p);
            if rc \<ge> 0 then do { modify (\<lambda>s. s\<lparr>socket_id := rc\<rparr>); return True } else return False
          });
       ns_unlock env;
       return status
     }"

definition get_iot_address_size :: "('z, u32) ns_m" where
  "get_iot_address_size =
     do { af \<leftarrow> gets af_type;
          return (if af = IOT_SOCKET_AF_INET6 then of_nat NSAPI_IPv6_BYTES else of_nat NSAPI_IPv4_BYTES) }"

definition get_ip_nsapi_version :: "('z, nsapi_version) ns_m" where
  "get_ip_nsapi_version =
     do { af \<leftarrow> gets af_type; return (if af = IOT_SOCKET_AF_INET then NSAPI_IPv4 else NSAPI_IPv6) }"

definition ns_open :: "ns_call env \<Rightarrow> nsapi_version \<Rightarrow> ('z, int) ns_m" where
  "ns_open env version =
     do {
       ns_lock env;
       opened \<leftarrow> gets socket_opened;
       af \<leftarrow> gets af_type;
       err \<leftarrow>
         (if opened then return NSAPI_ERROR_UNKNOWN
          else if version = NSAPI_IPv4 then
            (if af \<noteq> 0 \<and> af \<noteq> IOT_SOCKET_AF_INET then return NSAPI_ERROR_PARAMETER
             else do { modify (\<lambda>s. s\<lparr>af_type := IOT_SOCKET_AF_INET\<rparr>); return NSAPI_ERROR_OK })
          else if version = NSAPI_IPv6 then
            (if af \<noteq> 0 \<and> af \<noteq> IOT_SOCKET_AF_INET6 then return NSAPI_ERROR_PARAMETER
             else do { modify (\<lambda>s. s\<lparr>af_type := IOT_SOCKET_AF_INET6\<rparr>); return NSAPI_ERROR_OK })
          else return NSAPI_ERROR_PARAMETER);
       do_if (err = NSAPI_ERROR_OK) (modify (\<lambda>s. s\<lparr>socket_opened := True\<rparr>));
       ns_unlock env;
       return err
     }"

text \<open>The part of \<open>close\<close> for an object that is not deleted by it.\<close>

definition close_socket :: "ns_call env \<Rightarrow> ('z, int) ns_m" where
  "close_socket env =
     do {
       ns_lock env;
       i \<leftarrow> gets socket_id;
       r \<leftarrow> call env (NsClose i);
       do_if (r = 0)
         (modify (\<lambda>s. s\<lparr>socket_opened := False, socket_id := IOT_SOCKET_ID_INVALID, af_type := 0\<rparr>));
       ns_unlock env;
       return (iotSocketErrorToMbed r)
     }"

text \<open>\<open>delete this\<close> runs the destructor, which closes once more, no longer as an allocated object.\<close>

definition ns_close :: "ns_call env \<Rightarrow> ('z, int) ns_m" where
  "ns_close env =
     do {
       f \<leftarrow> gets factory_allocated;
       if f then do {
         modify (\<lambda>s. s\<lparr>factory_allocated := False\<rparr>);
         close_socket env;
         modify (\<lambda>s. s\<lparr>deleted := True\<rparr>);
         return NSAPI_ERROR_OK
       }
       else close_socket env
     }"

text \<open>\<open>bind\<close> of a port: the address it passes is a local array without a value.\<close>

definition ns_bind_port :: "ns_call env \<Rightarrow> byte list \<Rightarrow> u16 \<Rightarrow> ('z, int) ns_m" where
  "ns_bind_port env raw p =
     do {
       opened \<leftarrow> gets socket_opened;
       if \<not> opened then return NSAPI_ERROR_NO_SOCKET
       else do {
         ok \<leftarrow> verify_socket_type env NSAPI_UNSPEC;
         if \<not> ok then return NSAPI_ERROR_PARAMETER
         else do {
           i \<leftarrow> gets socket_id;
           n \<leftarrow> get_iot_address_size;
           rc \<leftarrow> call env (NsBind i (Some (take (unat n) raw)) n p);
           return (iotSocketErrorToMbed rc)
         }
       }
     }"

text \<open>
  \<open>reinterpret_cast<const uint8_t *>(address.get_ip_address())\<close>: the library reads the first bytes of the
  text where it expects the bytes of the address.
\<close>

definition text_as_bytes :: "nat \<Rightarrow> byte list \<Rightarrow> socket_address \<Rightarrow> ('z, byte list option \<times> socket_address) ns_m" where
  "text_as_bytes psz raw a =
     do {
       n \<leftarrow> get_iot_address_size;
       case get_ip_address psz raw a of
         None \<Rightarrow> do { crash; return (None, a) }
       | Some (t, a') \<Rightarrow> return (map_option (take (unat n)) t, a')
     }"

definition ns_bind :: "ns_call env \<Rightarrow> nat \<Rightarrow> byte list \<Rightarrow> socket_address \<Rightarrow> ('z, int) ns_m" where
  "ns_bind env psz raw a =
     do {
       opened \<leftarrow> gets socket_opened;
       if \<not> opened then return NSAPI_ERROR_NO_SOCKET
       else do {
         ok \<leftarrow> verify_socket_type env (sa_version a);
         if \<not> ok then return NSAPI_ERROR_PARAMETER
         else do {
           (t, a) \<leftarrow> text_as_bytes psz raw a;
           i \<leftarrow> gets socket_id;
           n \<leftarrow> get_iot_address_size;
           rc \<leftarrow> call env (NsBind i t n (sa_port a));
           return (iotSocketErrorToMbed rc)
         }
       }
     }"

definition ns_set_timeout :: "ns_call env \<Rightarrow> int \<Rightarrow> ('z, unit) ns_m" where
  "ns_set_timeout env timeout =
     do {
       ns_lock env;
       old_value \<leftarrow> gets socket_opened;
       modify (\<lambda>s. s\<lparr>socket_opened := True\<rparr>);
       ok \<leftarrow> verify_socket_type env NSAPI_UNSPEC;
       modify (\<lambda>s. s\<lparr>socket_opened := old_value\<rparr>);
       if \<not> ok then ns_unlock env
       else do {
         let is_blocking = (if timeout \<noteq> 0 then 1 else 0);
         modify (\<lambda>s. s\<lparr>ns_timeout := (if timeout < 0 then osWaitForever else of_int timeout)\<rparr>);
         i \<leftarrow> gets socket_id;
         t \<leftarrow> gets ns_timeout;
         do_if (is_blocking \<noteq> 0)
           (do { tell env (NsSetOpt i IOT_SOCKET_SO_RCVTIMEO t); tell env (NsSetOpt i IOT_SOCKET_SO_SNDTIMEO t) });
         tell env (NsSetOpt i IOT_SOCKET_IO_FIONBIO is_blocking);
         ns_unlock env
       }
     }"

definition ns_set_blocking :: "ns_call env \<Rightarrow> bool \<Rightarrow> ('z, unit) ns_m" where
  "ns_set_blocking env blocking = ns_set_timeout env (if blocking then - 1 else 0)"

text \<open>\<open>opt\<close> is the option and its value when the level is \<open>NSAPI_SOCKET\<close> and the option \<open>NSAPI_KEEPALIVE\<close>.\<close>

definition ns_setsockopt :: "ns_call env \<Rightarrow> byte list option \<Rightarrow> ('z, int) ns_m" where
  "ns_setsockopt env opt =
     do {
       ok \<leftarrow> verify_socket_type env NSAPI_UNSPEC;
       if \<not> ok then return NSAPI_ERROR_NO_SOCKET
       else do {
         i \<leftarrow> gets socket_id;
         rc \<leftarrow> (case opt of None \<Rightarrow> return IOT_SOCKET_ENOTSUP
           | Some v \<Rightarrow> call env (NsSetOptRaw i IOT_SOCKET_SO_KEEPALIVE v));
         return (iotSocketErrorToMbed rc)
       }
     }"

definition ns_getsockopt :: "ns_call env \<Rightarrow> bool \<Rightarrow> ('z, int \<times> byte list) ns_m" where
  "ns_getsockopt env keepalive =
     do {
       ok \<leftarrow> verify_socket_type env NSAPI_UNSPEC;
       if \<not> ok then return (NSAPI_ERROR_NO_SOCKET, [])
       else if keepalive then do {
         i \<leftarrow> gets socket_id;
         r \<leftarrow> extern env (NsGetOpt i IOT_SOCKET_SO_KEEPALIVE);
         return (iotSocketErrorToMbed (ret r), payload r)
       }
       else return (iotSocketErrorToMbed IOT_SOCKET_ENOTSUP, [])
     }"

text \<open>The address and the port an answer carries; the rest of the local array is what the answer says.\<close>

definition answer_address :: "reply \<Rightarrow> byte list" where
  "answer_address r = pad 16 (map of_int (drop 1 (outs r)))"

definition answer_port :: "reply \<Rightarrow> u16" where
  "answer_port r = (case outs r of [] \<Rightarrow> 0 | p # _ \<Rightarrow> of_int p)"

definition store_address :: "reply \<Rightarrow> socket_address \<Rightarrow> ('z, socket_address) ns_m" where
  "store_address r a =
     do {
       v \<leftarrow> get_ip_nsapi_version;
       case set_ip_bytes (answer_address r) v a of
         None \<Rightarrow> do { crash; return a }
       | Some b \<Rightarrow> return (set_port (answer_port r) b)
     }"

definition ns_getpeername :: "ns_call env \<Rightarrow> socket_address option \<Rightarrow> ('z, int \<times> socket_address option) ns_m" where
  "ns_getpeername env address =
     (case address of None \<Rightarrow> return (NSAPI_ERROR_PARAMETER, None)
      | Some a \<Rightarrow>
          do {
            i \<leftarrow> gets socket_id;
            if i = IOT_SOCKET_ID_INVALID then return (NSAPI_ERROR_NO_SOCKET, address)
            else do {
              r \<leftarrow> extern env (NsGetPeerName i);
              if ret r = IOT_SOCKET_ENOTCONN then return (NSAPI_ERROR_NO_CONNECTION, address)
              else do { b \<leftarrow> store_address r a; return (NSAPI_ERROR_OK, Some b) }
            }
          })"

section \<open>TCP\<close>

definition tcp_connect :: "ns_call env \<Rightarrow> socket_address \<Rightarrow> ('z, int) ns_m" where
  "tcp_connect env a =
     do {
       opened \<leftarrow> gets socket_opened;
       if \<not> opened then return NSAPI_ERROR_NO_SOCKET
       else do {
         ok \<leftarrow> verify_socket_type env (sa_version a);
         if \<not> ok then return NSAPI_ERROR_PARAMETER
         else do {
           i \<leftarrow> gets socket_id;
           n \<leftarrow> get_iot_address_size;
           rc \<leftarrow> call env (NsConnect i (map_option (take (unat n)) (get_ip_bytes a)) n (sa_port a));
           return (iotSocketErrorToMbed rc)
         }
       }
     }"

text \<open>The loop of \<open>send\<close>, from what is written so far; the number is fuel, \<open>None\<close> that it is used up.\<close>

fun tcp_send_loop :: "ns_call env \<Rightarrow> nat \<Rightarrow> byte list \<Rightarrow> u32 \<Rightarrow> u32 \<Rightarrow> ('z, int option) ns_m" where
  "tcp_send_loop env 0 data sz written = return None"
| "tcp_send_loop env (Suc fuel) data sz written =
     do {
       i \<leftarrow> gets socket_id;
       rc \<leftarrow> call env (NsSend i (take (unat (sz - written)) (drop (unat written) data)));
       let ret = iotSocketErrorToMbed rc;
       if ret < 0 then return (Some ret)
       else do {
         let written = written + of_int ret;
         t \<leftarrow> gets ns_timeout;
         if written \<ge> sz \<or> t \<noteq> 0 then return (Some (sint written))
         else tcp_send_loop env fuel data sz written
       }
     }"

definition tcp_send :: "ns_call env \<Rightarrow> nat \<Rightarrow> byte list \<Rightarrow> u32 \<Rightarrow> ('z, int option) ns_m" where
  "tcp_send env fuel data sz =
     do {
       i \<leftarrow> gets socket_id;
       if i = IOT_SOCKET_ID_INVALID then return (Some NSAPI_ERROR_NO_SOCKET) else tcp_send_loop env fuel data sz 0
     }"

definition tcp_sendto :: "ns_call env \<Rightarrow> nat \<Rightarrow> socket_address \<Rightarrow> byte list \<Rightarrow> u32 \<Rightarrow> ('z, int option) ns_m" where
  "tcp_sendto env fuel address data sz = tcp_send env fuel data sz"

definition tcp_recv :: "ns_call env \<Rightarrow> nat \<Rightarrow> ('z, int \<times> byte list) ns_m" where
  "tcp_recv env sz =
     do {
       i \<leftarrow> gets socket_id;
       if i = IOT_SOCKET_ID_INVALID then return (NSAPI_ERROR_NO_SOCKET, [])
       else do { r \<leftarrow> extern env (NsRecv i sz); return (iotSocketErrorToMbed (ret r), payload r) }
     }"

definition tcp_recvfrom ::
  "ns_call env \<Rightarrow> socket_address option \<Rightarrow> nat \<Rightarrow> ('z, int \<times> byte list \<times> socket_address option) ns_m" where
  "tcp_recvfrom env address sz =
     do {
       i \<leftarrow> gets socket_id;
       if i = IOT_SOCKET_ID_INVALID then return (NSAPI_ERROR_NO_SOCKET, [], address)
       else do {
         r \<leftarrow> extern env (NsRecvFrom i sz);
         address \<leftarrow> (case address of None \<Rightarrow> return None | Some a \<Rightarrow> do { b \<leftarrow> store_address r a; return (Some b) });
         return (iotSocketErrorToMbed (ret r), payload r, address)
       }
     }"

definition tcp_listen :: "ns_call env \<Rightarrow> int \<Rightarrow> ('z, int) ns_m" where
  "tcp_listen env backlog =
     do {
       i \<leftarrow> gets socket_id;
       if i = IOT_SOCKET_ID_INVALID then return NSAPI_ERROR_NO_SOCKET
       else do { rc \<leftarrow> call env (NsListen i backlog); return (iotSocketErrorToMbed rc) }
     }"

text \<open>The error for the caller, and the identifier and family of the new connection.\<close>

definition tcp_accept :: "ns_call env \<Rightarrow> ('z, int \<times> (int \<times> int) option) ns_m" where
  "tcp_accept env =
     do {
       i \<leftarrow> gets socket_id;
       if i = IOT_SOCKET_ID_INVALID then return (NSAPI_ERROR_NO_SOCKET, None)
       else do {
         rc \<leftarrow> call env (NsAccept i);
         if rc < 0 then return (iotSocketErrorToMbed rc, None)
         else do {
           connection \<leftarrow> call env NsNew;
           if connection = 0 then do { tell env (NsClose rc); return (NSAPI_ERROR_NO_MEMORY, None) }
           else do { af \<leftarrow> gets af_type; return (iotSocketErrorToMbed rc, Some (rc, af)) }
         }
       }
     }"

section \<open>UDP\<close>

definition udp_connect :: "socket_address \<Rightarrow> ('z, int) ns_m" where
  "udp_connect a = do { modify (\<lambda>s. s\<lparr>udp_peer := assign (udp_peer s) a\<rparr>); return NSAPI_ERROR_OK }"

definition udp_sendto ::
  "ns_call env \<Rightarrow> nat \<Rightarrow> byte list \<Rightarrow> socket_address \<Rightarrow> byte list \<Rightarrow> ('z, int \<times> socket_address) ns_m" where
  "udp_sendto env psz raw a data =
     do {
       ok \<leftarrow> verify_socket_type env (sa_version a);
       if \<not> ok then return (NSAPI_ERROR_PARAMETER, a)
       else do {
         i \<leftarrow> gets socket_id;
         (t, a) \<leftarrow> text_as_bytes psz raw a;
         n \<leftarrow> get_iot_address_size;
         rc \<leftarrow> call env (NsSendTo i data t n (sa_port a));
         return (iotSocketErrorToMbed rc, a)
       }
     }"

definition udp_send :: "ns_call env \<Rightarrow> nat \<Rightarrow> byte list \<Rightarrow> byte list \<Rightarrow> ('z, int) ns_m" where
  "udp_send env psz raw data =
     do {
       a \<leftarrow> gets udp_peer;
       if \<not> address_set a then return NSAPI_ERROR_NO_ADDRESS
       else do {
         (rc, a) \<leftarrow> udp_sendto env psz raw a data;
         modify (\<lambda>s. s\<lparr>udp_peer := a\<rparr>);
         return rc
       }
     }"

definition udp_recvfrom ::
  "ns_call env \<Rightarrow> socket_address option \<Rightarrow> nat \<Rightarrow> ('z, int \<times> byte list \<times> socket_address option) ns_m" where
  "udp_recvfrom env address sz =
     do {
       ok \<leftarrow> (case address of None \<Rightarrow> return True | Some a \<Rightarrow> verify_socket_type env (sa_version a));
       if \<not> ok then return (NSAPI_ERROR_PARAMETER, [], address)
       else do {
         i \<leftarrow> gets socket_id;
         if i = IOT_SOCKET_ID_INVALID then return (NSAPI_ERROR_NO_SOCKET, [], address)
         else do {
           r \<leftarrow> extern env (NsRecvFrom i sz);
           if ret r < 0 then return (iotSocketErrorToMbed (ret r), payload r, address)
           else do {
             peer \<leftarrow> gets udp_peer;
             from \<leftarrow> store_address r unspecified;
             let filtered = (address_set peer \<and> \<not> same_address peer from);
             address \<leftarrow>
               (case address of Some a \<Rightarrow>
                  (if filtered then return address else do { b \<leftarrow> store_address r a; return (Some b) })
                | None \<Rightarrow> return None);
             return (iotSocketErrorToMbed (if filtered then 0 else ret r), payload r, address)
           }
         }
       }
     }"

definition udp_recv :: "ns_call env \<Rightarrow> nat \<Rightarrow> ('z, int \<times> byte list) ns_m" where
  "udp_recv env sz = do { (rc, data, _) \<leftarrow> udp_recvfrom env None sz; return (rc, data) }"

section \<open>Lemmas\<close>

lemma error_code_sign: "iotSocketErrorToMbed e < 0 \<longleftrightarrow> e < 0" "0 \<le> e \<Longrightarrow> iotSocketErrorToMbed e = e"
  by (auto simp: iotSocketErrorToMbed_def)

section \<open>TCP sends a prefix\<close>

text \<open>The bytes the library has taken, in order.\<close>

fun sent_bytes :: "(ns_call \<times> reply) list \<Rightarrow> byte list" where
  "sent_bytes [] = []"
| "sent_bytes ((NsSend i d, r) # h) = sent_bytes h @ (if ret r < 0 then [] else take (nat (ret r)) d)"
| "sent_bytes (c # h) = sent_bytes h"

lemma tcp_send_loop_prefix:
  assumes "length data = unat sz" and "unat sz < 2147483648"
    and "\<And>h i d. ret (env h (NsSend i d)) \<le> int (length d)"
  shows "written \<le> sz \<Longrightarrow> sent_bytes (history s) = base @ take (unat written) data \<Longrightarrow>
    wp (tcp_send_loop env fuel data sz written)
      (\<lambda>r t. \<exists>k\<le>unat sz. sent_bytes (history t) = base @ take k data \<and> (\<forall>n. r = Some n \<longrightarrow> 0 \<le> n \<longrightarrow> n = int k)) s"
proof (induction fuel arbitrary: s written)
  case 0
  then show ?case by (auto simp: wp word_le_nat_alt)
next
  case (Suc fuel)
  define d where "d = take (unat (sz - written)) (drop (unat written) data)"
  define r where "r = env (history s) (NsSend (socket_id s) d)"
  define u where "u = s\<lparr>history := (NsSend (socket_id s) d, r) # history s\<rparr>"
  have w: "unat written \<le> unat sz" using Suc.prems(1) by (simp add: word_le_nat_alt)
  have len: "length d = unat sz - unat written"
    using assms(1) w Suc.prems(1) by (simp add: d_def unat_sub)
  have step: "wp (tcp_send_loop env (Suc fuel) data sz written) Q s =
    (if ret r < 0 then Q (Some (iotSocketErrorToMbed (ret r))) u
     else if written + of_int (ret r) \<ge> sz \<or> ns_timeout u \<noteq> 0 then Q (Some (sint (written + of_int (ret r)))) u
     else wp (tcp_send_loop env fuel data sz (written + of_int (ret r))) Q u)" for Q
    by (simp add: wp Let_def error_code_sign d_def [symmetric] r_def [symmetric] u_def [symmetric] not_less)
  show ?case
  proof (cases "ret r < 0")
    case True
    then show ?thesis
      unfolding step using w Suc.prems(2) error_code_sign(1) [of "ret r"] by (auto simp: u_def intro!: exI [of _ "unat written"])
  next
    case False
    have k: "nat (ret r) \<le> unat sz - unat written"
      using assms(3) [of "history s" "socket_id s" d] len by (simp add: r_def)
    define v where "v = written + of_int (ret r)"
    have v: "unat v = unat written + nat (ret r)"
    proof -
      have "v = of_nat (unat written + nat (ret r))" using False by (simp add: v_def)
      moreover have "unat written + nat (ret r) < 2 ^ 32" using k w assms(2) by simp
      ultimately show ?thesis by (simp add: unat_of_nat del: of_nat_add)
    qed
    have "take (nat (ret r)) d = take (nat (ret r)) (drop (unat written) data)"
      using k Suc.prems(1) by (simp add: d_def unat_sub min_absorb1 del: drop_take take_drop)
    then have sent: "sent_bytes (history u) = base @ take (unat v) data"
      using False Suc.prems(2) by (simp add: u_def v take_add)
    have le: "v \<le> sz" using v k w by (simp add: word_le_nat_alt)
    have "sint v = int (unat v)"
      using le assms(2) by (intro sint_small) (simp add: word_le_nat_alt)
    then show ?thesis
      unfolding step using False sent le Suc.IH [OF le sent]
      by (auto simp: v_def [symmetric] word_le_nat_alt intro!: exI [of _ "unat v"])
  qed
qed

text \<open>
  C22. Whatever the socket library takes of each piece, \<open>TCPSocket::send\<close> hands it the data in order, without a
  gap and without a repetition, and a result that is not negative is the number of bytes taken.  A negative
  result says nothing about it: bytes taken before a later piece failed are not reported.
\<close>

theorem tcp_send_prefix:
  assumes "length data = unat sz" and "unat sz < 2147483648"
    and "\<And>h i d. ret (env h (NsSend i d)) \<le> int (length d)"
  shows "wp (tcp_send env fuel data sz)
    (\<lambda>r t. \<exists>k\<le>unat sz. sent_bytes (history t) = sent_bytes (history s) @ take k data \<and>
      (\<forall>n. r = Some n \<longrightarrow> 0 \<le> n \<longrightarrow> n = int k)) s"
proof -
  have "wp (tcp_send_loop env fuel data sz 0)
    (\<lambda>r t. \<exists>k\<le>unat sz. sent_bytes (history t) = sent_bytes (history s) @ take k data \<and>
      (\<forall>n. r = Some n \<longrightarrow> 0 \<le> n \<longrightarrow> n = int k)) s"
    by (rule tcp_send_loop_prefix [OF assms]) simp_all
  then show ?thesis by (auto simp: tcp_send_def wp)
qed


section \<open>UDP sends to the text\<close>

text \<open>
  \<open>InternetDatagramSocket::sendto\<close> on an open IPv4 socket sends exactly one datagram, with the data and the
  port it was given, but to the address whose four bytes are the first four characters of the printed address.
\<close>

lemma udp_sends_to_text:
  assumes "address_ok a" and "sa_version a = NSAPI_IPv4" and "sa_text a = None" and "length raw = NSAPI_IP_SIZE"
    and "af_type s = IOT_SOCKET_AF_INET" and "socket_id s \<noteq> IOT_SOCKET_ID_INVALID"
  shows "wp (udp_sendto env psz raw a data)
    (\<lambda>r t. \<not> fault t = (\<not> fault s) \<and> calls t = calls s @
       [NsOs (OsMutexAcquire (socket_lock s) osWaitForever), NsOs (OsMutexRelease (socket_lock s)),
        NsSendTo (socket_id s) data (Some (take 4 (ip4_text (take 4 (sa_bytes a)) @ [0]))) 4 (sa_port a)]) s"
proof -
  have l: "length (take 4 (sa_bytes a)) = 4" using assms(1) by (simp add: address_ok_def)
  have printed: "get_ip_address psz raw a = Some (Some (ip4_text (take 4 (sa_bytes a)) @ 0 #
      drop (Suc (length (ip4_text (take 4 (sa_bytes a))))) raw),
      a\<lparr>sa_text := Some (ip4_text (take 4 (sa_bytes a)) @ 0 # drop (Suc (length (ip4_text (take 4 (sa_bytes a))))) raw)\<rparr>)"
    using ip4tos_text [OF l, of raw] assms(2-4) by (simp add: get_ip_address_def)
  have long: "4 \<le> length (ip4_text b)" for b
    using dec_text_nonempty [of "unat (b ! 0)"] by (cases "dec_text (unat (b ! 0))") (simp_all add: ip4_text_def)
  show ?thesis
    using assms(2,5,6) long [of "take 4 (sa_bytes a)"]
    by (simp add: udp_sendto_def verify_socket_type_def ns_lock_def ns_unlock_def text_as_bytes_def
      get_iot_address_size_def printed calls_def wp Let_def)
qed

section \<open>Sockets owned\<close>

fun owned :: "(ns_call \<times> reply) list \<Rightarrow> int" where
  "owned [] = 0"
| "owned ((NsCreate f t p, r) # h) = (if 0 \<le> ret r then owned h + 1 else owned h)"
| "owned ((NsClose i, r) # h) = (if ret r = 0 then owned h - 1 else owned h)"
| "owned (c # h) = owned h"

definition owns :: "int \<Rightarrow> 'z isock_scheme \<Rightarrow> bool" where
  "owns n s \<longleftrightarrow> owned (history s) = n + (if socket_id s = IOT_SOCKET_ID_INVALID then 0 else 1)"

fun neutral :: "ns_call \<Rightarrow> bool" where
  "neutral (NsCreate f t p) = False"
| "neutral (NsClose i) = False"
| "neutral c = True"

lemma owned_neutral [simp]: "neutral c \<Longrightarrow> owned ((c, r) # h) = owned h"
  by (cases c) simp_all

lemma owns_neutral [simp]:
  "neutral c \<Longrightarrow> owns n (s\<lparr>history := (c, r) # history s\<rparr>) = owns n s" "owns n (s\<lparr>fault := b\<rparr>) = owns n s"
  "owns n (s\<lparr>af_type := x\<rparr>) = owns n s" "owns n (s\<lparr>socket_opened := b\<rparr>) = owns n s" "owns n (s\<lparr>ns_timeout := y\<rparr>) = owns n s"
  "owns n (s\<lparr>factory_allocated := b\<rparr>) = owns n s" "owns n (s\<lparr>deleted := b\<rparr>) = owns n s" "owns n (s\<lparr>udp_peer := a\<rparr>) = owns n s"
  by (simp_all add: owns_def)

lemma owns_verify: "keeps (owns n) (verify_socket_type env v)"
  by (simp add: keeps_def verify_socket_type_def ns_lock_def ns_unlock_def wp owns_def Let_def)

text \<open>The library never closes the invalid identifier.\<close>

definition closes_valid :: "ns_call env \<Rightarrow> bool" where
  "closes_valid env \<longleftrightarrow> (\<forall>h. ret (env h (NsClose IOT_SOCKET_ID_INVALID)) \<noteq> 0)"

lemma owns_close: "closes_valid env \<Longrightarrow> keeps (owns n) (ns_close env)"
  by (auto simp: keeps_def ns_close_def close_socket_def ns_lock_def ns_unlock_def wp owns_def closes_valid_def)

text \<open>The operations of both kinds of socket, accepting apart, which makes a new object.\<close>

datatype ns_op =
    Open nsapi_version | Close | BindPort "byte list" u16 | Bind nat "byte list" socket_address
  | SetTimeout int | SetBlocking bool | SetSockOpt "byte list option" | GetSockOpt bool
  | GetPeerName "socket_address option"
  | TcpConnect socket_address | TcpSend nat "byte list" u32 | TcpRecv nat | TcpRecvFrom "socket_address option" nat
  | TcpListen int | UdpConnect socket_address | UdpSendTo nat "byte list" socket_address "byte list"
  | UdpSend nat "byte list" "byte list" | UdpRecvFrom "socket_address option" nat

fun ns_run :: "ns_call env \<Rightarrow> ns_op \<Rightarrow> ('z, unit) ns_m" where
  "ns_run env (Open v) = do { _ \<leftarrow> ns_open env v; return () }"
| "ns_run env Close = do { _ \<leftarrow> ns_close env; return () }"
| "ns_run env (BindPort raw p) = do { _ \<leftarrow> ns_bind_port env raw p; return () }"
| "ns_run env (Bind psz raw a) = do { _ \<leftarrow> ns_bind env psz raw a; return () }"
| "ns_run env (SetTimeout t) = ns_set_timeout env t"
| "ns_run env (SetBlocking b) = ns_set_blocking env b"
| "ns_run env (SetSockOpt v) = do { _ \<leftarrow> ns_setsockopt env v; return () }"
| "ns_run env (GetSockOpt k) = do { _ \<leftarrow> ns_getsockopt env k; return () }"
| "ns_run env (GetPeerName a) = do { _ \<leftarrow> ns_getpeername env a; return () }"
| "ns_run env (TcpConnect a) = do { _ \<leftarrow> tcp_connect env a; return () }"
| "ns_run env (TcpSend fuel d n) = do { _ \<leftarrow> tcp_send env fuel d n; return () }"
| "ns_run env (TcpRecv n) = do { _ \<leftarrow> tcp_recv env n; return () }"
| "ns_run env (TcpRecvFrom a n) = do { _ \<leftarrow> tcp_recvfrom env a n; return () }"
| "ns_run env (TcpListen b) = do { _ \<leftarrow> tcp_listen env b; return () }"
| "ns_run env (UdpConnect a) = do { _ \<leftarrow> udp_connect a; return () }"
| "ns_run env (UdpSendTo psz raw a d) = do { _ \<leftarrow> udp_sendto env psz raw a d; return () }"
| "ns_run env (UdpSend psz raw d) = do { _ \<leftarrow> udp_send env psz raw d; return () }"
| "ns_run env (UdpRecvFrom a n) = do { _ \<leftarrow> udp_recvfrom env a n; return () }"

fun ns_runs :: "ns_call env \<Rightarrow> ns_op list \<Rightarrow> ('z, unit) ns_m" where
  "ns_runs env [] = return ()"
| "ns_runs env (x # xs) = do { ns_run env x; ns_runs env xs }"

section \<open>Invariants of a socket\<close>

text \<open>
  An assertion that the calls on an open socket, the fields other than the identifier, and the opening of a
  socket do not touch is kept by every operation, closing apart.
\<close>

fun socket_call :: "ns_call \<Rightarrow> bool" where
  "socket_call (NsOs c) = True"
| "socket_call (NsBind i b n p) = True"
| "socket_call (NsConnect i b n p) = True"
| "socket_call (NsListen i n) = True"
| "socket_call (NsSend i b) = True"
| "socket_call (NsRecv i n) = True"
| "socket_call (NsRecvFrom i n) = True"
| "socket_call (NsSendTo i d b n p) = True"
| "socket_call (NsSetOpt i n v) = True"
| "socket_call (NsSetOptRaw i n v) = True"
| "socket_call (NsGetOpt i n) = True"
| "socket_call (NsGetPeerName i) = True"
| "socket_call c = False"

locale socket_invariant =
  fixes env :: "ns_call env" and P :: "'z isock_scheme \<Rightarrow> bool"
  assumes socket_calls: "socket_call c \<Longrightarrow> P s \<Longrightarrow> P (s\<lparr>history := (c, r) # history s\<rparr>)"
    and faults: "P s \<Longrightarrow> P (s\<lparr>fault := b\<rparr>)"
    and opened: "P s \<Longrightarrow> P (s\<lparr>socket_opened := b\<rparr>)"
    and family: "P s \<Longrightarrow> P (s\<lparr>af_type := i\<rparr>)"
    and timeouts: "P s \<Longrightarrow> P (s\<lparr>ns_timeout := w\<rparr>)"
    and peer: "P s \<Longrightarrow> P (s\<lparr>udp_peer := a\<rparr>)"
    and verify: "keeps P (verify_socket_type env v)"
begin

lemmas fields = socket_calls faults opened family timeouts peer

lemma locking: "keeps P (ns_lock env)" "keeps P (ns_unlock env)"
  unfolding ns_lock_def ns_unlock_def by (intro keeps fields; simp)+

lemma send_loop: "keeps P (tcp_send_loop env fuel d sz w)"
  by (induction fuel arbitrary: w) (simp_all add: Let_def, (intro keeps fields; simp)+)

lemma parts:
  "keeps P get_iot_address_size" "keeps P (text_as_bytes psz raw a)" "keeps P (store_address r a)"
proof -
  show sized: "keeps P get_iot_address_size" unfolding get_iot_address_size_def by (intro keeps)
  show "keeps P (text_as_bytes psz raw a)" "keeps P (store_address r a)"
    unfolding text_as_bytes_def store_address_def get_ip_nsapi_version_def by (intro keeps sized faults; simp)+
qed

lemmas rules = keeps locking verify parts send_loop fields

lemma general:
  "keeps P (ns_open env v)" "keeps P (ns_bind_port env raw p)" "keeps P (ns_bind env psz raw a)"
  "keeps P (ns_set_timeout env i)" "keeps P (ns_setsockopt env opt)" "keeps P (ns_getsockopt env k)"
  "keeps P (ns_getpeername env pa)"
  unfolding ns_open_def ns_bind_port_def ns_bind_def ns_set_timeout_def ns_setsockopt_def ns_getsockopt_def ns_getpeername_def
  by (intro rules; simp)+

lemma blocking: "keeps P (ns_set_blocking env b)"
  unfolding ns_set_blocking_def by (rule general)

lemma tcp:
  "keeps P (tcp_connect env a)" "keeps P (tcp_send env fuel d w)" "keeps P (tcp_recv env m)"
  "keeps P (tcp_recvfrom env pa m)" "keeps P (tcp_listen env b)"
  unfolding tcp_connect_def tcp_send_def tcp_recv_def tcp_recvfrom_def tcp_listen_def
  by (intro rules; simp)+

lemma udp:
  "keeps P (udp_connect a)" "keeps P (udp_sendto env psz raw a d)" "keeps P (udp_send env psz raw d)"
  "keeps P (udp_recvfrom env pa m)"
proof -
  show "keeps P (udp_connect a)" unfolding udp_connect_def by (intro rules; simp)
  show sendto: "keeps P (udp_sendto env psz raw a d)" for a
    unfolding udp_sendto_def by (intro rules; simp)
  show "keeps P (udp_send env psz raw d)"
    unfolding udp_send_def by (intro rules sendto; simp)
  show "keeps P (udp_recvfrom env pa m)"
    unfolding udp_recvfrom_def by (intro rules; simp)
qed

lemma run: "keeps P (ns_close env) \<Longrightarrow> keeps P (ns_run env x)"
  by (cases x) (simp_all add: keeps general blocking tcp udp)

lemma runs: "keeps P (ns_close env) \<Longrightarrow> keeps P (ns_runs env xs)"
  by (induction xs) (simp_all add: keeps run)

end

interpretation owning: socket_invariant env "owns n" for env n
  by unfold_locales (auto simp: owns_verify elim: socket_call.elims)



section \<open>Examples\<close>

text \<open>A library that takes at most two bytes at a time.\<close>

definition two_bytes_env :: "ns_call env" where
  "two_bytes_env h c = \<lparr>ret = (case c of NsSend i d \<Rightarrow> min 2 (int (length d)) | NsCreate f t p \<Rightarrow> 5
       | NsClose i \<Rightarrow> if i = - 1 then - 2 else 0 | _ \<Rightarrow> 0), outs = [], payload = []\<rparr>"

definition open_tcp :: isock where
  "open_tcp = (tcp_socket 1)\<lparr>socket_opened := True, socket_id := 5, af_type := 1, ns_timeout := 0\<rparr>"

lemma tcp_send_prefix_witness:
  "wp (tcp_send two_bytes_env 4 [1, 2, 3, 4, 5] 5)
    (\<lambda>r t. \<exists>k\<le>5. sent_bytes (history t) = take k [1, 2, 3, 4, 5] \<and> (case r of None \<Rightarrow> True | Some n \<Rightarrow> n < 0 \<or> n = int k))
    open_tcp"
  by (rule wp_mono [OF tcp_send_prefix [of "[1, 2, 3, 4, 5]" 5 two_bytes_env 4 open_tcp]])
    (auto simp: two_bytes_env_def open_tcp_def tcp_socket_def new_socket_def not_less split: option.splits)

lemma udp_sends_to_text_witness:
  "wp (udp_sendto two_bytes_env 4 (replicate 40 0) localhost [1]) (\<lambda>r t. \<not> fault t \<and> calls t =
     [NsOs (OsMutexAcquire 1 osWaitForever), NsOs (OsMutexRelease 1),
      NsSendTo 5 [1] (Some (take 4 (ip4_text [127, 0, 0, 1] @ [0]))) 4 80]) open_tcp"
  by (rule wp_mono [OF udp_sends_to_text [of localhost "replicate 40 0" open_tcp]])
    (simp_all add: localhost_def address_ok_def open_tcp_def tcp_socket_def new_socket_def calls_def)


end
