(* ===== verification/Tls_Socket.thy ===== *)
theory Tls_Socket
  imports Netsocket C_Heap "HOL-Library.Multiset"
begin

text \<open>
  The TLS socket of \<open>mbed-os-netsocket\<close>, \<open>TLSSocketWrapper.cpp\<close> over a TCP socket, and \<open>TLSSocket.cpp\<close>.

  The state extends that of the transport, so an operation on the transport is the operation of \<open>Netsocket\<close>.
  Mbed TLS is the environment.  The certificates and the configuration the wrapper allocates are blocks of a
  heap; pointers given by the application are numbers that need not be in it.  The configuration modelled has
  X.509 parsing, the CTR DRBG and the platform layer, and neither PSA nor debug output.  The two BIO functions,
  which Mbed TLS calls back, are operations of their own.
\<close>

section \<open>State\<close>

datatype tls_block = Crt | SslConfig

record tls = isock +
  transport :: bool
  connect_transport :: bool
  close_transport :: bool
  tls_initialized :: bool
  handshake_completed :: bool
  cacert_allocated :: bool
  clicert_allocated :: bool
  ssl_conf_allocated :: bool
  cacert :: nat
  clicert :: nat
  ssl_conf :: nat
  tls_heap :: "tls_block heap"

record tls_lib =
  tl_env :: "ns_call env"
  crt_size :: nat
  conf_size :: nat

type_synonym 'a tls_m = "(tls, 'a) state"

abbreviation (input) MBEDTLS_ERR_SSL_WANT_READ :: int where "MBEDTLS_ERR_SSL_WANT_READ \<equiv> - 0x6900"
abbreviation (input) MBEDTLS_ERR_SSL_WANT_WRITE :: int where "MBEDTLS_ERR_SSL_WANT_WRITE \<equiv> - 0x6880"
abbreviation (input) MBEDTLS_ERR_SSL_PEER_CLOSE_NOTIFY :: int where "MBEDTLS_ERR_SSL_PEER_CLOSE_NOTIFY \<equiv> - 0x7880"

definition tls_new :: "tls_lib \<Rightarrow> nat \<Rightarrow> tls_block \<Rightarrow> nat tls_m" where
  "tls_new w n b =
     do {
       a \<leftarrow> call (tl_env w) (TlsNew n);
       h \<leftarrow> gets tls_heap;
       let (p, h') = h_alloc h (nat a) n b;
       modify (\<lambda>s. s\<lparr>tls_heap := h'\<rparr>);
       return p
     }"

definition tls_delete :: "nat \<Rightarrow> unit tls_m" where
  "tls_delete p =
     do { h \<leftarrow> gets tls_heap; do_if (h_get h p = None) crash; modify (\<lambda>s. s\<lparr>tls_heap := h_free h p\<rparr>) }"

section \<open>Configuration and certificates\<close>

definition set_ssl_config :: "tls_lib \<Rightarrow> nat \<Rightarrow> unit tls_m" where
  "set_ssl_config w conf =
     do {
       c \<leftarrow> gets ssl_conf;
       own \<leftarrow> gets ssl_conf_allocated;
       do_if (c \<noteq> 0 \<and> own)
         (do { tell (tl_env w) (TlsObjectFree ''config''); tls_delete c; modify (\<lambda>s. s\<lparr>ssl_conf_allocated := False\<rparr>) });
       modify (\<lambda>s. s\<lparr>ssl_conf := conf\<rparr>)
     }"

definition get_ssl_config :: "tls_lib \<Rightarrow> nat tls_m" where
  "get_ssl_config w =
     do {
       c \<leftarrow> gets ssl_conf;
       if c \<noteq> 0 then return c
       else do {
         p \<leftarrow> tls_new w (conf_size w) SslConfig;
         modify (\<lambda>s. s\<lparr>ssl_conf := p\<rparr>);
         if p = 0 then return 0
         else do {
           tell (tl_env w) (TlsObject ''config'');
           modify (\<lambda>s. s\<lparr>ssl_conf_allocated := True\<rparr>);
           r \<leftarrow> call (tl_env w) (TlsConfigDefaults p);
           if r \<noteq> 0 then do { set_ssl_config w 0; return 0 }
           else do { tell (tl_env w) (TlsConfAuthmode p); gets ssl_conf }
         }
       }
     }"

text \<open>A call of Mbed TLS that reads the configuration.\<close>

definition conf_call :: "tls_lib \<Rightarrow> nat \<Rightarrow> ns_call \<Rightarrow> int tls_m" where
  "conf_call w conf c = do { do_if (conf = 0) crash; call (tl_env w) c }"

definition set_own_cert :: "tls_lib \<Rightarrow> nat \<Rightarrow> int tls_m" where
  "set_own_cert w crt =
     do {
       c \<leftarrow> gets clicert;
       own \<leftarrow> gets clicert_allocated;
       do_if (c \<noteq> 0 \<and> own)
         (do { tell (tl_env w) (TlsObjectFree ''crt''); tls_delete c; modify (\<lambda>s. s\<lparr>clicert_allocated := False\<rparr>) });
       modify (\<lambda>s. s\<lparr>clicert := crt\<rparr>);
       if crt \<noteq> 0 then do { conf \<leftarrow> get_ssl_config w; conf_call w conf (TlsConfOwnCert conf crt) }
       else return 0
     }"

definition set_ca_chain :: "tls_lib \<Rightarrow> nat \<Rightarrow> unit tls_m" where
  "set_ca_chain w crt =
     do {
       c \<leftarrow> gets cacert;
       own \<leftarrow> gets cacert_allocated;
       do_if (c \<noteq> 0 \<and> own)
         (do { tell (tl_env w) (TlsObjectFree ''crt''); tls_delete c; modify (\<lambda>s. s\<lparr>cacert_allocated := False\<rparr>) });
       modify (\<lambda>s. s\<lparr>cacert := crt\<rparr>);
       conf \<leftarrow> get_ssl_config w;
       conf_call w conf (TlsConfCaChain conf crt);
       return ()
     }"

definition set_root_ca_cert :: "tls_lib \<Rightarrow> byte list \<Rightarrow> int tls_m" where
  "set_root_ca_cert w root_ca =
     do {
       crt \<leftarrow> tls_new w (crt_size w) Crt;
       if crt = 0 then return NSAPI_ERROR_NO_MEMORY
       else do {
         tell (tl_env w) (TlsObject ''crt'');
         r \<leftarrow> call (tl_env w) (TlsCrtParse crt root_ca);
         if r \<noteq> 0 then do { tell (tl_env w) (TlsObjectFree ''crt''); tls_delete crt; return NSAPI_ERROR_PARAMETER }
         else do {
           set_ca_chain w crt;
           modify (\<lambda>s. s\<lparr>cacert_allocated := True\<rparr>);
           return NSAPI_ERROR_OK
         }
       }
     }"

definition set_client_cert_key :: "tls_lib \<Rightarrow> byte list \<Rightarrow> byte list \<Rightarrow> int tls_m" where
  "set_client_cert_key w client_cert client_private_key =
     do {
       crt \<leftarrow> tls_new w (crt_size w) Crt;
       if crt = 0 then return NSAPI_ERROR_NO_MEMORY
       else do {
         tell (tl_env w) (TlsObject ''crt'');
         r \<leftarrow> call (tl_env w) (TlsCrtParse crt client_cert);
         if r \<noteq> 0 then do { tell (tl_env w) (TlsObjectFree ''crt''); tls_delete crt; return NSAPI_ERROR_PARAMETER }
         else do {
           tell (tl_env w) (TlsObject ''pk'');
           r \<leftarrow> call (tl_env w) (TlsPkParse client_private_key);
           if r \<noteq> 0 then do { tell (tl_env w) (TlsObjectFree ''crt''); tls_delete crt; return NSAPI_ERROR_PARAMETER }
           else do {
             set_own_cert w crt;
             modify (\<lambda>s. s\<lparr>clicert_allocated := True\<rparr>);
             return NSAPI_ERROR_OK
           }
         }
       }
     }"

text \<open>The variants for a text: it is given with its \<open>NUL\<close>.\<close>

definition pem_bytes :: "byte list \<Rightarrow> byte list" where
  "pem_bytes pem = takeWhile (\<lambda>c. c \<noteq> 0) pem @ [0]"

definition set_root_ca_cert_pem :: "tls_lib \<Rightarrow> byte list \<Rightarrow> int tls_m" where
  "set_root_ca_cert_pem w root_ca_pem = set_root_ca_cert w (pem_bytes root_ca_pem)"

definition set_client_cert_key_pem :: "tls_lib \<Rightarrow> byte list \<Rightarrow> byte list \<Rightarrow> int tls_m" where
  "set_client_cert_key_pem w client_cert_pem client_private_key_pem =
     set_client_cert_key w (pem_bytes client_cert_pem) (pem_bytes client_private_key_pem)"

definition set_hostname :: "tls_lib \<Rightarrow> string \<Rightarrow> unit tls_m" where
  "set_hostname w h = tell (tl_env w) (TlsSetHostname h)"

section \<open>Life of the wrapper\<close>

datatype control_transport = TRANSPORT_KEEP | TRANSPORT_CONNECT_AND_CLOSE | TRANSPORT_CONNECT | TRANSPORT_CLOSE

text \<open>The constructor, on the state of the transport.\<close>

definition tls_start :: "isock \<Rightarrow> bool \<Rightarrow> control_transport \<Rightarrow> tls" where
  "tls_start s t control = isock.extend s
     \<lparr>transport = t, connect_transport = (control \<in> {TRANSPORT_CONNECT, TRANSPORT_CONNECT_AND_CLOSE}),
      close_transport = (control \<in> {TRANSPORT_CLOSE, TRANSPORT_CONNECT_AND_CLOSE}), tls_initialized = False,
      handshake_completed = False, cacert_allocated = False, clicert_allocated = False, ssl_conf_allocated = False,
      cacert = 0, clicert = 0, ssl_conf = 0, tls_heap = []\<rparr>"

definition tls_construct :: "tls_lib \<Rightarrow> string option \<Rightarrow> unit tls_m" where
  "tls_construct w hostname =
     do {
       tell (tl_env w) (TlsObject ''platform'');
       tell (tl_env w) (TlsObject ''entropy'');
       tell (tl_env w) (TlsObject ''drbg'');
       tell (tl_env w) (TlsObject ''ssl'');
       tell (tl_env w) (TlsObject ''pk'');
       (case hostname of None \<Rightarrow> return () | Some h \<Rightarrow> set_hostname w h)
     }"

definition tls_destroy :: "tls_lib \<Rightarrow> unit tls_m" where
  "tls_destroy w =
     do {
       t \<leftarrow> gets transport;
       do_if t
         (do {
            done \<leftarrow> gets handshake_completed;
            do_if done
              (do {
                 ns_set_blocking (tl_env w) True;
                 tell (tl_env w) TlsCloseNotify;
                 modify (\<lambda>s. s\<lparr>handshake_completed := False\<rparr>)
               });
            c \<leftarrow> gets close_transport;
            do_if c (do { _ \<leftarrow> ns_close (tl_env w); return () });
            modify (\<lambda>s. s\<lparr>transport := False\<rparr>)
          });
       tell (tl_env w) (TlsObjectFree ''entropy'');
       tell (tl_env w) (TlsObjectFree ''drbg'');
       tell (tl_env w) (TlsObjectFree ''ssl'');
       tell (tl_env w) (TlsObjectFree ''pk'');
       _ \<leftarrow> set_own_cert w 0;
       set_ca_chain w 0;
       set_ssl_config w 0;
       tell (tl_env w) (TlsObjectFree ''platform'')
     }"

section \<open>Handshake\<close>

definition continue_handshake :: "tls_lib \<Rightarrow> int tls_m" where
  "continue_handshake w =
     do {
       done \<leftarrow> gets handshake_completed;
       if done then return NSAPI_ERROR_IS_CONNECTED
       else do {
         ini \<leftarrow> gets tls_initialized;
         if \<not> ini then return NSAPI_ERROR_NO_CONNECTION
         else do {
           r \<leftarrow> call (tl_env w) TlsHandshake;
           if r < 0 then
             return (if r = MBEDTLS_ERR_SSL_WANT_READ \<or> r = MBEDTLS_ERR_SSL_WANT_WRITE then NSAPI_ERROR_ALREADY
               else NSAPI_ERROR_AUTH_FAILURE)
           else do {
             modify (\<lambda>s. s\<lparr>handshake_completed := True\<rparr>);
             return NSAPI_ERROR_IS_CONNECTED
           }
         }
       }
     }"

definition first_answer_code :: "bool \<Rightarrow> int \<Rightarrow> int" where
  "first_answer_code first_call r =
     (if \<not> first_call then r
      else if r = NSAPI_ERROR_ALREADY then NSAPI_ERROR_IN_PROGRESS
      else if r = NSAPI_ERROR_IS_CONNECTED then NSAPI_ERROR_OK
      else r)"

definition start_handshake :: "tls_lib \<Rightarrow> bool \<Rightarrow> int tls_m" where
  "start_handshake w first_call =
     do {
       t \<leftarrow> gets transport;
       if \<not> t then return NSAPI_ERROR_NO_SOCKET
       else do {
         ini \<leftarrow> gets tls_initialized;
         if ini then continue_handshake w
         else do {
           tell (tl_env w) (TlsObject ''drbg'');
           r \<leftarrow> call (tl_env w) TlsDrbgSeed;
           if r \<noteq> 0 then return NSAPI_ERROR_AUTH_FAILURE
           else do {
             conf \<leftarrow> get_ssl_config w;
             conf_call w conf (TlsConfRng conf);
             conf \<leftarrow> get_ssl_config w;
             r \<leftarrow> conf_call w conf (TlsSetup conf);
             if r \<noteq> 0 then return NSAPI_ERROR_AUTH_FAILURE
             else do {
               ns_set_blocking (tl_env w) False;
               tell (tl_env w) TlsSetBio;
               modify (\<lambda>s. s\<lparr>tls_initialized := True\<rparr>);
               r \<leftarrow> continue_handshake w;
               return (first_answer_code first_call r)
             }
           }
         }
       }
     }"

text \<open>What \<open>send\<close> and \<open>recv\<close> do before the transfer; \<open>None\<close>: go on.\<close>

definition ensure_connected :: "tls_lib \<Rightarrow> int option tls_m" where
  "ensure_connected w =
     do {
       done \<leftarrow> gets handshake_completed;
       if done then return None
       else do {
         r \<leftarrow> continue_handshake w;
         return
           (if r = NSAPI_ERROR_IS_CONNECTED then None
            else Some (if r = NSAPI_ERROR_ALREADY then NSAPI_ERROR_WOULD_BLOCK else r))
       }
     }"

definition tls_send :: "tls_lib \<Rightarrow> byte list \<Rightarrow> int tls_m" where
  "tls_send w data =
     do {
       t \<leftarrow> gets transport;
       if \<not> t then return NSAPI_ERROR_NO_SOCKET
       else do {
         ns_set_blocking (tl_env w) False;
         e \<leftarrow> ensure_connected w;
         case e of Some r \<Rightarrow> return r
         | None \<Rightarrow>
           do {
             r \<leftarrow> call (tl_env w) (TlsWrite data);
             return
               (if r = MBEDTLS_ERR_SSL_WANT_WRITE \<or> r = MBEDTLS_ERR_SSL_WANT_READ then NSAPI_ERROR_WOULD_BLOCK
                else if r < 0 then NSAPI_ERROR_DEVICE_ERROR
                else r)
           }
       }
     }"

definition tls_recv :: "tls_lib \<Rightarrow> nat \<Rightarrow> (int \<times> byte list) tls_m" where
  "tls_recv w sz =
     do {
       t \<leftarrow> gets transport;
       if \<not> t then return (NSAPI_ERROR_NO_SOCKET, [])
       else do {
         ns_set_blocking (tl_env w) False;
         e \<leftarrow> ensure_connected w;
         case e of Some r \<Rightarrow> return (r, [])
         | None \<Rightarrow>
           do {
             r \<leftarrow> extern (tl_env w) (TlsRead sz);
             return
               (if ret r = MBEDTLS_ERR_SSL_WANT_WRITE \<or> ret r = MBEDTLS_ERR_SSL_WANT_READ then NSAPI_ERROR_WOULD_BLOCK
                else if ret r = MBEDTLS_ERR_SSL_PEER_CLOSE_NOTIFY then 0
                else if ret r < 0 then NSAPI_ERROR_DEVICE_ERROR
                else ret r, payload r)
           }
       }
     }"

definition tls_getpeername :: "tls_lib \<Rightarrow> socket_address option \<Rightarrow> (int \<times> socket_address option) tls_m" where
  "tls_getpeername w address =
     do {
       done \<leftarrow> gets handshake_completed;
       if \<not> done then return (NSAPI_ERROR_NO_CONNECTION, address)
       else do { t \<leftarrow> gets transport; do_if (\<not> t) crash; ns_getpeername (tl_env w) address }
     }"

definition tls_recvfrom ::
  "tls_lib \<Rightarrow> socket_address option \<Rightarrow> nat \<Rightarrow> (int \<times> byte list \<times> socket_address option) tls_m" where
  "tls_recvfrom w address sz =
     do {
       address \<leftarrow> (if address = None then return None
         else do { (_, a) \<leftarrow> tls_getpeername w address; return a });
       (r, data) \<leftarrow> tls_recv w sz;
       return (r, data, address)
     }"

section \<open>The BIO functions\<close>

definition ssl_recv :: "tls_lib \<Rightarrow> nat \<Rightarrow> (int \<times> byte list) tls_m" where
  "ssl_recv w len =
     do {
       t \<leftarrow> gets transport;
       if \<not> t then return (NSAPI_ERROR_NO_SOCKET, [])
       else do {
         (r, data) \<leftarrow> tcp_recv (tl_env w) len;
         return (if r = NSAPI_ERROR_WOULD_BLOCK then MBEDTLS_ERR_SSL_WANT_READ else r, data)
       }
     }"

definition ssl_send :: "tls_lib \<Rightarrow> nat \<Rightarrow> byte list \<Rightarrow> u32 \<Rightarrow> int option tls_m" where
  "ssl_send w fuel buf len =
     do {
       t \<leftarrow> gets transport;
       if \<not> t then return (Some NSAPI_ERROR_NO_SOCKET)
       else do {
         r \<leftarrow> tcp_send (tl_env w) fuel buf len;
         return (if r = Some NSAPI_ERROR_WOULD_BLOCK then Some MBEDTLS_ERR_SSL_WANT_WRITE else r)
       }
     }"

section \<open>Operations of a socket\<close>

definition tls_close :: "tls_lib \<Rightarrow> int tls_m" where
  "tls_close w =
     do {
       t \<leftarrow> gets transport;
       if \<not> t then return NSAPI_ERROR_NO_SOCKET
       else do {
         done \<leftarrow> gets handshake_completed;
         r \<leftarrow>
           (if done then do {
              ns_set_blocking (tl_env w) True;
              r \<leftarrow> call (tl_env w) TlsCloseNotify;
              modify (\<lambda>s. s\<lparr>handshake_completed := False\<rparr>);
              return r
            }
            else return 0);
         c \<leftarrow> gets close_transport;
         r \<leftarrow> (if c then do { r2 \<leftarrow> ns_close (tl_env w); return (if r = 0 then r2 else r) } else return r);
         modify (\<lambda>s. s\<lparr>transport := False\<rparr>);
         return r
       }
     }"

definition tls_connect :: "tls_lib \<Rightarrow> socket_address \<Rightarrow> int tls_m" where
  "tls_connect w a =
     do {
       t \<leftarrow> gets transport;
       if \<not> t then return NSAPI_ERROR_NO_SOCKET
       else do {
         ini \<leftarrow> gets tls_initialized;
         c \<leftarrow> gets connect_transport;
         r \<leftarrow> (if \<not> ini \<and> c then tcp_connect (tl_env w) a else return NSAPI_ERROR_OK);
         if r \<noteq> 0 \<and> r \<noteq> NSAPI_ERROR_IS_CONNECTED then return r
         else start_handshake w (r = NSAPI_ERROR_OK)
       }
     }"

definition tls_bind :: "tls_lib \<Rightarrow> nat \<Rightarrow> byte list \<Rightarrow> socket_address \<Rightarrow> int tls_m" where
  "tls_bind w psz raw a =
     do { t \<leftarrow> gets transport; if \<not> t then return NSAPI_ERROR_NO_SOCKET else ns_bind (tl_env w) psz raw a }"

text \<open>The transport is used here without a test.\<close>

definition tls_set_timeout :: "tls_lib \<Rightarrow> int \<Rightarrow> unit tls_m" where
  "tls_set_timeout w timeout =
     do {
       ini \<leftarrow> gets tls_initialized;
       c \<leftarrow> gets connect_transport;
       do_if (\<not> ini \<and> timeout \<noteq> - 1 \<and> c)
         (do { t \<leftarrow> gets transport; do_if (\<not> t) crash; ns_set_timeout (tl_env w) timeout })
     }"

definition tls_set_blocking :: "tls_lib \<Rightarrow> bool \<Rightarrow> unit tls_m" where
  "tls_set_blocking w blocking = tls_set_timeout w (if blocking then - 1 else 0)"

definition tls_setsockopt :: "tls_lib \<Rightarrow> byte list option \<Rightarrow> int tls_m" where
  "tls_setsockopt w opt =
     do { t \<leftarrow> gets transport; if \<not> t then return NSAPI_ERROR_NO_SOCKET else ns_setsockopt (tl_env w) opt }"

definition tls_getsockopt :: "tls_lib \<Rightarrow> bool \<Rightarrow> (int \<times> byte list) tls_m" where
  "tls_getsockopt w keepalive =
     do { t \<leftarrow> gets transport; if \<not> t then return (NSAPI_ERROR_NO_SOCKET, []) else ns_getsockopt (tl_env w) keepalive }"

text \<open>The operations an application calls on a wrapper, and those Mbed TLS calls back.\<close>

datatype tls_op =
    SetHostname string | SetRootCaCert "byte list" | SetClientCertKey "byte list" "byte list"
  | SetOwnCert nat | SetCaChain nat | SetSslConfig nat | GetSslConfig
  | TlsConnectOp socket_address | TlsSend "byte list" | TlsRecv nat | TlsRecvFrom "socket_address option" nat
  | TlsCloseOp | TlsBind nat "byte list" socket_address | TlsSetTimeout int | TlsSetSockOpt "byte list option"
  | TlsGetSockOpt bool | TlsGetPeerName "socket_address option" | BioRecv nat | BioSend nat "byte list" u32

fun tls_run :: "tls_lib \<Rightarrow> tls_op \<Rightarrow> unit tls_m" where
  "tls_run w (SetHostname h) = set_hostname w h"
| "tls_run w (SetRootCaCert c) = do { _ \<leftarrow> set_root_ca_cert w c; return () }"
| "tls_run w (SetClientCertKey c k) = do { _ \<leftarrow> set_client_cert_key w c k; return () }"
| "tls_run w (SetOwnCert p) = do { _ \<leftarrow> set_own_cert w p; return () }"
| "tls_run w (SetCaChain p) = set_ca_chain w p"
| "tls_run w (SetSslConfig p) = set_ssl_config w p"
| "tls_run w GetSslConfig = do { _ \<leftarrow> get_ssl_config w; return () }"
| "tls_run w (TlsConnectOp a) = do { _ \<leftarrow> tls_connect w a; return () }"
| "tls_run w (TlsSend d) = do { _ \<leftarrow> tls_send w d; return () }"
| "tls_run w (TlsRecv n) = do { _ \<leftarrow> tls_recv w n; return () }"
| "tls_run w (TlsRecvFrom a n) = do { _ \<leftarrow> tls_recvfrom w a n; return () }"
| "tls_run w TlsCloseOp = do { _ \<leftarrow> tls_close w; return () }"
| "tls_run w (TlsBind psz raw a) = do { _ \<leftarrow> tls_bind w psz raw a; return () }"
| "tls_run w (TlsSetTimeout t) = tls_set_timeout w t"
| "tls_run w (TlsSetSockOpt v) = do { _ \<leftarrow> tls_setsockopt w v; return () }"
| "tls_run w (TlsGetSockOpt k) = do { _ \<leftarrow> tls_getsockopt w k; return () }"
| "tls_run w (TlsGetPeerName a) = do { _ \<leftarrow> tls_getpeername w a; return () }"
| "tls_run w (BioRecv n) = do { _ \<leftarrow> ssl_recv w n; return () }"
| "tls_run w (BioSend fuel d n) = do { _ \<leftarrow> ssl_send w fuel d n; return () }"

fun tls_runs :: "tls_lib \<Rightarrow> tls_op list \<Rightarrow> unit tls_m" where
  "tls_runs w [] = return ()"
| "tls_runs w (x # xs) = do { tls_run w x; tls_runs w xs }"

end
