(* ===== verification/Tls_Spec.thy ===== *)
theory Tls_Spec
  imports Tls_Socket
begin

text \<open>
  What the TLS wrapper guarantees, over any sequence of its operations and any answers of Mbed TLS and of the
  transport: data only after a handshake, and no block of memory lost.
\<close>

section \<open>Data only after the handshake\<close>

text \<open>Whether the last handshake call succeeded and no close was notified since.\<close>

fun secured :: "(ns_call \<times> reply) list \<Rightarrow> bool" where
  "secured [] = False"
| "secured ((TlsHandshake, r) # h) = (0 \<le> ret r)"
| "secured ((TlsCloseNotify, r) # h) = False"
| "secured (c # h) = secured h"

text \<open>Whether every transfer of data, and every notification, took place in a secured state.\<close>

fun data_secured :: "(ns_call \<times> reply) list \<Rightarrow> bool" where
  "data_secured [] = True"
| "data_secured ((TlsWrite d, r) # h) = (secured h \<and> data_secured h)"
| "data_secured ((TlsRead n, r) # h) = (secured h \<and> data_secured h)"
| "data_secured ((TlsCloseNotify, r) # h) = (secured h \<and> data_secured h)"
| "data_secured (c # h) = data_secured h"

definition tls_ok :: "tls \<Rightarrow> bool" where
  "tls_ok s \<longleftrightarrow> data_secured (history s) \<and> (handshake_completed s \<longrightarrow> secured (history s) \<and> transport s)"

fun plain :: "ns_call \<Rightarrow> bool" where
  "plain TlsHandshake = False"
| "plain TlsCloseNotify = False"
| "plain (TlsWrite d) = False"
| "plain (TlsRead n) = False"
| "plain c = True"

lemma plain_call [simp]:
  "plain c \<Longrightarrow> secured ((c, r) # h) = secured h" "plain c \<Longrightarrow> data_secured ((c, r) # h) = data_secured h"
  by (cases c; simp)+

text \<open>An assertion that plain calls and the fields of the configuration do not touch.\<close>

locale config_invariant = socket_invariant "tl_env w" P for w :: tls_lib and P :: "tls \<Rightarrow> bool" +
  assumes plain_calls: "plain c \<Longrightarrow> P s \<Longrightarrow> P (s\<lparr>history := (c, r) # history s\<rparr>)"
    and configuration: "P s \<Longrightarrow> P (s\<lparr>ssl_conf := n\<rparr>)" "P s \<Longrightarrow> P (s\<lparr>ssl_conf_allocated := b\<rparr>)"
      "P s \<Longrightarrow> P (s\<lparr>cacert := n\<rparr>)" "P s \<Longrightarrow> P (s\<lparr>cacert_allocated := b\<rparr>)"
      "P s \<Longrightarrow> P (s\<lparr>clicert := n\<rparr>)" "P s \<Longrightarrow> P (s\<lparr>clicert_allocated := b\<rparr>)"
      "P s \<Longrightarrow> P (s\<lparr>tls_heap := h\<rparr>)" "P s \<Longrightarrow> P (s\<lparr>tls_initialized := b\<rparr>)"
    and closing: "P s \<Longrightarrow> P (s\<lparr>socket_id := i\<rparr>)" "P s \<Longrightarrow> P (s\<lparr>factory_allocated := b\<rparr>)"
      "P s \<Longrightarrow> P (s\<lparr>deleted := b\<rparr>)"
begin

lemma close: "keeps P (ns_close (tl_env w))"
  unfolding ns_close_def close_socket_def by (intro keeps locking; simp add: plain_calls closing opened family)

lemma heap_parts:
  "keeps P (tls_new w n b)" "keeps P (tls_delete p)" "plain c \<Longrightarrow> keeps P (conf_call w k c)"
  unfolding tls_new_def tls_delete_def conf_call_def by (intro keeps; simp add: plain_calls faults configuration)+

lemma config: "keeps P (set_ssl_config w c)" "keeps P (get_ssl_config w)"
proof -
  show s: "keeps P (set_ssl_config w c)" for c
    unfolding set_ssl_config_def by (intro keeps heap_parts; simp add: plain_calls configuration)
  show "keeps P (get_ssl_config w)"
    unfolding get_ssl_config_def by (intro keeps heap_parts s; simp add: plain_calls configuration)
qed

lemma certs:
  "keeps P (set_own_cert w c)" "keeps P (set_ca_chain w c)" "keeps P (set_root_ca_cert w d)"
  "keeps P (set_client_cert_key w d e)" "keeps P (set_hostname w n)"
proof -
  show own: "keeps P (set_own_cert w c)" and ca: "keeps P (set_ca_chain w c)" for c
    unfolding set_own_cert_def set_ca_chain_def by (intro keeps heap_parts config; simp add: plain_calls configuration)+
  show "keeps P (set_root_ca_cert w d)" "keeps P (set_client_cert_key w d e)" "keeps P (set_hostname w n)"
    unfolding set_root_ca_cert_def set_client_cert_key_def set_hostname_def
    by (intro keeps heap_parts own ca; simp add: plain_calls configuration)+
qed

lemmas tls_rules = keeps heap_parts config certs close general blocking tcp

lemma handshake:
  assumes "keeps P (continue_handshake w)"
  shows "keeps P (start_handshake w f)"
  unfolding start_handshake_def by (intro tls_rules assms; simp add: plain_calls configuration)

end

lemma socket_call_plain [simp]: "socket_call c \<Longrightarrow> plain c"
  by (cases c) simp_all

text \<open>The invariant, and the invariant while there is a transport.\<close>

definition tls_up :: "tls \<Rightarrow> bool" where
  "tls_up s \<longleftrightarrow> tls_ok s \<and> transport s"

lemma tls_ok_verify: "keeps tls_ok (verify_socket_type env v)" "keeps tls_up (verify_socket_type env v)"
  unfolding verify_socket_type_def ns_lock_def ns_unlock_def
  by (intro keeps; simp add: tls_ok_def tls_up_def)+

interpretation handshaken: config_invariant w tls_ok for w
  by unfold_locales (simp_all add: tls_ok_verify, simp_all add: tls_ok_def)

interpretation up: config_invariant w tls_up for w
  by unfold_locales (simp_all add: tls_ok_verify, simp_all add: tls_ok_def tls_up_def)

lemma continue_up: "keeps tls_up (continue_handshake w)"
  by (simp add: keeps_def continue_handshake_def wp tls_ok_def tls_up_def)

text \<open>\<open>None\<close> only after a handshake.\<close>

lemma ensure_connected_up:
  "tls_up s \<Longrightarrow> wp (ensure_connected w) (\<lambda>e t. tls_up t \<and> (e = None \<longrightarrow> handshake_completed t)) s"
  by (simp add: ensure_connected_def continue_handshake_def wp tls_ok_def tls_up_def)

lemma tls_up_ok: "tls_up s \<Longrightarrow> tls_ok s"
  by (simp add: tls_up_def)

lemma wp_up: "keeps tls_up m \<Longrightarrow> tls_ok s \<Longrightarrow> transport s \<Longrightarrow> wp m (\<lambda>_. tls_ok) s"
  by (auto simp: keeps_def tls_up_def elim!: wp_mono)

lemma tls_ok_send: "keeps tls_ok (tls_send w d)" "keeps tls_ok (tls_recv w n)"
proof -
  have go: "wp (do { ns_set_blocking (tl_env w) False; e \<leftarrow> ensure_connected w; f e }) (\<lambda>_. tls_ok) s"
    if "tls_up s" and "\<And>e t. tls_up t \<Longrightarrow> (e = None \<longrightarrow> handshake_completed t) \<Longrightarrow> wp (f e) (\<lambda>_. tls_ok) t"
    for f :: "int option \<Rightarrow> 'b tls_m" and s
    by (rule wp_seq [OF up.blocking that(1)], unfold wp_bind, rule wp_mono [OF ensure_connected_up])
      (auto intro: that(2))
  show "keeps tls_ok (tls_send w d)" "keeps tls_ok (tls_recv w n)"
    by (auto simp: keeps_def tls_send_def tls_recv_def tls_up_def wp_gets wp_return wp_bind [of "gets _"] tls_ok_def
      intro!: go split: option.split) (simp_all add: wp tls_ok_def)
qed


lemma tls_ok_passes:
  "keeps tls_ok (tls_getpeername w a)" "keeps tls_ok (tls_bind w psz raw sa)" "keeps tls_ok (tls_set_timeout w i)"
  "keeps tls_ok (tls_setsockopt w opt)" "keeps tls_ok (tls_getsockopt w k)"
  unfolding tls_getpeername_def tls_bind_def tls_set_timeout_def tls_setsockopt_def tls_getsockopt_def
  by (intro handshaken.tls_rules; simp add: handshaken.faults)+

lemma tls_ok_recvfrom: "keeps tls_ok (tls_recvfrom w a n)"
  unfolding tls_recvfrom_def by (intro keeps tls_ok_passes tls_ok_send)

text \<open>The close notification is sent while the handshake holds, and the flags are reset after it.\<close>

definition tls_notified :: "tls \<Rightarrow> bool" where
  "tls_notified s \<longleftrightarrow> data_secured (history s) \<and> \<not> handshake_completed s"

lemma notified_ok: "tls_notified s \<Longrightarrow> tls_ok s" "tls_notified s \<Longrightarrow> tls_ok (s\<lparr>transport := b\<rparr>)"
  by (simp_all add: tls_notified_def tls_ok_def)

lemma tls_notified_verify: "keeps tls_notified (verify_socket_type env v)"
  unfolding verify_socket_type_def ns_lock_def ns_unlock_def by (intro keeps; simp add: tls_notified_def)

interpretation notified: config_invariant w tls_notified for w
  by unfold_locales (simp_all add: tls_notified_verify, simp_all add: tls_notified_def)

lemma handshaken_secured: "tls_ok s \<Longrightarrow> handshake_completed s \<Longrightarrow> data_secured (history s) \<and> secured (history s)"
  by (simp add: tls_ok_def)

definition still_handshaken :: "tls \<Rightarrow> bool" where
  "still_handshaken s \<longleftrightarrow> tls_ok s \<and> handshake_completed s"

lemma still_handshaken_verify: "keeps still_handshaken (verify_socket_type env v)"
  unfolding verify_socket_type_def ns_lock_def ns_unlock_def by (intro keeps; simp add: still_handshaken_def tls_ok_def)

interpretation still: config_invariant w still_handshaken for w
  by unfold_locales (simp_all add: still_handshaken_verify, simp_all add: still_handshaken_def tls_ok_def)

lemma tls_ok_close: "keeps tls_ok (tls_close w)"
proof (rule keepsI)
  fix s :: tls
  assume s: "tls_ok s"
  have rest: "wp (do {
         c \<leftarrow> gets close_transport;
         r \<leftarrow> (if c then do { r2 \<leftarrow> ns_close (tl_env w); return (if r = 0 then r2 else r) } else return r);
         modify (\<lambda>s. s\<lparr>transport := False\<rparr>);
         return r
       }) (\<lambda>_. tls_ok) t" if "tls_notified t" for r t
    using that by (auto simp: wp notified_ok elim!: notified_ok(2) wp_mono [OF keepsD [OF notified.close]])
  have notify: "wp (call (tl_env w) TlsCloseNotify \<bind> (\<lambda>r. modify (\<lambda>s. s\<lparr>handshake_completed := False\<rparr>) \<bind> (\<lambda>_. return r)))
      (\<lambda>_. tls_notified) t" if "still_handshaken t" for t
    using that by (simp add: wp tls_notified_def still_handshaken_def tls_ok_def)
  have first: "wp (if handshake_completed s then do {
              ns_set_blocking (tl_env w) True;
              r \<leftarrow> call (tl_env w) TlsCloseNotify;
              modify (\<lambda>s. s\<lparr>handshake_completed := False\<rparr>);
              return r
            }
            else return 0) (\<lambda>_. tls_notified) s"
    using s unfolding wp_if wp_return
    by (auto intro!: wp_seq [OF still.blocking] notify simp: still_handshaken_def)
      (simp add: tls_notified_def tls_ok_def)
  note both = wp_mono [OF first rest]
  show "wp (tls_close w) (\<lambda>_. tls_ok) s"
    unfolding tls_close_def wp_gets wp_bind [of "gets transport"] wp_bind [of "gets handshake_completed"]
      wp_if [of "\<not> transport s"] wp_return wp_bind [of "if handshake_completed s then A else B" for A B]
    by (cases "transport s") (use s both in \<open>simp_all only: not_True_eq_False not_False_eq_True if_True if_False\<close>)
qed

lemma tls_ok_connect: "keeps tls_ok (tls_connect w a)"
proof -
  have "keeps tls_up
    (do {
         ini \<leftarrow> gets tls_initialized;
         c \<leftarrow> gets connect_transport;
         r \<leftarrow> (if \<not> ini \<and> c then tcp_connect (tl_env w) a else return NSAPI_ERROR_OK);
         if r \<noteq> 0 \<and> r \<noteq> NSAPI_ERROR_IS_CONNECTED then return r
         else start_handshake w (r = NSAPI_ERROR_OK)
       })"
    by (intro keeps up.tcp up.handshake continue_up)
  from wp_up [OF this] show ?thesis
    by (simp add: keeps_def tls_connect_def wp_gets wp_return wp_bind [of "gets transport"])
qed

lemma tls_ok_bio: "keeps tls_ok (ssl_recv w n)" "keeps tls_ok (ssl_send w fuel d k)"
  unfolding ssl_recv_def ssl_send_def by (intro handshaken.tls_rules)+

lemma tls_ok_run: "keeps tls_ok (tls_run w x)"
  by (cases x) (simp_all add: tls_ok_bio keeps handshaken.config handshaken.certs tls_ok_passes tls_ok_recvfrom tls_ok_send
    tls_ok_close tls_ok_connect)

lemma tls_ok_runs: "keeps tls_ok (tls_runs w xs)"
  by (induction xs) (simp_all add: keeps tls_ok_run)

lemma tls_ok_start: "history s = [] \<Longrightarrow> tls_ok (tls_start s t c)"
  by (simp add: tls_ok_def tls_start_def isock.defs)

text \<open>
  C24. Whatever the transport and Mbed TLS answer and in whatever order the application calls the wrapper:
  no byte is passed to or taken from the TLS layer, and no close notification is sent, unless the last handshake
  call has succeeded and no close was notified since.
\<close>

theorem tls_data_after_handshake:
  assumes "history s = []"
  shows "wp (do { tls_construct w hostname; tls_runs w ops }) (\<lambda>_ t. data_secured (history t)) (tls_start s tr control)"
proof -
  have "keeps tls_ok (tls_construct w hostname)"
    unfolding tls_construct_def by (intro keeps handshaken.certs; simp add: handshaken.plain_calls)
  then have "keeps tls_ok (do { tls_construct w hostname; tls_runs w ops })"
    by (intro keeps tls_ok_runs)
  then show ?thesis
    by (rule wp_mono [OF keepsD]) (simp_all add: tls_ok_start assms, simp add: tls_ok_def)
qed

section \<open>Blocks owned by the wrapper\<close>

definition contents :: "'o heap \<Rightarrow> (nat \<times> 'o) multiset" where
  "contents h = mset (map (\<lambda>(a, n, x). (a, x)) h)"

lemma contents_simps [simp]: "contents [] = {#}" "contents ((a, n, x) # h) = add_mset (a, x) (contents h)"
  by (simp_all add: contents_def)

lemma contents_get: "(a, x) \<in># contents h \<Longrightarrow> h_get h a \<noteq> None"
  by (induction h) auto

lemma contents_free:
  "heap_ok h \<Longrightarrow> (a, x) \<in># contents h \<Longrightarrow> add_mset (a, x) (contents (h_free h a)) = contents h"
proof (induction h)
  case (Cons b h)
  obtain c n y where b: "b = (c, n, y)" by (cases b)
  have "h_get h c = None" using Cons.prems(1) h_fits_fresh [of h c n] by (simp add: b)
  then show ?case
    using Cons contents_get [of a x h] h_free_fresh [of h c] by (auto simp: b h_free_Cons)
qed simp

text \<open>
  The live blocks are those the flags say the wrapper owns, with some loose ones \<open>L\<close> while an operation is under
  way.
\<close>

definition owned_ca :: "tls \<Rightarrow> (nat \<times> tls_block) multiset" where
  "owned_ca s = (if cacert_allocated s then {#(cacert s, Crt)#} else {#})"

definition owned_cli :: "tls \<Rightarrow> (nat \<times> tls_block) multiset" where
  "owned_cli s = (if clicert_allocated s then {#(clicert s, Crt)#} else {#})"

definition owned_conf :: "tls \<Rightarrow> (nat \<times> tls_block) multiset" where
  "owned_conf s = (if ssl_conf_allocated s then {#(ssl_conf s, SslConfig)#} else {#})"

lemmas owned_defs = owned_ca_def owned_cli_def owned_conf_def

definition tls_mem :: "(nat \<times> tls_block) multiset \<Rightarrow> tls \<Rightarrow> bool" where
  "tls_mem L s \<longleftrightarrow> heap_ok (tls_heap s) \<and> contents (tls_heap s) = L + owned_ca s + owned_cli s + owned_conf s"

lemma tls_mem_fields [simp]:
  "tls_mem L (s\<lparr>history := h\<rparr>) = tls_mem L s"
  "tls_mem L (s\<lparr>fault := b\<rparr>) = tls_mem L s" "tls_mem L (s\<lparr>socket_opened := b\<rparr>) = tls_mem L s" "tls_mem L (s\<lparr>af_type := i\<rparr>) = tls_mem L s"
  "tls_mem L (s\<lparr>ns_timeout := v\<rparr>) = tls_mem L s" "tls_mem L (s\<lparr>udp_peer := a\<rparr>) = tls_mem L s" "tls_mem L (s\<lparr>socket_id := i\<rparr>) = tls_mem L s"
  "tls_mem L (s\<lparr>factory_allocated := b\<rparr>) = tls_mem L s" "tls_mem L (s\<lparr>deleted := b\<rparr>) = tls_mem L s"
  "tls_mem L (s\<lparr>tls_initialized := b\<rparr>) = tls_mem L s" "tls_mem L (s\<lparr>handshake_completed := b\<rparr>) = tls_mem L s"
  "tls_mem L (s\<lparr>transport := b\<rparr>) = tls_mem L s"
  by (simp_all add: tls_mem_def owned_defs)

lemma tls_mem_verify: "keeps (tls_mem L) (verify_socket_type env v)"
  unfolding verify_socket_type_def ns_lock_def ns_unlock_def by (intro keeps; simp)

interpretation mem: socket_invariant env "tls_mem L" for env L
  by unfold_locales (simp_all add: tls_mem_verify)

lemma mem_close: "keeps (tls_mem L) (ns_close env)"
  unfolding ns_close_def close_socket_def by (intro keeps mem.locking; simp)

text \<open>A block of the wrapper is live, and not at the null pointer.\<close>

lemma mem_block:
  assumes "tls_mem L s" and "x \<in># L + owned_ca s + owned_cli s + owned_conf s"
  shows "h_get (tls_heap s) (fst x) \<noteq> None" and "fst x \<noteq> 0"
    and "add_mset x (contents (h_free (tls_heap s) (fst x))) = L + owned_ca s + owned_cli s + owned_conf s"
proof -
  have x: "(fst x, snd x) \<in># contents (tls_heap s)" using assms by (simp add: tls_mem_def)
  have ok: "heap_ok (tls_heap s)" using assms(1) by (simp add: tls_mem_def)
  show live: "h_get (tls_heap s) (fst x) \<noteq> None" by (rule contents_get [OF x])
  show "fst x \<noteq> 0"
  proof
    assume "fst x = 0"
    then show False using live ok by simp
  qed
  show "add_mset x (contents (h_free (tls_heap s) (fst x))) = L + owned_ca s + owned_cli s + owned_conf s"
    using contents_free [OF ok x] assms(1) by (simp add: tls_mem_def)
qed

lemma mem_new:
  "tls_mem L s \<Longrightarrow> wp (tls_new w n b) (\<lambda>p. if p = 0 then tls_mem L else tls_mem (add_mset (p, b) L)) s"
  using h_fits_fresh [of "tls_heap s"]
  by (auto simp: tls_new_def wp Let_def h_alloc_def tls_mem_def owned_defs)

lemma mem_delete:
  assumes "tls_mem (add_mset (p, b) L) s"
  shows "wp (tls_delete p) (\<lambda>_ t. t = s\<lparr>tls_heap := tls_heap t\<rparr> \<and> tls_mem L t) s"
  using mem_block [OF assms, of "(p, b)"] assms
  by (auto simp add: tls_delete_def wp tls_mem_def owned_defs heap_ok_free)

text \<open>An owned block becomes loose when its flag is reset, and a loose one owned when it is set.\<close>

lemma mem_loose:
  "ssl_conf_allocated s \<Longrightarrow> tls_mem (add_mset (ssl_conf s, SslConfig) L) (s\<lparr>ssl_conf_allocated := False, ssl_conf := c\<rparr>) = tls_mem L s"
  "cacert_allocated s \<Longrightarrow> tls_mem (add_mset (cacert s, Crt) L) (s\<lparr>cacert_allocated := False, cacert := c\<rparr>) = tls_mem L s"
  "clicert_allocated s \<Longrightarrow> tls_mem (add_mset (clicert s, Crt) L) (s\<lparr>clicert_allocated := False, clicert := c\<rparr>) = tls_mem L s"
  by (simp_all add: tls_mem_def owned_defs)

lemma mem_unowned:
  "\<not> ssl_conf_allocated s \<Longrightarrow> tls_mem L (s\<lparr>ssl_conf := c\<rparr>) = tls_mem L s"
  "\<not> cacert_allocated s \<Longrightarrow> tls_mem L (s\<lparr>cacert := c\<rparr>) = tls_mem L s"
  "\<not> clicert_allocated s \<Longrightarrow> tls_mem L (s\<lparr>clicert := c\<rparr>) = tls_mem L s"
  by (simp_all add: tls_mem_def owned_defs)

lemma mem_set_config:
  assumes "tls_mem L s"
  shows "wp (set_ssl_config w c) (\<lambda>_ t. tls_mem L t \<and> ssl_conf t = c \<and> \<not> ssl_conf_allocated t) s"
proof (cases "ssl_conf_allocated s")
  case True
  then show ?thesis
    using mem_block [OF assms, of "(ssl_conf s, SslConfig)"] assms
    by (simp add: set_ssl_config_def tls_delete_def wp tls_mem_def owned_defs heap_ok_free)
next
  case False
  then show ?thesis using assms by (simp add: set_ssl_config_def wp mem_unowned)
qed


lemma mem_get_config: "keeps (tls_mem L) (get_ssl_config w)"
proof (rule keepsI)
  fix s
  assume s: "tls_mem L s"
  show "wp (get_ssl_config w) (\<lambda>_. tls_mem L) s"
  proof (cases "ssl_conf s = 0")
    case True
    then have own: "\<not> ssl_conf_allocated s"
      using mem_block(2) [OF s, of "(ssl_conf s, SslConfig)"] by (auto simp: owned_defs)
    have fill: "wp (do {
           modify (\<lambda>s. s\<lparr>ssl_conf := p\<rparr>);
           if p = 0 then return 0
           else do {
             tell (tl_env w) (TlsObject ''config'');
             modify (\<lambda>s. s\<lparr>ssl_conf_allocated := True\<rparr>);
             r \<leftarrow> call (tl_env w) (TlsConfigDefaults p);
             if r \<noteq> 0 then do { set_ssl_config w 0; return 0 }
             else do { tell (tl_env w) (TlsConfAuthmode p); gets ssl_conf }
           }
         }) (\<lambda>_. tls_mem L) t"
      if "\<not> ssl_conf_allocated t \<and> (if p = 0 then tls_mem L t else tls_mem (add_mset (p, SslConfig) L) t)" for p t
    proof (cases "p = 0")
      case True
      then show ?thesis using that by (simp add: wp mem_unowned)
    next
      case False
      have "tls_mem L (t\<lparr>ssl_conf := p, ssl_conf_allocated := True\<rparr>)"
        using that False by (simp add: tls_mem_def owned_defs)
      then have m: "tls_mem L (t\<lparr>ssl_conf := p, ssl_conf_allocated := True\<rparr>)"
          "tls_mem L (t\<lparr>ssl_conf := p, ssl_conf_allocated := True, history := h\<rparr>)" for h
        by simp_all
      show ?thesis
        using False by (auto simp: wp m(1) intro!: wp_mono [OF mem_set_config [OF m(2)]])
    qed
    have "wp (tls_new w (conf_size w) SslConfig)
      (\<lambda>p t. \<not> ssl_conf_allocated t \<and> (if p = 0 then tls_mem L t else tls_mem (add_mset (p, SslConfig) L) t)) s"
      using mem_new [OF s, of w "conf_size w" SslConfig] own
      by (simp add: tls_new_def wp Let_def split: prod.splits if_splits)
    from wp_mono [OF this fill] show ?thesis
      using True by (simp add: get_ssl_config_def wp_bind [of "tls_new _ _ _"] wp_bind [of "gets _"] wp_gets)
  next
    case False
    then show ?thesis using s by (simp add: get_ssl_config_def wp)
  qed
qed

lemma mem_conf_call: "keeps (tls_mem L) (conf_call w k c)"
  unfolding conf_call_def by (intro keeps; simp)

text \<open>Which certificates the wrapper has, and whether they are its own.\<close>

definition ca_is :: "nat \<Rightarrow> bool \<Rightarrow> tls \<Rightarrow> bool" where
  "ca_is p b s \<longleftrightarrow> cacert s = p \<and> cacert_allocated s = b"

definition cli_is :: "nat \<Rightarrow> bool \<Rightarrow> tls \<Rightarrow> bool" where
  "cli_is p b s \<longleftrightarrow> clicert s = p \<and> clicert_allocated s = b"

lemma cert_set:
  "ca_is c False (s\<lparr>cacert_allocated := False, cacert := c\<rparr>)" "cli_is c False (s\<lparr>clicert_allocated := False, clicert := c\<rparr>)"
  "\<not> cacert_allocated s \<Longrightarrow> ca_is c False (s\<lparr>cacert := c\<rparr>)" "\<not> clicert_allocated s \<Longrightarrow> cli_is c False (s\<lparr>clicert := c\<rparr>)"
  by (simp_all add: ca_is_def cli_is_def)

lemma certs_stay:
  "keeps (ca_is p b) (get_ssl_config w)" "keeps (cli_is p b) (get_ssl_config w)"
  "keeps (ca_is p b) (conf_call w k c)" "keeps (cli_is p b) (conf_call w k c)"
  "keeps (ca_is p b) (set_ssl_config w n)" "keeps (cli_is p b) (set_ssl_config w n)" "keeps (cli_is p b) (set_ca_chain w n)"
  unfolding get_ssl_config_def set_ca_chain_def set_ssl_config_def tls_new_def tls_delete_def conf_call_def
  by (intro keeps; simp add: ca_is_def cli_is_def)+

lemma keeps_both: "keeps P m \<Longrightarrow> keeps Q m \<Longrightarrow> keeps (\<lambda>s. P s \<and> Q s) m"
  by (auto simp: keeps_def intro: wp_conj)

lemma mem_set_ca:
  assumes "tls_mem L s"
  shows "wp (set_ca_chain w c) (\<lambda>_ t. tls_mem L t \<and> ca_is c False t) s"
proof -
  have rest: "keeps (\<lambda>t. tls_mem L t \<and> ca_is c False t)
      (do { conf \<leftarrow> get_ssl_config w; conf_call w conf (TlsConfCaChain conf c); return () })"
    by (intro keeps keeps_both mem_get_config certs_stay mem_conf_call)
  note go = keepsD [OF rest]
  show ?thesis
  proof (cases "cacert_allocated s")
    case True
    have "tls_mem L (s\<lparr>history := h, tls_heap := h_free (tls_heap s) (cacert s), cacert_allocated := False, cacert := c\<rparr>)" for h
      using mem_block [OF assms, of "(cacert s, Crt)"] assms True
      by (simp add: tls_mem_def owned_defs heap_ok_free)
    then show ?thesis
      using mem_block [OF assms, of "(cacert s, Crt)"] True
      by (simp add: set_ca_chain_def tls_delete_def wp_bind [of "gets _"] wp_bind [of "modify _"] wp_bind [of "do_if _ _"] wp_gets wp_modify
        wp_do_if wp_tell wp_return wp_bind [of "tell _ _"] owned_defs go cert_set del: not_None_eq)
  next
    case False
    then show ?thesis
      using assms by (simp add: set_ca_chain_def wp_bind [of "gets _"] wp_bind [of "modify _"] wp_bind [of "do_if _ _"] wp_gets wp_modify
        wp_do_if wp_return go cert_set mem_unowned)
  qed
qed


lemma mem_set_own:
  assumes "tls_mem L s"
  shows "wp (set_own_cert w c) (\<lambda>_ t. tls_mem L t \<and> cli_is c False t) s"
proof -
  have rest: "keeps (\<lambda>t. tls_mem L t \<and> cli_is c False t)
      (do { conf \<leftarrow> get_ssl_config w; conf_call w conf (TlsConfOwnCert conf c) })"
    by (intro keeps keeps_both mem_get_config certs_stay mem_conf_call)
  note go = keepsD [OF rest]
  show ?thesis
  proof (cases "clicert_allocated s")
    case True
    have "tls_mem L (s\<lparr>history := h, tls_heap := h_free (tls_heap s) (clicert s), clicert_allocated := False, clicert := c\<rparr>)" for h
      using mem_block [OF assms, of "(clicert s, Crt)"] assms True
      by (simp add: tls_mem_def owned_defs heap_ok_free)
    then show ?thesis
      using mem_block [OF assms, of "(clicert s, Crt)"] True
      by (cases "c = 0") (simp_all add: set_own_cert_def tls_delete_def wp_bind [of "gets _"] wp_bind [of "modify _"] wp_bind [of "do_if _ _"] wp_gets wp_modify
        wp_do_if wp_tell wp_return wp_bind [of "tell _ _"] owned_defs go cert_set del: not_None_eq)
  next
    case False
    then show ?thesis
      using assms by (simp add: set_own_cert_def wp_bind [of "gets _"] wp_bind [of "modify _"] wp_bind [of "do_if _ _"] wp_gets wp_modify
        wp_do_if wp_return go cert_set mem_unowned)
  qed
qed

text \<open>A parsed certificate becomes the wrapper's own.\<close>

lemma mem_adopt:
  "tls_mem (add_mset (p, Crt) L) s \<Longrightarrow> ca_is p False s \<Longrightarrow> tls_mem L (s\<lparr>cacert_allocated := True\<rparr>)"
  "tls_mem (add_mset (p, Crt) L) s \<Longrightarrow> cli_is p False s \<Longrightarrow> tls_mem L (s\<lparr>clicert_allocated := True\<rparr>)"
  by (simp_all add: tls_mem_def owned_defs ca_is_def cli_is_def)

lemma mem_drop: "tls_mem (add_mset (p, Crt) L) s \<Longrightarrow> wp (do { tls_delete p; return r }) (\<lambda>_. tls_mem L) s"
  unfolding wp_bind wp_return by (rule wp_mono [OF mem_delete]) auto

lemma mem_root_ca: "keeps (tls_mem L) (set_root_ca_cert w d)"
proof (rule keepsI)
  fix s
  assume s: "tls_mem L s"
  have adopt: "wp (do { set_ca_chain w p; modify (\<lambda>s. s\<lparr>cacert_allocated := True\<rparr>); return r }) (\<lambda>_. tls_mem L) t"
    if "tls_mem (add_mset (p, Crt) L) t" for p r t
    unfolding wp_bind wp_modify wp_return
    by (rule wp_mono [OF mem_set_ca [OF that]]) (auto intro: mem_adopt)
  show "wp (set_root_ca_cert w d) (\<lambda>_. tls_mem L) s"
    unfolding set_root_ca_cert_def wp_bind [of "tls_new _ _ _"]
    by (rule wp_mono [OF mem_new [OF s]])
      (auto simp: wp_return wp_bind [of "tell _ _"] wp_bind [of "call _ _"] wp_tell wp_call adopt mem_drop split: if_splits)
qed

lemma mem_client_cert: "keeps (tls_mem L) (set_client_cert_key w d k)"
proof (rule keepsI)
  fix s
  assume s: "tls_mem L s"
  have adopt: "wp (do { _ \<leftarrow> set_own_cert w p; modify (\<lambda>s. s\<lparr>clicert_allocated := True\<rparr>); return r }) (\<lambda>_. tls_mem L) t"
    if "tls_mem (add_mset (p, Crt) L) t" for p r t
    unfolding wp_bind wp_modify wp_return
    by (rule wp_mono [OF mem_set_own [OF that]]) (auto intro: mem_adopt)
  show "wp (set_client_cert_key w d k) (\<lambda>_. tls_mem L) s"
    unfolding set_client_cert_key_def wp_bind [of "tls_new _ _ _"]
    by (rule wp_mono [OF mem_new [OF s]])
      (auto simp: wp_return wp_bind [of "tell _ _"] wp_bind [of "call _ _"] wp_tell wp_call adopt mem_drop split: if_splits)
qed

lemma keeps_post:
  assumes "\<And>s. P s \<Longrightarrow> wp m (\<lambda>_ t. P t \<and> Q t) s"
  shows "keeps P m"
  by (rule keepsI, rule wp_mono [OF assms]) auto

lemma mem_certs:
  "keeps (tls_mem L) (set_ca_chain w c)" "keeps (tls_mem L) (set_own_cert w c)" "keeps (tls_mem L) (set_ssl_config w c)"
  by (rule keeps_post [OF mem_set_ca] keeps_post [OF mem_set_own] keeps_post [OF mem_set_config], assumption)+

lemmas mem_rules = keeps mem_certs mem_root_ca mem_client_cert mem_get_config mem_conf_call mem_close mem.general
  mem.blocking mem.tcp

lemma mem_handshake: "keeps (tls_mem L) (continue_handshake w)" "keeps (tls_mem L) (start_handshake w f)"
proof -
  show c: "keeps (tls_mem L) (continue_handshake w)"
    unfolding continue_handshake_def by (intro keeps; simp)
  show "keeps (tls_mem L) (start_handshake w f)"
    unfolding start_handshake_def by (intro mem_rules c; simp)
qed

lemma mem_data: "keeps (tls_mem L) (tls_send w d)" "keeps (tls_mem L) (tls_recv w n)" "keeps (tls_mem L) (tls_getpeername w a)"
  "keeps (tls_mem L) (ssl_recv w n)" "keeps (tls_mem L) (ssl_send w fuel d k)" "keeps (tls_mem L) (set_hostname w h)"
  unfolding tls_send_def tls_recv_def tls_getpeername_def ensure_connected_def ssl_recv_def ssl_send_def set_hostname_def
  by (intro mem_rules mem_handshake; simp)+

lemma mem_control: "keeps (tls_mem L) (tls_close w)" "keeps (tls_mem L) (tls_connect w a)"
  "keeps (tls_mem L) (tls_bind w psz raw a)" "keeps (tls_mem L) (tls_set_timeout w i)"
  "keeps (tls_mem L) (tls_setsockopt w opt)" "keeps (tls_mem L) (tls_getsockopt w b)"
  "keeps (tls_mem L) (tls_recvfrom w pa n)"
  unfolding tls_close_def tls_connect_def tls_bind_def tls_set_timeout_def tls_setsockopt_def tls_getsockopt_def
    tls_recvfrom_def
  by (intro mem_rules mem_handshake mem_data; simp)+

lemma mem_run: "keeps (tls_mem L) (tls_run w x)"
  by (cases x) (simp_all add: keeps mem_certs mem_root_ca mem_client_cert mem_get_config mem_data mem_control)

lemma mem_runs: "keeps (tls_mem L) (tls_runs w xs)"
  by (induction xs) (simp_all add: keeps mem_run)

text \<open>The destructor gives every block back.\<close>

lemma wp_post: "wp m P s \<Longrightarrow> keeps Q m \<Longrightarrow> Q s \<Longrightarrow> (\<And>a t. P a t \<Longrightarrow> Q t \<Longrightarrow> R a t) \<Longrightarrow> wp m R s"
  by (rule wp_mono [OF wp_keeps [of m P s Q]]) auto

lemma mem_destroy:
  assumes "tls_mem {#} s"
  shows "wp (tls_destroy w) (\<lambda>_ t. tls_heap t = []) s"
proof -
  have empty: "contents h = {#} \<Longrightarrow> h = []" for h :: "tls_block heap"
    by (simp add: contents_def)
  have three: "wp (set_ssl_config w 0) (\<lambda>_ t. tls_heap t = []) t" if "tls_mem {#} t \<and> cli_is 0 False t \<and> ca_is 0 False t" for t
    by (rule wp_post [OF mem_set_config keeps_both [OF certs_stay(5,6)]])
      (use that in \<open>auto simp: tls_mem_def owned_defs ca_is_def cli_is_def dest: empty\<close>)
  have two: "wp (do { set_ca_chain w 0; set_ssl_config w 0; tell (tl_env w) c }) (\<lambda>_ t. tls_heap t = []) t"
    if "tls_mem {#} t \<and> cli_is 0 False t" for c t
    unfolding wp_bind wp_tell
    by (rule wp_post [OF mem_set_ca certs_stay(7)])
      (use that in \<open>auto intro!: wp_mono [OF three]\<close>)
  have one: "wp (do { _ \<leftarrow> set_own_cert w 0; set_ca_chain w 0; set_ssl_config w 0; tell (tl_env w) c }) (\<lambda>_ t. tls_heap t = []) t"
    if "tls_mem {#} t" for c t
    unfolding wp_bind [of "set_own_cert w 0"] by (rule wp_mono [OF mem_set_own [OF that]]) (auto intro: two)
  have zero: "wp (do {
       tell (tl_env w) (TlsObjectFree ''entropy'');
       tell (tl_env w) (TlsObjectFree ''drbg'');
       tell (tl_env w) (TlsObjectFree ''ssl'');
       tell (tl_env w) (TlsObjectFree ''pk'');
       _ \<leftarrow> set_own_cert w 0;
       set_ca_chain w 0;
       set_ssl_config w 0;
       tell (tl_env w) (TlsObjectFree ''platform'')
     }) (\<lambda>_ t. tls_heap t = []) t" if "tls_mem {#} t" for t
    by (simp only: wp_bind [of "tell _ _"] wp_tell) (rule one, simp add: that)
  show ?thesis
    unfolding tls_destroy_def wp_bind [of "gets _"] wp_gets
    by (rule wp_seq [of "tls_mem {#}", OF _ assms zero]) (intro mem_rules; simp)
qed



section \<open>Examples\<close>

text \<open>Mbed TLS and a transport that always succeed.\<close>

definition quick_tls :: tls_lib where
  "quick_tls = \<lparr>tl_env = (\<lambda>h c. \<lparr>ret = (case c of NsCreate f t p \<Rightarrow> 5 | TlsNew n \<Rightarrow> 4096
         | TlsWrite d \<Rightarrow> int (length d) | _ \<Rightarrow> 0), outs = [], payload = []\<rparr>), crt_size = 300, conf_size = 200\<rparr>"

lemma tls_data_after_handshake_witness:
  "wp (do { tls_construct quick_tls None; tls_runs quick_tls [TlsConnectOp localhost, TlsSend [1]] })
    (\<lambda>_ t. data_secured (history t) \<and> fst (hd (history t)) = TlsWrite [1])
    (tls_start ((tcp_socket 1)\<lparr>socket_opened := True, socket_id := 5\<rparr>) True TRANSPORT_KEEP)"
proof -
  have "wp (do { tls_construct quick_tls None; tls_runs quick_tls [TlsConnectOp localhost, TlsSend [1]] })
    (\<lambda>_ t. fst (hd (history t)) = TlsWrite [1])
    (tls_start ((tcp_socket 1)\<lparr>socket_opened := True, socket_id := 5\<rparr>) True TRANSPORT_KEEP)"
    by (simp add: wp wp_State tls_start_def isock.defs quick_tls_def tcp_socket_def new_socket_def tls_construct_def
      tls_connect_def start_handshake_def get_ssl_config_def conf_call_def tls_new_def Let_def h_alloc_def h_fits_def
      continue_handshake_def first_answer_code_def ns_set_blocking_def ns_set_timeout_def ns_lock_def ns_unlock_def
      verify_socket_type_def tls_send_def ensure_connected_def)
  from wp_conj [OF tls_data_after_handshake this] show ?thesis
    by (rule wp_mono) (simp_all add: tcp_socket_def new_socket_def)
qed

end
