(* ===== verification/Ring_Buffer.thy ===== *)
theory Ring_Buffer
  imports Main
begin

text \<open>
  The ring buffer of \<open>pw_sys_io_mcu_driver_hal/sys_io_mdh.cc\<close>, the template \<open>RingBuffer\<close>.  Its elements are
  of any type, its size is the length of the array.  The critical section around every operation makes it one
  step.  The configuration is the default one, in which an overflow loses the oldest elements.
\<close>

section \<open>State and operations\<close>

record 'a ring =
  ring_buf :: "'a list"
  ring_head :: nat
  ring_tail :: nat
  ring_full :: bool

abbreviation ring_cap :: "'a ring \<Rightarrow> nat" where
  "ring_cap r \<equiv> length (ring_buf r)"

definition ring_new :: "'a list \<Rightarrow> 'a ring" where
  "ring_new raw = \<lparr>ring_buf = raw, ring_head = 0, ring_tail = 0, ring_full = False\<rparr>"

lemma ring_cap_new [simp]: "ring_cap (ring_new raw) = length raw"
  by (simp add: ring_new_def)

text \<open>\<open>increment\<close>, by one and by a number.\<close>

definition increment :: "nat \<Rightarrow> nat \<Rightarrow> nat" where
  "increment cap i = (if i + 1 = cap then 0 else i + 1)"

definition increment_by :: "nat \<Rightarrow> nat \<Rightarrow> nat \<Rightarrow> nat" where
  "increment_by cap i n = (if i + n \<ge> cap then i + n - cap else i + n)"

definition ring_empty :: "'a ring \<Rightarrow> bool" where
  "ring_empty r \<longleftrightarrow> ring_head r = ring_tail r \<and> \<not> ring_full r"

definition ring_size :: "'a ring \<Rightarrow> nat" where
  "ring_size r =
     (if ring_full r then ring_cap r
      else if ring_head r < ring_tail r then ring_cap r - (ring_tail r - ring_head r)
      else ring_head r - ring_tail r)"

definition ring_capacity :: "'a ring \<Rightarrow> nat" where
  "ring_capacity r = ring_cap r - ring_size r"

definition ring_put :: "'a \<Rightarrow> 'a ring \<Rightarrow> 'a ring" where
  "ring_put x r =
     (let h = increment (ring_cap r) (ring_head r);
          r = r\<lparr>ring_buf := (ring_buf r)[ring_head r := x], ring_head := h\<rparr>
      in if ring_full r then r\<lparr>ring_tail := h\<rparr>
         else if h = ring_tail r then r\<lparr>ring_full := True\<rparr>
         else r)"

text \<open>\<open>std::copy\<close> to a place in a list that has room.\<close>

definition paste :: "'a list \<Rightarrow> nat \<Rightarrow> 'a list \<Rightarrow> 'a list" where
  "paste xs k ys = take k ys @ xs @ drop (k + length xs) ys"

definition ring_put_span :: "'a list \<Rightarrow> 'a ring \<Rightarrow> 'a ring" where
  "ring_put_span src r =
     (if src = [] then r
      else if length src = 1 then ring_put (src ! 0) r
      else if length src > ring_cap r then
        r\<lparr>ring_tail := 0, ring_head := 0, ring_full := True, ring_buf := paste (drop (length src - ring_cap r) src) 0 (ring_buf r)\<rparr>
      else
        let adjust_tail = (ring_cap r - ring_size r \<le> length src);
            first_write_size = (if ring_head r + length src > ring_cap r then ring_cap r - ring_head r else length src);
            buf = paste (take first_write_size src) (ring_head r) (ring_buf r);
            r = (if first_write_size \<noteq> length src then
                   r\<lparr>ring_buf := paste (drop first_write_size src) 0 buf, ring_head := length src - first_write_size\<rparr>
                 else r\<lparr>ring_buf := buf, ring_head := increment_by (ring_cap r) (ring_head r) first_write_size\<rparr>)
        in if adjust_tail then r\<lparr>ring_tail := ring_head r, ring_full := True\<rparr> else r)"

definition ring_get :: "'a ring \<Rightarrow> ('a \<times> 'a ring) option" where
  "ring_get r =
     (if ring_empty r then None
      else Some (ring_buf r ! ring_tail r, r\<lparr>ring_tail := increment (ring_cap r) (ring_tail r), ring_full := False\<rparr>))"

text \<open>
  \<open>get\<close> of a span writes to the caller's memory, \<open>dest\<close>; the value is the count, that memory afterwards and the
  buffer.  \<open>None\<close>: a copy whose end is before its beginning.
\<close>

definition ring_get_span :: "'a list \<Rightarrow> 'a ring \<Rightarrow> (nat \<times> 'a list \<times> 'a ring) option" where
  "ring_get_span dest r =
     (if dest = [] then Some (0, dest, r)
      else if length dest = 1 then
        (case ring_get r of None \<Rightarrow> Some (0, dest, r) | Some (x, r') \<Rightarrow> Some (1, [x], r'))
      else if ring_empty r then Some (0, dest, r)
      else
        let n = min (ring_size r) (length dest);
            t = ring_tail r
        in if t + n > ring_cap r then
             let t' = n - (ring_cap r - t)
             in Some (n, paste (take t' (ring_buf r)) (ring_cap r - t) (paste (drop t (ring_buf r)) 0 dest),
                  r\<lparr>ring_tail := t', ring_full := False\<rparr>)
           else if t > n then None
           else Some (n, paste (drop t (take n (ring_buf r))) 0 dest,
                  r\<lparr>ring_tail := increment_by (ring_cap r) t n, ring_full := False\<rparr>))"

section \<open>The queue in the buffer\<close>

definition ring_ok :: "'a ring \<Rightarrow> bool" where
  "ring_ok r \<longleftrightarrow> ring_head r < ring_cap r \<and> ring_tail r < ring_cap r \<and> (ring_full r \<longrightarrow> ring_head r = ring_tail r)"

text \<open>Element \<open>i\<close> of the queue is in the array at \<open>slot\<close>.\<close>

definition slot :: "nat \<Rightarrow> nat \<Rightarrow> nat \<Rightarrow> nat" where
  "slot cap t i = (if t + i < cap then t + i else t + i - cap)"

definition queued :: "'a ring \<Rightarrow> 'a list" where
  "queued r = map (\<lambda>i. ring_buf r ! slot (ring_cap r) (ring_tail r) i) [0..<ring_size r]"

definition last_n :: "nat \<Rightarrow> 'a list \<Rightarrow> 'a list" where
  "last_n n xs = drop (length xs - n) xs"

lemma last_n_simps [simp]: "length xs \<le> n \<Longrightarrow> last_n n xs = xs" "length (last_n n xs) = min n (length xs)"
  by (auto simp: last_n_def)

lemma last_n_append: "last_n n (last_n n xs @ ys) = last_n n (xs @ ys)"
  by (cases "length xs \<le> n") (simp_all add: last_n_def add.commute)

lemma ring_size_le [simp]: "ring_ok r \<Longrightarrow> ring_size r \<le> ring_cap r"
  by (auto simp: ring_ok_def ring_size_def)

lemma length_queued [simp]: "length (queued r) = ring_size r"
  by (simp add: queued_def)

lemma ring_empty_queued: "ring_ok r \<Longrightarrow> ring_empty r \<longleftrightarrow> queued r = []"
  by (auto simp: queued_def ring_empty_def ring_size_def ring_ok_def)

lemma ring_new_queued: "raw \<noteq> [] \<Longrightarrow> ring_ok (ring_new raw) \<and> queued (ring_new raw) = []"
  by (simp add: ring_new_def ring_ok_def queued_def ring_size_def)

lemma queued_nth: "i < ring_size r \<Longrightarrow> queued r ! i = ring_buf r ! slot (ring_cap r) (ring_tail r) i"
  by (simp add: queued_def)

lemma queued_eqI:
  assumes "ring_size r = length xs"
    and "\<And>i. i < length xs \<Longrightarrow> ring_buf r ! slot (ring_cap r) (ring_tail r) i = xs ! i"
  shows "queued r = xs"
  by (rule nth_equalityI) (simp_all add: assms queued_nth)

section \<open>One element\<close>

lemma ring_put_ok: "ring_ok r \<Longrightarrow> ring_ok (ring_put x r) \<and> ring_cap (ring_put x r) = ring_cap r"
  by (auto simp: ring_put_def ring_ok_def increment_def Let_def)

lemma ring_put_queued:
  assumes "ring_ok r"
  shows "queued (ring_put x r) = last_n (ring_cap r) (queued r @ [x])"
proof (cases "ring_full r")
  case True
  have sz: "ring_size r = ring_cap r" using True by (simp add: ring_size_def)
  show ?thesis
    using assms True sz
    by (intro queued_eqI)
      (auto simp: last_n_def ring_put_ok ring_put_def Let_def ring_size_def queued_nth ring_ok_def increment_def slot_def
        nth_append nth_list_update intro!: arg_cong [where f = "(!) (ring_buf r)"] split: if_splits)
next
  case False
  then have sz: "ring_size r < ring_cap r" using assms by (auto simp: ring_size_def ring_ok_def)
  have "queued (ring_put x r) = queued r @ [x]"
    using assms False sz
    by (intro queued_eqI)
      (auto simp: ring_put_ok ring_put_def Let_def ring_size_def queued_nth ring_ok_def increment_def slot_def
        nth_append nth_list_update intro!: arg_cong [where f = "(!) (ring_buf r)"] split: if_splits)
  then show ?thesis using assms sz by simp
qed

lemma ring_get_queued:
  assumes "ring_ok r"
  shows "ring_get r = None \<and> queued r = [] \<or>
    (\<exists>x r'. ring_get r = Some (x, r') \<and> ring_ok r' \<and> ring_cap r' = ring_cap r \<and> queued r = x # queued r')"
proof (cases "ring_empty r")
  case True
  then show ?thesis using ring_empty_queued [OF assms] by (simp add: ring_get_def)
next
  case False
  define r' where "r' = r\<lparr>ring_tail := increment (ring_cap r) (ring_tail r), ring_full := False\<rparr>"
  have ok: "ring_ok r'" using assms False by (auto simp: r'_def ring_ok_def increment_def)
  have sz: "ring_size r = Suc (ring_size r')" and cap: "ring_cap r' = ring_cap r"
    using assms False by (auto simp: r'_def ring_ok_def increment_def ring_size_def ring_empty_def)
  have "queued r = ring_buf r ! ring_tail r # queued r'"
    using assms ok sz ring_size_le [OF assms]
    by (intro queued_eqI)
      (auto simp: nth_Cons queued_nth slot_def r'_def increment_def ring_ok_def
        intro!: arg_cong [where f = "(!) (ring_buf r)"] split: nat.split)
  then show ?thesis using False ok cap by (simp add: ring_get_def r'_def)
qed

section \<open>Spans\<close>

lemma length_paste [simp]: "k + length xs \<le> length ys \<Longrightarrow> length (paste xs k ys) = length ys"
  by (simp add: paste_def)

lemma paste_nth:
  "k + length xs \<le> length ys \<Longrightarrow> i < length ys \<Longrightarrow>
    paste xs k ys ! i = (if i < k then ys ! i else if i < k + length xs then xs ! (i - k) else ys ! i)"
  by (auto simp: paste_def nth_append)

lemma slot_mod: "t < cap \<Longrightarrow> i \<le> cap \<Longrightarrow> slot cap t i = (t + i) mod cap"
  by (auto simp: slot_def mod_if)

lemma queued_mod:
  assumes "ring_ok r" and "i < ring_size r"
  shows "queued r ! i = ring_buf r ! ((ring_tail r + i) mod ring_cap r)"
proof -
  have "i \<le> ring_cap r" using ring_size_le [OF assms(1)] assms(2) by simp
  then show ?thesis using assms by (simp add: queued_nth slot_mod ring_ok_def)
qed

lemma ring_head_mod: "ring_ok r \<Longrightarrow> ring_head r = (ring_tail r + ring_size r) mod ring_cap r"
  by (auto simp: ring_ok_def ring_size_def mod_if)

text \<open>The array after a span of at most its length has been written from \<open>h\<close>.\<close>

definition written :: "'a list \<Rightarrow> nat \<Rightarrow> 'a list \<Rightarrow> 'a list" where
  "written src h buf =
     (if h + length src > length buf
      then paste (drop (length buf - h) src) 0 (paste (take (length buf - h) src) h buf)
      else paste src h buf)"

lemma written_props:
  assumes "h < length buf" and "length src \<le> length buf"
  shows "length (written src h buf) = length buf"
    and "k < length buf \<Longrightarrow> written src h buf ! ((h + k) mod length buf) =
      (if k < length src then src ! k else buf ! ((h + k) mod length buf))"
  using assms by (auto simp: written_def paste_nth mod_if)

lemma ring_put_span_short:
  assumes "ring_ok r" and "1 < length src" and "length src \<le> ring_cap r"
  shows "ring_put_span src r =
    (let h = (ring_head r + length src) mod ring_cap r;
         r' = r\<lparr>ring_buf := written src (ring_head r) (ring_buf r), ring_head := h\<rparr>
     in if ring_cap r - ring_size r \<le> length src then r'\<lparr>ring_tail := h, ring_full := True\<rparr> else r')"
  using assms by (auto simp: ring_put_span_def written_def increment_by_def Let_def mod_if ring_ok_def)

lemma ring_put_span_ok: "ring_ok r \<Longrightarrow> ring_ok (ring_put_span src r) \<and> ring_cap (ring_put_span src r) = ring_cap r"
proof -
  assume r: "ring_ok r"
  consider "length src \<le> 1" | "ring_cap r < length src" "1 < length src" | "1 < length src" "length src \<le> ring_cap r"
    by linarith
  then show ?thesis
  proof cases
    case 1
    then show ?thesis using r ring_put_ok [OF r] by (cases src) (simp_all add: ring_put_span_def)
  next
    case 2
    then show ?thesis using r by (auto simp: ring_put_span_def ring_ok_def)
  next
    case 3
    have "0 < ring_cap r" using r by (auto simp: ring_ok_def)
    then show ?thesis
      using r 3 by (auto simp: ring_put_span_short [OF r] Let_def ring_ok_def written_props ring_size_def)
  qed
qed

text \<open>The element at place \<open>j\<close> of the old queue followed by the span, for the last ones that fit.\<close>

lemma written_elem:
  assumes "ring_ok r" and "length src \<le> ring_cap r"
    and "ring_size r + length src - ring_cap r \<le> j" and "j < ring_size r + length src"
  shows "written src (ring_head r) (ring_buf r) ! ((ring_tail r + j) mod ring_cap r) = (queued r @ src) ! j"
proof -
  define c h where "c = ring_cap r" and "h = ring_head r"
  have le: "ring_size r \<le> c" and hc: "h < c" using assms(1) by (simp_all add: c_def h_def ring_ok_def)
  have at: "(h + k) mod c = (ring_tail r + j) mod c" if "ring_size r + k = j + m * c" for k m
  proof -
    have "(h + k) mod c = (ring_tail r + (ring_size r + k)) mod c"
      by (simp add: h_def c_def ring_head_mod [OF assms(1)] mod_add_left_eq add.assoc)
    also have "\<dots> = (ring_tail r + j) mod c" by (simp add: that add.assoc [symmetric])
    finally show ?thesis .
  qed
  note elem = written_props(2) [OF hc [unfolded c_def h_def] assms(2), folded c_def h_def]
  show ?thesis
  proof (cases "j < ring_size r")
    case True
    define k where "k = c - ring_size r + j"
    have k: "k < c" "\<not> k < length src" "ring_size r + k = j + 1 * c"
      using True le assms(3) by (auto simp: k_def c_def)
    show ?thesis
      using at [OF k(3)] elem [OF k(1)] k(2) queued_mod [OF assms(1) True] True by (simp add: nth_append c_def h_def)
  next
    case False
    define k where "k = j - ring_size r"
    have k: "k < c" "k < length src" "ring_size r + k = j + 0 * c"
      using False assms(2,4) by (auto simp: k_def c_def)
    show ?thesis
      using at [OF k(3)] elem [OF k(1)] k(2) False by (simp add: nth_append c_def h_def k_def)
  qed
qed

lemma ring_put_span_queued:
  assumes "ring_ok r"
  shows "queued (ring_put_span src r) = last_n (ring_cap r) (queued r @ src)"
proof -
  have le: "ring_size r \<le> ring_cap r" using assms by simp
  consider "src = []" | x where "src = [x]" | "ring_cap r < length src" "1 < length src"
    | "1 < length src" "length src \<le> ring_cap r"
    by (metis One_nat_def Suc_lessI length_0_conv length_Suc_conv linorder_le_less_linear neq0_conv)
  then show ?thesis
  proof cases
    case 1
    then show ?thesis using le by (simp add: ring_put_span_def)
  next
    case 2
    then show ?thesis using ring_put_queued [OF assms] by (simp add: ring_put_span_def)
  next
    case 3
    then show ?thesis
      using le by (intro queued_eqI) (auto simp: ring_put_span_def ring_size_def last_n_def slot_def paste_def nth_append)
  next
    case 4
    define c d r' where "c = ring_cap r" and "d = ring_size r + length src - ring_cap r" and "r' = ring_put_span src r"
    have c: "ring_head r < c" "ring_tail r < c" "0 < c" "ring_size r \<le> c" using assms le by (auto simp: ring_ok_def c_def)
    have put: "ring_buf r' = written src (ring_head r) (ring_buf r) \<and> ring_cap r' = c \<and>
      (if c - ring_size r \<le> length src then ring_tail r' = (ring_head r + length src) mod c \<and> ring_full r'
       else ring_tail r' = ring_tail r \<and> \<not> ring_full r' \<and> ring_head r' = (ring_head r + length src) mod c)"
      using c 4 by (auto simp: r'_def ring_put_span_short [OF assms 4] written_props c_def Let_def ring_size_def)
    then have sz: "ring_size r' = ring_size r + length src - d"
      using c 4 assms by (auto simp: ring_size_def d_def ring_ok_def c_def mod_if split: if_splits)
    have tl: "(ring_tail r' + i) mod c = (ring_tail r + (d + i)) mod c" for i
    proof (cases "c - ring_size r \<le> length src")
      case True
      have "(ring_tail r' + i) mod c = (ring_tail r + (ring_size r + length src + i)) mod c"
        using put True by (simp add: ring_head_mod [OF assms] c_def mod_add_left_eq add.assoc)
      also have "ring_tail r + (ring_size r + length src + i) = ring_tail r + (d + i) + c"
        using True c by (simp add: d_def c_def)
      finally show ?thesis by simp
    next
      case False
      then show ?thesis using put by (simp add: d_def c_def)
    qed
    have "queued r' = last_n c (queued r @ src)"
    proof (rule queued_eqI)
      show "ring_size r' = length (last_n c (queued r @ src))" using sz c by (simp add: d_def c_def)
      fix i
      assume "i < length (last_n c (queued r @ src))"
      then have i: "i < c" "d + i < ring_size r + length src" by (auto simp: d_def c_def)
      have tc: "ring_tail r' < c" using put c by (auto split: if_splits)
      have "ring_cap r' = c" using put by (rule conjunct1 [OF conjunct2])
      then have "slot (ring_cap r') (ring_tail r') i = (ring_tail r + (d + i)) mod c"
        using slot_mod [OF tc, of i] i(1) tl [of i] by simp
      then have "ring_buf r' ! slot (ring_cap r') (ring_tail r') i = (queued r @ src) ! (d + i)"
        using put i written_elem [OF assms 4(2), of "d + i"] by (simp add: d_def c_def)
      also have "\<dots> = last_n c (queued r @ src) ! i"
        by (simp add: last_n_def d_def c_def del: drop_append)
      finally show "ring_buf r' ! slot (ring_cap r') (ring_tail r') i = last_n c (queued r @ src) ! i" .
    qed
    then show ?thesis by (simp add: r'_def c_def)
  qed
qed



lemma ring_drop:
  assumes "ring_ok r" and "0 < n" and "n \<le> ring_size r"
  defines "r' \<equiv> r\<lparr>ring_tail := (ring_tail r + n) mod ring_cap r, ring_full := False\<rparr>"
  shows "ring_ok r' \<and> ring_cap r' = ring_cap r \<and> queued r' = drop n (queued r)"
proof -
  have c: "0 < ring_cap r" using assms(1) by (auto simp: ring_ok_def)
  have ok: "ring_ok r'" using assms(1) c by (simp add: ring_ok_def r'_def)
  have "n \<le> ring_cap r" using assms(3) ring_size_le [OF assms(1)] by simp
  moreover have "ring_tail r < ring_cap r" using assms(1) by (simp add: ring_ok_def)
  ultimately have t': "(ring_tail r + n) mod ring_cap r = (if ring_tail r + n < ring_cap r then ring_tail r + n else ring_tail r + n - ring_cap r)"
    by (simp add: mod_if)
  have sz: "ring_size r' = ring_size r - n"
    using assms(1-3) unfolding ring_size_def r'_def ring_ok_def ring.simps t' by (auto split: if_splits)
  have "queued r' = drop n (queued r)"
  proof (rule nth_equalityI)
    show "length (queued r') = length (drop n (queued r))" by (simp add: sz)
    fix i
    assume "i < length (queued r')"
    then show "queued r' ! i = drop n (queued r) ! i"
      using queued_mod [OF ok, of i] queued_mod [OF assms(1), of "n + i"] assms(3) sz
      by (simp add: r'_def mod_add_left_eq add.assoc)
  qed
  then show ?thesis using ok by (simp add: r'_def)
qed

text \<open>Where the copy of \<open>get\<close> is right: the data wrap around, or begin at the start of the array.\<close>

lemma ring_get_span_right:
  assumes "ring_ok r" and "1 < length dest" and "queued r \<noteq> []"
    and "ring_tail r = 0 \<or> ring_cap r < ring_tail r + min (ring_size r) (length dest)"
  shows "\<exists>r'. ring_get_span dest r =
      Some (min (ring_size r) (length dest),
        take (length dest) (queued r) @ drop (ring_size r) dest, r') \<and>
    ring_ok r' \<and> ring_cap r' = ring_cap r \<and> queued r' = drop (length dest) (queued r)"
proof -
  define n t c where "n = min (ring_size r) (length dest)" and "t = ring_tail r" and "c = ring_cap r"
  define r' where "r' = r\<lparr>ring_tail := (t + n) mod c, ring_full := False\<rparr>"
  have sz: "0 < ring_size r" using assms(3) by (simp flip: length_queued)
  have c: "t < c" "n \<le> c" "0 < n" "n \<le> length dest" "n \<le> ring_size r" "ring_size r \<le> c"
    using assms(1,2) sz by (auto simp: n_def t_def c_def ring_ok_def intro: ring_size_le min.coboundedI1)
  have ne: "\<not> ring_empty r" using assms(1,3) ring_empty_queued by blast
  have q: "queued r ! i = ring_buf r ! (if t + i < c then t + i else t + i - c)" if "i < n" for i
    using that c by (simp add: queued_nth slot_def t_def c_def)
  have rest: "take (length dest) (queued r) @ drop (ring_size r) dest = take n (queued r) @ drop n dest"
    by (simp add: n_def min_def)
  have "ring_get_span dest r = Some (n, take n (queued r) @ drop n dest, r')"
  proof (cases "c < t + n")
    case True
    have "paste (take (n - (c - t)) (ring_buf r)) (c - t) (paste (drop t (ring_buf r)) 0 dest) = take n (queued r) @ drop n dest"
    proof (rule nth_equalityI)
      show "length (paste (take (n - (c - t)) (ring_buf r)) (c - t) (paste (drop t (ring_buf r)) 0 dest)) =
          length (take n (queued r) @ drop n dest)"
        using c True by (simp add: c_def [symmetric])
    qed (use c True q in \<open>auto simp add: paste_nth nth_append c_def [symmetric] intro!: arg_cong [where f = "(!) (ring_buf r)"]\<close>)
    then show ?thesis
      using True assms(2) ne c by (auto simp: ring_get_span_def Let_def n_def [symmetric] t_def [symmetric] c_def [symmetric] r'_def mod_if)
  next
    case False
    then have t0: "t = 0" using assms(4) by (simp add: n_def t_def c_def)
    have "paste (take n (ring_buf r)) 0 dest = take n (queued r) @ drop n dest"
      by (rule nth_equalityI) (use c q t0 in \<open>simp_all add: paste_nth nth_append c_def [symmetric]\<close>)
    then show ?thesis
      using False assms(2) ne c t0
      by (auto simp: ring_get_span_def Let_def n_def [symmetric] t_def [symmetric] c_def [symmetric] r'_def mod_if increment_by_def)
  qed
  moreover have "drop n (queued r) = drop (length dest) (queued r)"
    by (simp add: n_def min_def)
  ultimately show ?thesis
    using ring_drop [OF assms(1) c(3,5)] unfolding rest by (simp add: r'_def t_def c_def n_def)
qed

text \<open>Elsewhere the copy ends at the number of elements asked for, not that many elements after the first one.\<close>

lemma ring_get_span_wrong:
  assumes "ring_ok r" and "1 < length dest" and "queued r \<noteq> []"
    and "0 < ring_tail r" and "ring_tail r + n \<le> ring_cap r" and "n = min (ring_size r) (length dest)"
  shows "ring_get_span dest r =
    (if n < ring_tail r then None
     else Some (n, take (n - ring_tail r) (queued r) @ drop (n - ring_tail r) dest,
       r\<lparr>ring_tail := increment_by (ring_cap r) (ring_tail r) n, ring_full := False\<rparr>))"
proof -
  have ne: "\<not> ring_empty r" using assms(1,3) ring_empty_queued by blast
  have le: "n \<le> ring_size r" "n \<le> length dest" using assms(6) by simp_all
  have "paste (drop (ring_tail r) (take n (ring_buf r))) 0 dest = take (n - ring_tail r) (queued r) @ drop (n - ring_tail r) dest"
    if "\<not> n < ring_tail r"
  proof (rule nth_equalityI)
    show "length (paste (drop (ring_tail r) (take n (ring_buf r))) 0 dest) =
        length (take (n - ring_tail r) (queued r) @ drop (n - ring_tail r) dest)"
      using that assms(5) le by simp
    fix i
    assume "i < length (paste (drop (ring_tail r) (take n (ring_buf r))) 0 dest)"
    then show "paste (drop (ring_tail r) (take n (ring_buf r))) 0 dest ! i =
        (take (n - ring_tail r) (queued r) @ drop (n - ring_tail r) dest) ! i"
      using that assms(4,5) le queued_mod [OF assms(1), of i] by (auto simp: paste_nth nth_append)
  qed
  then show ?thesis
    using assms ne by (auto simp: ring_get_span_def Let_def)
qed


section \<open>The buffer as a queue that loses its oldest elements\<close>

text \<open>
  The contract of the buffer for its client: what is put is last in the queue, of which the last \<open>cap\<close> elements
  are kept, and what is taken is its first.
\<close>

locale lossy_queue =
  fixes put :: "'a \<Rightarrow> 'q \<Rightarrow> 'q" and put_all :: "'a list \<Rightarrow> 'q \<Rightarrow> 'q" and take_one :: "'q \<Rightarrow> ('a \<times> 'q) option"
    and elems :: "'q \<Rightarrow> 'a list" and cap :: "'q \<Rightarrow> nat" and ok :: "'q \<Rightarrow> bool"
  assumes put_ok: "ok q \<Longrightarrow> ok (put x q) \<and> cap (put x q) = cap q"
    and put_elems: "ok q \<Longrightarrow> elems (put x q) = last_n (cap q) (elems q @ [x])"
    and all_ok: "ok q \<Longrightarrow> ok (put_all xs q) \<and> cap (put_all xs q) = cap q"
    and all_elems: "ok q \<Longrightarrow> elems (put_all xs q) = last_n (cap q) (elems q @ xs)"
    and elems_le: "ok q \<Longrightarrow> length (elems q) \<le> cap q"
    and take_none: "ok q \<Longrightarrow> take_one q = None \<longleftrightarrow> elems q = []"
    and take_some: "ok q \<Longrightarrow> take_one q = Some (x, q') \<Longrightarrow> ok q' \<and> cap q' = cap q \<and> elems q = x # elems q'"
begin

lemma fold_put: "ok q \<Longrightarrow> ok (fold put xs q) \<and> cap (fold put xs q) = cap q \<and>
    elems (fold put xs q) = last_n (cap q) (elems q @ xs)"
proof (induction xs arbitrary: q)
  case Nil
  then show ?case using elems_le by simp
next
  case (Cons x xs)
  then show ?case using put_ok [of q x] put_elems [of q x] last_n_append [of "cap q" "elems q @ [x]" xs] by simp
qed

text \<open>Without an overflow nothing is lost.\<close>

lemma no_loss: "ok q \<Longrightarrow> length (elems q) + length xs \<le> cap q \<Longrightarrow> elems (put_all xs q) = elems q @ xs"
  by (simp add: all_elems)

lemma put_then_take:
  "ok q \<Longrightarrow> elems q = [] \<Longrightarrow> 0 < cap q \<Longrightarrow> \<exists>q'. take_one (put x q) = Some (x, q') \<and> elems q' = []"
proof -
  assume q: "ok q" "elems q = []" "0 < cap q"
  have "elems (put x q) = [x]" using q put_elems [OF q(1), of x] by simp
  then show ?thesis
    using take_none [of "put x q"] take_some [of "put x q"] put_ok [OF q(1), of x]
    by (cases "take_one (put x q)") auto
qed

end

lemma ring_get_none: "ring_ok r \<Longrightarrow> ring_get r = None \<longleftrightarrow> queued r = []"
  using ring_get_queued [of r] by auto

lemma ring_get_some: "ring_ok r \<Longrightarrow> ring_get r = Some (x, r') \<Longrightarrow> ring_ok r' \<and> ring_cap r' = ring_cap r \<and> queued r = x # queued r'"
  using ring_get_queued [of r] by auto

interpretation ring: lossy_queue ring_put ring_put_span ring_get queued ring_cap ring_ok
  by unfold_locales (simp_all add: ring_put_ok ring_put_queued ring_put_span_ok ring_put_span_queued ring_get_none ring_get_some)

text \<open>
  C26. Writing a span, in one or two pieces or longer than the buffer, leaves the queue that writing its elements
  one by one leaves: the old queue followed by the span, of which the last elements that fit are kept.
\<close>

theorem ring_put_span_exact:
  assumes "ring_ok r"
  shows "ring_ok (ring_put_span src r) \<and> queued (ring_put_span src r) = last_n (ring_cap r) (queued r @ src) \<and>
    queued (fold ring_put src r) = last_n (ring_cap r) (queued r @ src)"
  using ring.all_ok [OF assms] ring.all_elems [OF assms] ring.fold_put [OF assms] by simp

text \<open>
  C27. Reading a span from a buffer whose data begin inside the array and do not wrap around never stores all the
  elements it reports: as many as precede the data are missing from the result, though the queue has lost them;
  where there are fewer elements to read than precede the data, the copy has its end before its beginning.
\<close>

theorem ring_get_span_loses:
  assumes "ring_ok r" and "1 < length dest" and "queued r \<noteq> []"
    and "0 < ring_tail r" and "ring_tail r + min (ring_size r) (length dest) \<le> ring_cap r"
  shows "case ring_get_span dest r of None \<Rightarrow> min (ring_size r) (length dest) < ring_tail r
    | Some (n, dest', r') \<Rightarrow> n = min (ring_size r) (length dest) \<and> queued r' = drop n (queued r) \<and>
        dest' = take (n - ring_tail r) (queued r) @ drop (n - ring_tail r) dest"
proof -
  define n where "n = min (ring_size r) (length dest)"
  have sz: "0 < ring_size r" using assms(3) by (simp flip: length_queued)
  have n: "0 < n" "n \<le> ring_size r" using sz assms(2) by (auto simp: n_def)
  have "increment_by (ring_cap r) (ring_tail r) n = (ring_tail r + n) mod ring_cap r"
    using assms(4,5) n by (auto simp: increment_by_def n_def [symmetric] mod_if)
  then show ?thesis
    using ring_get_span_wrong [OF assms(1-4) assms(5) [folded n_def] n_def] ring_drop [OF assms(1) n]
    by (simp add: n_def [symmetric])
qed

section \<open>Well-formedness\<close>

datatype 'a ring_op = Put 'a | PutSpan "'a list" | Get | GetSpan "'a list"

text \<open>\<open>None\<close>: a copy whose end is before its beginning.\<close>

fun ring_apply :: "'a ring_op \<Rightarrow> 'a ring \<Rightarrow> 'a ring option" where
  "ring_apply (Put x) r = Some (ring_put x r)"
| "ring_apply (PutSpan xs) r = Some (ring_put_span xs r)"
| "ring_apply Get r = Some (case ring_get r of None \<Rightarrow> r | Some (x, r') \<Rightarrow> r')"
| "ring_apply (GetSpan dest) r = map_option (snd \<circ> snd) (ring_get_span dest r)"

fun ring_run :: "'a ring_op list \<Rightarrow> 'a ring \<Rightarrow> 'a ring option" where
  "ring_run [] r = Some r"
| "ring_run (x # xs) r = (case ring_apply x r of None \<Rightarrow> None | Some r' \<Rightarrow> ring_run xs r')"

lemma ring_get_span_ok:
  assumes "ring_ok r" and "ring_get_span dest r = Some (n, dest', r')"
  shows "ring_ok r' \<and> ring_cap r' = ring_cap r"
proof -
  consider "dest = [] \<or> ring_empty r" | "length dest = 1" "\<not> ring_empty r" | "1 < length dest" "queued r \<noteq> []"
    using assms(1) ring_empty_queued by (cases dest) auto
  then show ?thesis
  proof cases
    case 1
    then show ?thesis using assms by (auto simp: ring_get_span_def ring_get_def split: if_splits)
  next
    case 2
    then obtain d where "dest = [d]" by (cases dest) auto
    then show ?thesis using assms ring_get_some [OF assms(1)] by (auto simp: ring_get_span_def split: option.splits)
  next
    case 3
    show ?thesis
    proof (cases "ring_tail r = 0 \<or> ring_cap r < ring_tail r + min (ring_size r) (length dest)")
      case True
      then show ?thesis using ring_get_span_right [OF assms(1) 3] assms(2) by auto
    next
      case False
      then have t: "ring_tail r + min (ring_size r) (length dest) \<le> ring_cap r" "0 < ring_tail r" by auto
      then have "increment_by (ring_cap r) (ring_tail r) (min (ring_size r) (length dest)) < ring_cap r"
        using assms(1) by (auto simp: increment_by_def ring_ok_def)
      then show ?thesis
        using ring_get_span_wrong [OF assms(1) 3 t(2,1) refl] assms by (auto simp: ring_ok_def split: if_splits)
    qed
  qed
qed

lemma ring_apply_ok:
  assumes "ring_ok r" and "ring_apply x r = Some r'"
  shows "ring_ok r' \<and> ring_cap r' = ring_cap r"
proof (cases x)
  case (GetSpan dest)
  then show ?thesis using assms ring_get_span_ok [of r dest] by auto
qed (use assms ring_put_ok [of r] ring_put_span_ok [of r] ring_get_some [of r] in \<open>auto split: option.splits\<close>)


section \<open>Examples\<close>

definition sample_ring :: "nat ring" where
  "sample_ring = \<lparr>ring_buf = [7, 1, 2, 3, 0], ring_head = 4, ring_tail = 1, ring_full = False\<rparr>"

lemma ring_put_span_exact_witness:
  "queued (ring_put_span [4, 5, 6] sample_ring) = [2, 3, 4, 5, 6] \<and>
    queued (fold ring_put [4, 5, 6] sample_ring) = [2, 3, 4, 5, 6]"
proof -
  have "ring_ok sample_ring" "queued sample_ring = [1, 2, 3]" "ring_cap sample_ring = 5"
    by (simp_all add: sample_ring_def ring_ok_def queued_def ring_size_def slot_def upt_rec)
  with ring_put_span_exact [of sample_ring "[4, 5, 6]"] show ?thesis by (simp add: last_n_def)
qed


text \<open>Three elements are in the buffer, two of them asked for; the second one is not stored.\<close>

lemma ring_get_span_loses_witness:
  "queued sample_ring = [1, 2, 3] \<and> (\<exists>r'. ring_get_span [0, 0] sample_ring = Some (2, [1, 0], r') \<and> queued r' = [3])"
proof -
  have s: "ring_ok sample_ring" "queued sample_ring = [1, 2, 3]" "ring_tail sample_ring = 1" "ring_size sample_ring = 3"
      "ring_cap sample_ring = 5"
    by (simp_all add: sample_ring_def ring_ok_def queued_def ring_size_def slot_def upt_rec)
  from ring_get_span_loses [of sample_ring "[0, 0]"] s show ?thesis
    by (auto split: option.splits)
qed

end
