(* ===== verification/Sys_Io.thy ===== *)
theory Sys_Io
  imports Extern Ring_Buffer
begin

text \<open>
  The character output and input of \<open>pw_sys_io_mcu_driver_hal\<close>: \<open>sys_io_mdh.cc\<close> over its ring buffers, with the
  two variants of its locks, \<open>lock/cmsis_rtos_lock.c\<close> and \<open>lock/null_lock.c\<close>.

  The serial driver and the kernel are the environment.  An interrupt can arrive before every critical section;
  the environment says which one.  A critical section, and an interrupt handler, is not interrupted.  The lists
  \<open>tx\<close> and \<open>rx\<close> of the theorems are the queues in the two buffers.
\<close>

section \<open>State\<close>

datatype io_call =
    IoOs os_call | SerialSetCallback | SerialEnableIrq string | SerialPut byte | SerialIsWritable | SerialIsReadable
  | SerialGet | Interrupt

record sys_io = "io_call world" +
  io_serial :: bool
  tx_buffer :: "byte ring"
  tx_sending :: bool
  rx_buffer :: "byte ring"
  read_lock :: int
  write_lock :: int

text \<open>\<open>rtos_lock\<close>: which variant of the locks is linked; \<open>peripheral_size\<close>: \<open>PW_SYS_IO_MDH_PERIPHERAL_RX_BUFFER_SIZE\<close>.\<close>

record io_lib =
  io_env :: "io_call env"
  rtos_lock :: bool
  peripheral_size :: nat

type_synonym 'a io_m = "(sys_io, 'a) state"

section \<open>Locks\<close>

definition lock_init :: "io_lib \<Rightarrow> unit io_m" where
  "lock_init w =
     do_if (rtos_lock w)
       (do {
          m \<leftarrow> call (io_env w) (IoOs OsMutexNew);
          modify (\<lambda>s. s\<lparr>read_lock := m\<rparr>);
          do_if (m = 0) crash;
          m \<leftarrow> call (io_env w) (IoOs OsMutexNew);
          modify (\<lambda>s. s\<lparr>write_lock := m\<rparr>);
          do_if (m = 0) crash
        })"

definition lock_read :: "io_lib \<Rightarrow> unit io_m" where
  "lock_read w = do { m \<leftarrow> gets read_lock; do_if (rtos_lock w) (tell (io_env w) (IoOs (OsMutexAcquire m osWaitForever))) }"

definition unlock_read :: "io_lib \<Rightarrow> unit io_m" where
  "unlock_read w = do { m \<leftarrow> gets read_lock; do_if (rtos_lock w) (tell (io_env w) (IoOs (OsMutexRelease m))) }"

definition lock_write :: "io_lib \<Rightarrow> unit io_m" where
  "lock_write w = do { m \<leftarrow> gets write_lock; do_if (rtos_lock w) (tell (io_env w) (IoOs (OsMutexAcquire m osWaitForever))) }"

definition unlock_write :: "io_lib \<Rightarrow> unit io_m" where
  "unlock_write w = do { m \<leftarrow> gets write_lock; do_if (rtos_lock w) (tell (io_env w) (IoOs (OsMutexRelease m))) }"

section \<open>Interrupts\<close>

text \<open>
  The loop that passes bytes to the serial line; it is over when the buffer is empty, so one more round than
  there are bytes is enough.  The value tells whether it ended by itself.
\<close>

fun send_loop :: "io_lib \<Rightarrow> nat \<Rightarrow> bool io_m" where
  "send_loop w 0 = return False"
| "send_loop w (Suc fuel) =
     do {
       b \<leftarrow> gets tx_buffer;
       case ring_get b of None \<Rightarrow> return True
       | Some (c, b') \<Rightarrow>
         do {
           modify (\<lambda>s. s\<lparr>tx_buffer := b', tx_sending := True\<rparr>);
           tell (io_env w) (SerialPut c);
           more \<leftarrow> call (io_env w) SerialIsWritable;
           if more \<noteq> 0 then send_loop w fuel else return True
         }
     }"

definition send_bytes :: "io_lib \<Rightarrow> unit io_m" where
  "send_bytes w =
     do { b \<leftarrow> gets tx_buffer; ended \<leftarrow> send_loop w (Suc (ring_size b)); do_if (\<not> ended) crash }"

definition serial_irq_tx_cb :: "io_lib \<Rightarrow> unit io_m" where
  "serial_irq_tx_cb w =
     do { b \<leftarrow> gets tx_buffer; if ring_empty b then modify (\<lambda>s. s\<lparr>tx_sending := False\<rparr>) else send_bytes w }"

text \<open>The reception loop; the line may never run dry, so the number is fuel and its end is \<open>False\<close>.\<close>

fun rx_loop :: "io_lib \<Rightarrow> nat \<Rightarrow> byte list \<Rightarrow> bool io_m" where
  "rx_loop w 0 buf = return False"
| "rx_loop w (Suc fuel) buf =
     do {
       more \<leftarrow> call (io_env w) SerialIsReadable;
       if more \<noteq> 0 then do {
         c \<leftarrow> call (io_env w) SerialGet;
         let buf = buf @ [of_int c];
         if length buf = peripheral_size w then do {
           modify (\<lambda>s. s\<lparr>rx_buffer := ring_put_span buf (rx_buffer s)\<rparr>);
           rx_loop w fuel []
         }
         else rx_loop w fuel buf
       }
       else do { modify (\<lambda>s. s\<lparr>rx_buffer := ring_put_span buf (rx_buffer s)\<rparr>); return True }
     }"

definition serial_irq_rx_cb :: "io_lib \<Rightarrow> nat \<Rightarrow> bool io_m" where
  "serial_irq_rx_cb w fuel = rx_loop w fuel []"

definition trigger_send :: "io_lib \<Rightarrow> unit io_m" where
  "trigger_send w = do { sending \<leftarrow> gets tx_sending; if sending then return () else send_bytes w }"

text \<open>
  \<open>serial_irq_cb\<close>: the environment's answer is the event, 1 that the line can take bytes and above 1 that there
  are bytes, with the number of rounds the reception takes; anything else is no interrupt.
\<close>

definition preempt :: "io_lib \<Rightarrow> unit io_m" where
  "preempt w =
     do {
       event \<leftarrow> call (io_env w) Interrupt;
       if event = 1 then serial_irq_tx_cb w
       else if event > 1 then do { _ \<leftarrow> serial_irq_rx_cb w (nat event); return () }
       else return ()
     }"

section \<open>The buffer manager\<close>

definition setup_manager :: "io_lib \<Rightarrow> unit io_m" where
  "setup_manager w =
     do {
       modify (\<lambda>s. s\<lparr>io_serial := True\<rparr>);
       tell (io_env w) SerialSetCallback;
       tell (io_env w) (SerialEnableIrq ''RX'');
       tell (io_env w) (SerialEnableIrq ''TX'')
     }"

definition pw_sys_io_init :: "io_lib \<Rightarrow> unit io_m" where
  "pw_sys_io_init w = do { setup_manager w; lock_init w }"

definition put_byte :: "io_lib \<Rightarrow> byte \<Rightarrow> bool io_m" where
  "put_byte w data =
     do {
       preempt w;
       b \<leftarrow> gets tx_buffer;
       if ring_full b then return False
       else do {
         preempt w;
         modify (\<lambda>s. s\<lparr>tx_buffer := ring_put data (tx_buffer s)\<rparr>);
         preempt w;
         trigger_send w;
         return True
       }
     }"

definition put_bytes :: "io_lib \<Rightarrow> byte list \<Rightarrow> nat io_m" where
  "put_bytes w span =
     do {
       preempt w;
       b \<leftarrow> gets tx_buffer;
       let data = take (min (ring_capacity b) (length span)) span;
       preempt w;
       modify (\<lambda>s. s\<lparr>tx_buffer := ring_put_span data (tx_buffer s)\<rparr>);
       preempt w;
       trigger_send w;
       return (length data)
     }"

definition get_byte :: "io_lib \<Rightarrow> byte option io_m" where
  "get_byte w =
     do {
       preempt w;
       b \<leftarrow> gets rx_buffer;
       case ring_get b of None \<Rightarrow> return None
       | Some (c, b') \<Rightarrow> do { modify (\<lambda>s. s\<lparr>rx_buffer := b'\<rparr>); return (Some c) }
     }"

definition get_bytes :: "io_lib \<Rightarrow> byte list \<Rightarrow> (nat \<times> byte list) io_m" where
  "get_bytes w dest =
     do {
       preempt w;
       b \<leftarrow> gets rx_buffer;
       case ring_get_span dest b of None \<Rightarrow> do { crash; return (0, dest) }
       | Some (n, dest', b') \<Rightarrow> do { modify (\<lambda>s. s\<lparr>rx_buffer := b'\<rparr>); return (n, dest') }
     }"

section \<open>The interface\<close>

text \<open>\<open>None\<close> is the status \<open>UNAVAILABLE\<close>.\<close>

definition TryReadByte :: "io_lib \<Rightarrow> byte option io_m" where
  "TryReadByte w = do { lock_read w; c \<leftarrow> get_byte w; unlock_read w; return c }"

fun read_loop :: "io_lib \<Rightarrow> nat \<Rightarrow> byte option io_m" where
  "read_loop w 0 = return None"
| "read_loop w (Suc fuel) = do { c \<leftarrow> TryReadByte w; if c = None then read_loop w fuel else return c }"

definition ReadByte :: "io_lib \<Rightarrow> nat \<Rightarrow> byte option io_m" where
  "ReadByte w fuel = do { lock_read w; c \<leftarrow> read_loop w fuel; do_if (c \<noteq> None) (unlock_read w); return c }"

definition ReadBytes :: "io_lib \<Rightarrow> byte list \<Rightarrow> (nat \<times> byte list) io_m" where
  "ReadBytes w dest = do { lock_read w; r \<leftarrow> get_bytes w dest; unlock_read w; return r }"

text \<open>Writing waits for room in the buffer; \<open>False\<close> and \<open>None\<close>: the fuel is used up.\<close>

fun write_loop :: "io_lib \<Rightarrow> nat \<Rightarrow> byte \<Rightarrow> bool io_m" where
  "write_loop w 0 b = return False"
| "write_loop w (Suc fuel) b = do { ok \<leftarrow> put_byte w b; if ok then return True else write_loop w fuel b }"

definition WriteByte :: "io_lib \<Rightarrow> nat \<Rightarrow> byte \<Rightarrow> bool io_m" where
  "WriteByte w fuel b = do { lock_write w; ok \<leftarrow> write_loop w fuel b; do_if ok (unlock_write w); return ok }"

fun write_span_loop :: "io_lib \<Rightarrow> nat \<Rightarrow> byte list \<Rightarrow> bool io_m" where
  "write_span_loop w 0 bytes = return (bytes = [])"
| "write_span_loop w (Suc fuel) bytes =
     (if bytes = [] then return True
      else do { count \<leftarrow> put_bytes w bytes; write_span_loop w fuel (drop count bytes) })"

definition WriteBytes :: "io_lib \<Rightarrow> nat \<Rightarrow> byte list \<Rightarrow> nat option io_m" where
  "WriteBytes w fuel data =
     do {
       lock_write w;
       ok \<leftarrow> write_span_loop w fuel data;
       if ok then do { unlock_write w; return (Some (length data)) } else return None
     }"

definition WriteLine :: "io_lib \<Rightarrow> nat \<Rightarrow> byte list \<Rightarrow> nat option io_m" where
  "WriteLine w fuel s =
     do {
       lock_write w;
       r \<leftarrow> WriteBytes w fuel s;
       if r = None then return None
       else do {
         ok \<leftarrow> WriteByte w fuel 10;
         if ok then do { unlock_write w; return (Some (length s + 1)) } else return None
       }
     }"

section \<open>No byte is lost or reordered on the way out\<close>

fun sent :: "(io_call \<times> reply) list \<Rightarrow> byte list" where
  "sent [] = []"
| "sent ((SerialPut b, r) # h) = sent h @ [b]"
| "sent (c # h) = sent h"

lemma sent_other [simp]: "\<forall>b. c \<noteq> SerialPut b \<Longrightarrow> sent ((c, r) # h) = sent h"
  by (cases c) simp_all

text \<open>
  \<open>stream a c n f\<close>: the bytes that went out followed by those in the buffer are \<open>a\<close>; the buffer, of capacity
  \<open>c\<close>, has at most \<open>n\<close> of them; \<open>f\<close> is the fault flag.
\<close>

definition stream :: "byte list \<Rightarrow> nat \<Rightarrow> nat \<Rightarrow> bool \<Rightarrow> sys_io \<Rightarrow> bool" where
  "stream a c n f s \<longleftrightarrow> ring_ok (tx_buffer s) \<and> ring_ok (rx_buffer s) \<and> sent (history s) @ queued (tx_buffer s) = a \<and>
     ring_cap (tx_buffer s) = c \<and> ring_size (tx_buffer s) \<le> n \<and> fault s = f"

lemma stream_other [simp]:
  "\<forall>b. x \<noteq> SerialPut b \<Longrightarrow> stream a c n f (s\<lparr>history := (x, r) # history s\<rparr>) = stream a c n f s"
  "stream a c n f (s\<lparr>tx_sending := b\<rparr>) = stream a c n f s" "stream a c n f (s\<lparr>read_lock := i\<rparr>) = stream a c n f s"
  "stream a c n f (s\<lparr>write_lock := i\<rparr>) = stream a c n f s" "stream a c n f (s\<lparr>io_serial := b\<rparr>) = stream a c n f s"
  by (simp_all add: stream_def)

lemma stream_rx: "stream a c n f s \<Longrightarrow> ring_ok r \<Longrightarrow> stream a c n f (s\<lparr>rx_buffer := r\<rparr>)"
  by (simp add: stream_def)

lemma stream_locks:
  "keeps (stream a c n f) (lock_read w)" "keeps (stream a c n f) (unlock_read w)"
  "keeps (stream a c n f) (lock_write w)" "keeps (stream a c n f) (unlock_write w)"
  unfolding lock_read_def unlock_read_def lock_write_def unlock_write_def by (intro keeps; simp)+

text \<open>Passing the first byte of the buffer on.\<close>

lemma stream_pass:
  assumes "stream a c n f s" and "ring_get (tx_buffer s) = Some (x, b)"
  shows "sent h = sent (history s) @ [x] \<Longrightarrow> stream a c n f (s\<lparr>tx_buffer := b, tx_sending := True, history := h\<rparr>)"
    and "ring_size (tx_buffer s) = Suc (ring_size b)"
proof -
  have b: "ring_ok b \<and> ring_cap b = ring_cap (tx_buffer s) \<and> queued (tx_buffer s) = x # queued b"
    using assms by (intro ring_get_some) (simp_all add: stream_def)
  then show sz: "ring_size (tx_buffer s) = Suc (ring_size b)" by (metis length_Cons length_queued)
  show "sent h = sent (history s) @ [x] \<Longrightarrow> stream a c n f (s\<lparr>tx_buffer := b, tx_sending := True, history := h\<rparr>)"
    using assms(1) b sz by (simp add: stream_def)
qed

lemma send_loop_stream:
  "stream a c n f s \<Longrightarrow> ring_size (tx_buffer s) < fuel \<Longrightarrow> wp (send_loop w fuel) (\<lambda>ended t. ended \<and> stream a c n f t) s"
proof (induction fuel arbitrary: s)
  case (Suc fuel)
  show ?case
  proof (cases "ring_get (tx_buffer s)")
    case None
    then show ?thesis using Suc.prems by (simp add: wp)
  next
    case (Some p)
    obtain x b where p: "p = (x, b)" by (cases p)
    note pass = stream_pass [OF Suc.prems(1) Some [unfolded p]]
    show ?thesis
      using Some Suc.prems(2) pass by (simp add: wp p Suc.IH)
  qed
qed simp

lemma send_bytes_stream: "keeps (stream a c n f) (send_bytes w)"
proof (rule keepsI)
  fix s
  assume "stream a c n f s"
  then show "wp (send_bytes w) (\<lambda>_. stream a c n f) s"
    unfolding send_bytes_def wp_bind wp_gets
    by (rule wp_mono [OF send_loop_stream]) (simp_all add: wp)
qed

lemma rx_loop_stream: "keeps (stream a c n f) (rx_loop w fuel buf)"
  by (induction fuel arbitrary: buf)
    (simp_all add: Let_def, (intro keeps; simp add: stream_def ring_put_span_ok)+)

lemma interrupt_stream:
  "keeps (stream a c n f) (serial_irq_tx_cb w)" "keeps (stream a c n f) (serial_irq_rx_cb w k)"
  "keeps (stream a c n f) (trigger_send w)" "keeps (stream a c n f) (preempt w)"
proof -
  show t: "keeps (stream a c n f) (serial_irq_tx_cb w)" and r: "keeps (stream a c n f) (serial_irq_rx_cb w k)"
      and "keeps (stream a c n f) (trigger_send w)" for k
    unfolding serial_irq_tx_cb_def serial_irq_rx_cb_def trigger_send_def by (intro keeps send_bytes_stream rx_loop_stream; simp)+
  show "keeps (stream a c n f) (preempt w)"
    unfolding preempt_def by (intro keeps t r; simp)
qed

lemma put_byte_stream:
  assumes "stream a c n f s"
  shows "wp (put_byte w x) (\<lambda>ok t. stream (if ok then a @ [x] else a) c c f t) s"
proof -
  have le: "stream a c n f u \<Longrightarrow> stream a c c f u" for a n u
    using ring_size_le [of "tx_buffer u"] by (auto simp: stream_def)
  have last: "wp (do { preempt w; trigger_send w; return True }) (\<lambda>ok t. stream (if ok then a @ [x] else a) c c f t) u"
    if "stream (a @ [x]) c c f u" for u
    by (rule wp_seq [OF interrupt_stream(4) that], rule wp_seq [OF interrupt_stream(3)]) (simp_all add: wp)
  have room: "stream (a @ [x]) c c f (t\<lparr>tx_buffer := ring_put x (tx_buffer t)\<rparr>)"
    if "stream a c k f t" "k < c" for t k
  proof -
    have "queued (ring_put x (tx_buffer t)) = queued (tx_buffer t) @ [x]"
      using that ring_put_queued [of "tx_buffer t" x] by (simp add: stream_def)
    moreover have "ring_size (ring_put x (tx_buffer t)) \<le> c"
      using that ring_size_le [of "ring_put x (tx_buffer t)"] ring_put_ok [of "tx_buffer t" x] by (simp add: stream_def)
    ultimately show ?thesis using that ring_put_ok [of "tx_buffer t" x] by (auto simp: stream_def)
  qed
  have rest: "wp (do { preempt w; modify (\<lambda>s. s\<lparr>tx_buffer := ring_put x (tx_buffer s)\<rparr>); preempt w; trigger_send w; return True })
      (\<lambda>ok t. stream (if ok then a @ [x] else a) c c f t) t" if t: "stream a c k f t" "k < c" for t k
    by (rule wp_seq [OF interrupt_stream(4) t(1)])
      (simp only: wp_bind [of "modify _"] wp_modify last room [OF _ t(2)])
  show ?thesis
    unfolding put_byte_def
  proof (rule wp_seq [OF interrupt_stream(4) assms])
    fix t
    assume t: "stream a c n f t"
    show "wp (do {
       b \<leftarrow> gets tx_buffer;
       if ring_full b then return False
       else do {
         preempt w;
         modify (\<lambda>s. s\<lparr>tx_buffer := ring_put x (tx_buffer s)\<rparr>);
         preempt w;
         trigger_send w;
         return True
       }
     }) (\<lambda>ok t. stream (if ok then a @ [x] else a) c c f t) t"
    proof (cases "ring_full (tx_buffer t)")
      case True
      then show ?thesis using le [OF t] by (simp add: wp)
    next
      case False
      then have lt: "ring_size (tx_buffer t) < c" using t by (auto simp: stream_def ring_ok_def ring_size_def)
      have "stream a c (ring_size (tx_buffer t)) f t" using t by (simp add: stream_def)
      from rest [OF this lt] show ?thesis using False by (simp add: wp_gets wp_bind [of "gets _"])
    qed
  qed
qed

lemma stream_cap: "stream a c n f s \<Longrightarrow> stream a c c f s"
  using ring_size_le [of "tx_buffer s"] by (auto simp: stream_def)

lemma put_bytes_stream:
  assumes "stream a c n f s"
  shows "wp (put_bytes w span) (\<lambda>k t. k \<le> length span \<and> stream (a @ take k span) c c f t) s"
proof -
  have room: "stream (a @ d) c c f (t\<lparr>tx_buffer := ring_put_span d (tx_buffer t)\<rparr>)"
    if "stream a c k f t" "k + length d \<le> c" for t k d
  proof -
    have "queued (ring_put_span d (tx_buffer t)) = queued (tx_buffer t) @ d"
      using that ring_put_span_queued [of "tx_buffer t" d] by (simp add: stream_def)
    moreover have "ring_size (ring_put_span d (tx_buffer t)) \<le> c"
      using that ring_size_le [of "ring_put_span d (tx_buffer t)"] ring_put_span_ok [of "tx_buffer t" d]
      by (simp add: stream_def)
    ultimately show ?thesis using that ring_put_span_ok [of "tx_buffer t" d] by (auto simp: stream_def)
  qed
  have rest: "wp (do { preempt w; modify (\<lambda>s. s\<lparr>tx_buffer := ring_put_span d (tx_buffer s)\<rparr>); preempt w; trigger_send w; return (length d) })
      (\<lambda>k t. k = length d \<and> stream (a @ d) c c f t) t"
    if t: "stream a c k f t" "k + length d \<le> c" for t k d
    by (rule wp_seq [OF interrupt_stream(4) t(1)], simp only: wp_bind [of "modify _"] wp_modify,
        rule wp_seq [OF interrupt_stream(4) room [OF _ t(2)]], assumption, rule wp_seq [OF interrupt_stream(3)])
      (simp_all add: wp)
  show ?thesis
    unfolding put_bytes_def
  proof (rule wp_seq [OF interrupt_stream(4) assms])
    fix t
    assume t: "stream a c n f t"
    let ?d = "take (min (ring_capacity (tx_buffer t)) (length span)) span"
    have s: "stream a c (ring_size (tx_buffer t)) f t" using t by (simp add: stream_def)
    have "ring_size (tx_buffer t) + length ?d \<le> c"
      using t ring_size_le [of "tx_buffer t"] by (auto simp: stream_def ring_capacity_def)
    note fits = rest [OF s this]
    show "wp (do {
       b \<leftarrow> gets tx_buffer;
       let data = take (min (ring_capacity b) (length span)) span;
       preempt w;
       modify (\<lambda>s. s\<lparr>tx_buffer := ring_put_span data (tx_buffer s)\<rparr>);
       preempt w;
       trigger_send w;
       return (length data)
     }) (\<lambda>k t. k \<le> length span \<and> stream (a @ take k span) c c f t) t"
      unfolding wp_bind [of "gets _"] wp_gets Let_def
      by (rule wp_mono [OF fits]) auto
  qed
qed

lemma write_loop_stream:
  "stream a c n f s \<Longrightarrow> wp (write_loop w fuel x) (\<lambda>ok t. stream (if ok then a @ [x] else a) c c f t) s"
proof (induction fuel arbitrary: s n)
  case 0
  then show ?case using stream_cap by (simp add: wp)
next
  case (Suc fuel)
  then show ?case
    unfolding write_loop.simps wp_bind by (intro wp_mono [OF put_byte_stream [OF Suc.prems]]) (auto simp: wp split: if_splits)
qed

lemma write_span_loop_stream:
  "stream a c n f s \<Longrightarrow> wp (write_span_loop w fuel xs)
    (\<lambda>ok t. \<exists>k\<le>length xs. stream (a @ take k xs) c c f t \<and> (ok \<longrightarrow> k = length xs)) s"
proof (induction fuel arbitrary: s n a xs)
  case 0
  then show ?case using stream_cap [of a c n f s] by (auto simp: wp intro!: exI [of _ 0])
next
  case (Suc fuel)
  show ?case
  proof (cases "xs = []")
    case True
    then show ?thesis using stream_cap [OF Suc.prems] by (auto simp: wp)
  next
    case False
    have "wp (write_span_loop w fuel (drop k xs)) (\<lambda>ok t. \<exists>k\<le>length xs. stream (a @ take k xs) c c f t \<and> (ok \<longrightarrow> k = length xs)) t"
      if k: "k \<le> length xs \<and> stream (a @ take k xs) c c f t" for k t
    proof (rule wp_mono [OF Suc.IH [OF conjunct2 [OF k]]])
      fix ok u
      assume "\<exists>j\<le>length (drop k xs). stream ((a @ take k xs) @ take j (drop k xs)) c c f u \<and> (ok \<longrightarrow> j = length (drop k xs))"
      then obtain j where "j \<le> length xs - k" "stream (a @ take (k + j) xs) c c f u" "ok \<longrightarrow> j = length xs - k"
        by (auto simp: take_add)
      then show "\<exists>k\<le>length xs. stream (a @ take k xs) c c f u \<and> (ok \<longrightarrow> k = length xs)"
        using k by (intro exI [of _ "k + j"]) auto
    qed
    then show ?thesis
      using False unfolding write_span_loop.simps by (simp add: wp_bind wp_mono [OF put_bytes_stream [OF Suc.prems]])
  qed
qed

text \<open>
  C28. Whatever interrupts arrive and however the line answers, \<open>WriteBytes\<close> lets the bytes out in order, after
  those already in the buffer, without losing or repeating one and without an invalid access: the bytes passed to
  the line so far followed by those in the buffer are always the old ones followed by a part of the new, and by
  all of them when it returns.
\<close>

theorem write_bytes_in_order:
  assumes "ring_ok (tx_buffer s)" and "ring_ok (rx_buffer s)"
  shows "wp (WriteBytes w fuel data)
    (\<lambda>r t. fault t = fault s \<and> (\<exists>k\<le>length data.
       sent (history t) @ queued (tx_buffer t) = sent (history s) @ queued (tx_buffer s) @ take k data \<and>
       (r = None \<or> r = Some (length data) \<and> k = length data))) s"
proof -
  define a c where "a = sent (history s) @ queued (tx_buffer s)" and "c = ring_cap (tx_buffer s)"
  have s: "stream a c c (fault s) s" using assms by (simp add: stream_def a_def c_def)
  have out: "\<exists>k\<le>length data. stream (a @ take k data) c c (fault s) t \<and> P k \<Longrightarrow>
      fault t = fault s \<and> (\<exists>k\<le>length data.
        sent (history t) @ queued (tx_buffer t) = sent (history s) @ queued (tx_buffer s) @ take k data \<and> P k)" for t P
    by (auto simp: stream_def a_def)
  show ?thesis
    unfolding WriteBytes_def
  proof (rule wp_seq [OF stream_locks(3) s], unfold wp_bind, rule wp_mono [OF write_span_loop_stream], assumption)
    fix t ok u
    assume u: "\<exists>k\<le>length data. stream (a @ take k data) c c (fault s) u \<and> (ok \<longrightarrow> k = length data)"
    then show "wp (if ok then unlock_write w \<bind> (\<lambda>_. return (Some (length data))) else return None)
        (\<lambda>r t. fault t = fault s \<and> (\<exists>k\<le>length data.
          sent (history t) @ queued (tx_buffer t) = sent (history s) @ queued (tx_buffer s) @ take k data \<and>
          (r = None \<or> r = Some (length data) \<and> k = length data))) u"
    proof (cases ok)
      case True
      then have "stream (a @ data) c c (fault s) u" using u by auto
      note full = keepsD [OF stream_locks(4) this]
      show ?thesis
        unfolding if_P [OF True] wp_bind wp_return
        by (rule wp_mono [OF full], intro out) (auto intro!: exI [of _ "length data"])
    next
      case False
      then show ?thesis using u by (simp add: wp) (rule out [of _ "\<lambda>_. True", simplified], auto)
    qed
  qed
qed


section \<open>Writing ends while interrupts arrive\<close>

definition interrupting :: "io_lib \<Rightarrow> bool" where
  "interrupting w \<longleftrightarrow> (\<forall>h. ret (io_env w h Interrupt) = 1)"

text \<open>An interrupt makes room for a byte.\<close>

lemma interrupt_makes_room:
  assumes "interrupting w" and s: "stream a c n f s"
  shows "wp (preempt w) (\<lambda>_ t. stream a c (c - 1) f t) s"
proof -
  have c: "0 < c" using s by (auto simp: stream_def ring_ok_def)
  have tx: "wp (serial_irq_tx_cb w) (\<lambda>_ t. stream a c (c - 1) f t) u" if u: "stream a c n f u" for u
  proof (cases "ring_get (tx_buffer u)")
    case None
    then have "ring_empty (tx_buffer u)" by (simp add: ring_get_def split: if_splits)
    moreover have "ring_size (tx_buffer u) = 0" using calculation by (simp add: ring_empty_def ring_size_def)
    ultimately show ?thesis using u by (simp add: serial_irq_tx_cb_def wp stream_def)
  next
    case (Some p)
    obtain x b where p: "p = (x, b)" by (cases p)
    note pass = stream_pass [OF u Some [unfolded p]]
    have ne: "\<not> ring_empty (tx_buffer u)" using Some by (auto simp: ring_get_def)
    define v where "v = u\<lparr>tx_buffer := b, tx_sending := True,
      history := (SerialIsWritable, io_env w ((SerialPut x, io_env w (history u) (SerialPut x)) # history u) SerialIsWritable) #
        (SerialPut x, io_env w (history u) (SerialPut x)) # history u\<rparr>"
    have v: "stream a c (c - 1) f v"
    proof -
      have "stream a c n f v" unfolding v_def by (rule pass(1)) simp
      moreover have "ring_size (tx_buffer u) \<le> c" using u ring_size_le [of "tx_buffer u"] by (auto simp: stream_def)
      ultimately show ?thesis using pass(2) by (auto simp: stream_def v_def)
    qed
    have "wp (send_loop w (Suc (ring_size (tx_buffer u)))) (\<lambda>ended t. ended \<and> stream a c (c - 1) f t) u"
      using send_loop_stream [OF v, of "ring_size (tx_buffer u)"] v pass(2)
      by (simp add: wp Some p v_def)
    from wp_mono [OF this] show ?thesis
      using ne by (auto simp: serial_irq_tx_cb_def send_bytes_def wp elim!: wp_mono)
  qed
  show ?thesis
    using tx s assms(1) by (simp add: preempt_def wp interrupting_def)
qed

lemma put_bytes_progress:
  assumes "interrupting w" and "stream a c n f s" and "span \<noteq> []"
  shows "wp (put_bytes w span) (\<lambda>k _. 0 < k) s"
proof -
  show ?thesis
    unfolding put_bytes_def
  proof (rule wp_then [OF interrupt_makes_room [OF assms(1,2)]])
    fix t
    assume t: "stream a c (c - 1) f t"
    have "0 < c" using t by (auto simp: stream_def ring_ok_def)
    moreover have "ring_size (tx_buffer t) \<le> c - 1" and cap: "ring_cap (tx_buffer t) = c" using t by (simp_all add: stream_def)
    ultimately have "ring_size (tx_buffer t) < ring_cap (tx_buffer t)" by linarith
    then have pos: "0 < min (ring_capacity (tx_buffer t)) (length span)"
      using assms(3) by (simp add: ring_capacity_def)
    show "wp (do {
       b \<leftarrow> gets tx_buffer;
       let data = take (min (ring_capacity b) (length span)) span;
       preempt w;
       modify (\<lambda>s. s\<lparr>tx_buffer := ring_put_span data (tx_buffer s)\<rparr>);
       preempt w;
       trigger_send w;
       return (length data)
     }) (\<lambda>k _. 0 < k) t"
      unfolding wp_bind [of "gets _"] wp_gets Let_def by ((rule wp_then [OF wp_total])+, use pos in \<open>simp add: wp\<close>)
  qed
qed

lemma write_span_loop_ends:
  "interrupting w \<Longrightarrow> stream a c n f s \<Longrightarrow> length xs \<le> fuel \<Longrightarrow> wp (write_span_loop w fuel xs) (\<lambda>ok _. ok) s"
proof (induction fuel arbitrary: s n a xs)
  case 0
  then show ?case by (simp add: wp)
next
  case (Suc fuel)
  show ?case
  proof (cases "xs = []")
    case False
    note step = wp_conj [OF put_bytes_stream [OF Suc.prems(2), of w xs] put_bytes_progress [OF Suc.prems(1,2) False]]
    have "wp (put_bytes w xs) (\<lambda>k t. wp (write_span_loop w fuel (drop k xs)) (\<lambda>ok _. ok) t) s"
      by (rule wp_mono [OF step]) (use Suc.prems(1,3) in \<open>auto intro!: Suc.IH\<close>)
    then show ?thesis using False by (simp add: wp_bind)
  qed (simp add: wp)
qed

text \<open>
  C29. While transmit interrupts keep arriving, \<open>WriteBytes\<close> returns after at most as many rounds as there are
  bytes, however long the data are and however small the buffer.
\<close>

theorem write_bytes_returns:
  assumes "interrupting w" and "ring_ok (tx_buffer s)" and "ring_ok (rx_buffer s)" and "length data \<le> fuel"
  shows "wp (WriteBytes w fuel data) (\<lambda>r _. r = Some (length data)) s"
proof -
  have s: "stream (sent (history s) @ queued (tx_buffer s)) (ring_cap (tx_buffer s)) (ring_cap (tx_buffer s)) (fault s) s"
    using assms by (simp add: stream_def)
  show ?thesis
    unfolding WriteBytes_def
    by (rule wp_seq [OF stream_locks(3) s], unfold wp_bind, rule wp_mono [OF write_span_loop_ends [OF assms(1) _ assms(4)]])
      (assumption, simp add: wp, rule wp_mono [OF wp_total], simp add: wp)
qed

section \<open>Reception\<close>

fun received :: "(io_call \<times> reply) list \<Rightarrow> byte list" where
  "received [] = []"
| "received ((SerialGet, r) # h) = received h @ [of_int (ret r)]"
| "received (c # h) = received h"

lemma rx_loop_queue:
  "ring_ok (rx_buffer s) \<Longrightarrow> wp (rx_loop w fuel buf)
    (\<lambda>ended t. ended \<longrightarrow> ring_ok (rx_buffer t) \<and> ring_cap (rx_buffer t) = ring_cap (rx_buffer s) \<and>
      (\<exists>new. received (history t) = received (history s) @ new \<and>
        queued (rx_buffer t) = last_n (ring_cap (rx_buffer s)) (queued (rx_buffer s) @ buf @ new))) s"
proof (induction fuel arbitrary: s buf)
  case 0
  then show ?case by (simp add: wp)
next
  case (Suc fuel)
  define e where "e = io_env w (history s) SerialIsReadable"
  define g where "g = io_env w ((SerialIsReadable, e) # history s) SerialGet"
  define x :: byte where "x = of_int (ret g)"
  define u where "u = s\<lparr>history := (SerialGet, g) # (SerialIsReadable, e) # history s\<rparr>"
  define v where "v = u\<lparr>rx_buffer := ring_put_span (buf @ [x]) (rx_buffer s)\<rparr>"
  show ?case
  proof (cases "ret e = 0")
    case True
    then show ?thesis
      using Suc.prems by (simp add: wp e_def [symmetric] ring_put_span_ok ring_put_span_queued)
  next
    case False
    have step: "wp (rx_loop w (Suc fuel) buf) Q s =
        (if Suc (length buf) = peripheral_size w then wp (rx_loop w fuel []) Q v else wp (rx_loop w fuel (buf @ [x])) Q u)" for Q
      using False by (simp add: wp Let_def e_def [symmetric] g_def [symmetric] x_def [symmetric] u_def v_def)
    have u: "received (history u) = received (history s) @ [x]" "rx_buffer u = rx_buffer s"
      by (simp_all add: u_def x_def)
    have v: "received (history v) = received (history s) @ [x]" "ring_ok (rx_buffer v)"
        "ring_cap (rx_buffer v) = ring_cap (rx_buffer s)"
        "queued (rx_buffer v) = last_n (ring_cap (rx_buffer s)) (queued (rx_buffer s) @ buf @ [x])"
      using Suc.prems by (simp_all add: v_def u ring_put_span_ok ring_put_span_queued)
    show ?thesis
    proof (cases "Suc (length buf) = peripheral_size w")
      case True
      show ?thesis
        unfolding step if_P [OF True]
        by (rule wp_mono [OF Suc.IH [OF v(2)]]) (auto simp: v last_n_append)
    next
      case False
      show ?thesis
        unfolding step if_not_P [OF False]
        by (rule wp_mono [OF Suc.IH]) (use Suc.prems in \<open>auto simp: u\<close>)
    qed
  qed
qed

text \<open>
  A receive interrupt that ends has put everything it read from the line into the buffer, in order and in
  pieces of any size; when there is too much, what remains is the end of the old data followed by the new.
\<close>

lemma rx_interrupt_stores:
  assumes "ring_ok (rx_buffer s)"
  shows "wp (serial_irq_rx_cb w fuel)
    (\<lambda>ended t. \<not> ended \<or> (\<exists>new. received (history t) = received (history s) @ new \<and>
        queued (rx_buffer t) = last_n (ring_cap (rx_buffer s)) (queued (rx_buffer s) @ new))) s"
  unfolding serial_irq_rx_cb_def by (rule wp_mono [OF rx_loop_queue [OF assms]]) auto

section \<open>Examples\<close>

text \<open>Two bytes of room, a line that takes one byte per interrupt.\<close>

definition slow_line :: io_lib where
  "slow_line = \<lparr>io_env = (\<lambda>h c. \<lparr>ret = (case c of Interrupt \<Rightarrow> 1 | IoOs c \<Rightarrow> 1
       | SerialIsReadable \<Rightarrow> if length h < 6 then 1 else 0 | SerialGet \<Rightarrow> int (length h) | _ \<Rightarrow> 0), outs = [], payload = []\<rparr>),
     rtos_lock = True, peripheral_size = 2\<rparr>"

definition idle_io :: sys_io where
  "idle_io = \<lparr>history = [], fault = False, io_serial = True, tx_buffer = ring_new [0, 0], tx_sending = False,
     rx_buffer = ring_new [0, 0], read_lock = 1, write_lock = 2\<rparr>"

lemma idle_io_ok: "ring_ok (tx_buffer idle_io)" "ring_ok (rx_buffer idle_io)"
  by (simp_all add: idle_io_def ring_new_queued)

lemma write_bytes_in_order_witness:
  "wp (WriteBytes slow_line 3 [1, 2, 3])
    (\<lambda>r t. \<not> fault t \<and> (\<exists>k\<le>3. sent (history t) @ queued (tx_buffer t) = take k [1, 2, 3])) idle_io"
  by (rule wp_mono [OF write_bytes_in_order [OF idle_io_ok, of slow_line 3 "[1, 2, 3]"]])
    (auto simp: idle_io_def ring_new_queued numeral_3_eq_3)

lemma write_bytes_returns_witness: "wp (WriteBytes slow_line 3 [1, 2, 3]) (\<lambda>r _. r = Some 3) idle_io"
proof -
  have "interrupting slow_line" by (simp add: interrupting_def slow_line_def)
  from write_bytes_returns [OF this idle_io_ok, of "[1, 2, 3]" 3] show ?thesis by (simp add: numeral_3_eq_3)
qed

lemma rx_interrupt_stores_witness:
  "wp (serial_irq_rx_cb slow_line 5) (\<lambda>ended t. \<not> ended \<or> (\<exists>new. received (history t) = new \<and>
     queued (rx_buffer t) = last_n 2 new)) idle_io"
  by (rule wp_mono [OF rx_interrupt_stores [OF idle_io_ok(2), of slow_line 5]])
    (auto simp: idle_io_def ring_new_queued numeral_2_eq_2)

end
