(* ===== verification/Pw_Base.thy ===== *)
theory Pw_Base
  imports Extern
begin

text \<open>
  What the Pigweed backends of \<open>components/pigweed\<close> share: the calls they make, the checks, \<open>KernelLock\<close> of
  \<open>pw_cmsis_rtos_util/kernel_lock.cc\<close>, the loops of \<open>repeat.h\<close>, the interrupt spin lock of
  \<open>pw_sync_cmsis_rtos/native_interrupt_spin_lock.cc\<close> and the sleeping of \<open>pw_thread_cmsis_rtos/sleep.cc\<close>.

  A failed \<open>PW_CHECK\<close> ends the program; here it sets \<open>fault\<close> and leaves the function, so what a model does
  after a fault says nothing about the code.  A count of ticks, \<open>int64_t\<close> in the code, is an integer.
\<close>

section \<open>Calls and state\<close>

datatype pw_call =
    PwOs os_call | PwThreadGetId | PwFlagsSet int u32 | PwFlagsClear u32 | PwFlagsWait u32 u32 u32
  | PwNew nat
  | PwAs int pw_call | PwSemGetCount int | PwInInterrupt | PwGetBasepri | PwSetBasepri u32 | PwBarrier | PwCallback int

record pw_world = "pw_call world" +
  lock_counter :: int
  prev_lock :: int

type_synonym ('z, 'a) pw_m = "('z pw_world_scheme, 'a) state"

abbreviation (input) osErrorTimeout :: int where "osErrorTimeout \<equiv> - 2"
abbreviation (input) osErrorResource :: int where "osErrorResource \<equiv> - 3"
abbreviation (input) osFlagsErrorTimeout :: u32 where "osFlagsErrorTimeout \<equiv> 0xFFFFFFFE"

text \<open>\<open>PW_CHECK\<close>, with what the function would answer if it went on.\<close>

definition checked :: "bool \<Rightarrow> 'a \<Rightarrow> ('z, 'a) pw_m \<Rightarrow> ('z, 'a) pw_m" where
  "checked b a m = (if b then m else do { crash; return a })"

lemma wp_checked [wp]: "wp (checked b a m) Q s \<longleftrightarrow> (if b then wp m Q s else Q a (s\<lparr>fault := True\<rparr>))"
  by (simp add: checked_def wp)

lemma keeps_checked [keeps]:
  "(b \<Longrightarrow> keeps P m) \<Longrightarrow> (\<And>s. P s \<Longrightarrow> P (s\<lparr>fault := True\<rparr>)) \<Longrightarrow> keeps P (checked b a m)"
  by (simp add: checked_def) (intro keeps impI conjI; simp)

text \<open>Helpers of the thread flags.\<close>

definition bit_mask :: "nat \<Rightarrow> u32" where
  "bit_mask pos = push_bit pos 1"

definition is_bit_set :: "u32 \<Rightarrow> nat \<Rightarrow> bool" where
  "is_bit_set x pos \<longleftrightarrow> x AND bit_mask pos = bit_mask pos"

definition is_os_flags_error :: "u32 \<Rightarrow> bool" where
  "is_os_flags_error x \<longleftrightarrow> x \<ge> osFlagsError"

lemma byte_flag: "x AND push_bit k 1 = push_bit k 1 \<longleftrightarrow> bit x k" if "k < 8" for x :: byte
proof -
  have "bit (push_bit k 1 :: byte) n \<longleftrightarrow> n = k" if "n < 8" for n
    using that unfolding bit_push_bit_iff bit_1_iff by auto
  then have "x AND push_bit k 1 = push_bit k 1 \<longleftrightarrow> (\<forall>n<8. (bit x n \<and> n = k) = (n = k))"
    using bit_eq_iff [of "x AND push_bit k 1" "push_bit k 1"] by (simp add: possible_bit_word bit_and_iff del: push_bit_of_1)
  also have "\<dots> \<longleftrightarrow> bit x k" using that by blast
  finally show ?thesis .
qed

section \<open>The kernel lock\<close>

definition kernel_lock :: "pw_call env \<Rightarrow> ('z, unit) pw_m" where
  "kernel_lock env =
     do {
       n \<leftarrow> gets lock_counter;
       do_if (n = 0)
         (do {
            p \<leftarrow> call env (PwOs OsKernelLock);
            modify (\<lambda>s. s\<lparr>prev_lock := p\<rparr>);
            do_if (p < 0) crash
          });
       modify (\<lambda>s. s\<lparr>lock_counter := lock_counter s + 1\<rparr>)
     }"

definition kernel_unlock :: "pw_call env \<Rightarrow> ('z, unit) pw_m" where
  "kernel_unlock env =
     do {
       modify (\<lambda>s. s\<lparr>lock_counter := lock_counter s - 1\<rparr>);
       n \<leftarrow> gets lock_counter;
       do_if (n = 0)
         (do { p \<leftarrow> gets prev_lock; r \<leftarrow> call env (PwOs (OsKernelRestoreLock p)); do_if (r < 0) crash })
     }"

text \<open>A block with a \<open>KernelLockGuard\<close>: the guard's destructor unlocks on every way out.\<close>

definition locked :: "pw_call env \<Rightarrow> ('z, 'a) pw_m \<Rightarrow> ('z, 'a) pw_m" where
  "locked env m = do { kernel_lock env; a \<leftarrow> m; kernel_unlock env; return a }"

section \<open>Loops over 64-bit times\<close>

abbreviation (input) less_than_forever :: int where "less_than_forever \<equiv> 4294967293"

text \<open>\<open>repeat_for_ticks\<close> for a callback that leaves the number of ticks consumed as it is, as all do.\<close>

function repeat_for_ticks :: "int \<Rightarrow> 'r \<Rightarrow> (u32 \<Rightarrow> 'r \<Rightarrow> ('s, bool \<times> 'r) state) \<Rightarrow> ('s, 'r) state" where
  "repeat_for_ticks ticks result callback =
     (if ticks > 0 then
        do {
          (more, result) \<leftarrow> callback (of_int (min ticks less_than_forever)) result;
          if more then repeat_for_ticks (ticks - min ticks less_than_forever) result callback else return result
        }
      else return result)"
  by pat_completeness auto
termination
  by (relation "measure (\<lambda>(ticks, result, callback). nat ticks)") auto

declare repeat_for_ticks.simps [simp del]

text \<open>
  \<open>repeat_with_delay\<close>, with the delay of one tick all callers give.  While the caller is delayed other threads
  run: \<open>rely\<close> is what they do.
\<close>

function repeat_with_delay ::
  "pw_call env \<Rightarrow> ('z pw_world_scheme \<Rightarrow> 'z pw_world_scheme) \<Rightarrow> int \<Rightarrow> 'r \<Rightarrow>
     ('r \<Rightarrow> ('z, bool \<times> 'r) pw_m) \<Rightarrow> ('z, 'r) pw_m" where
  "repeat_with_delay env rely ticks result callback =
     (if ticks > 0 then
        do {
          (more, result) \<leftarrow> callback result;
          if more then do {
            tell env (PwOs (OsDelay 1));
            modify rely;
            repeat_with_delay env rely (ticks - 1) result callback
          }
          else return result
        }
      else return result)"
  by pat_completeness auto
termination
  by (relation "measure (\<lambda>(env, rely, ticks, result, callback). nat ticks)") auto

declare repeat_with_delay.simps [simp del]

section \<open>Sleeping\<close>

function sleep_for_loop :: "pw_call env \<Rightarrow> int \<Rightarrow> ('z, unit) pw_m" where
  "sleep_for_loop env ticks =
     (if ticks > 0 then
        do {
          tell env (PwOs (OsDelay (of_int (max 1 (min ticks less_than_forever)))));
          sleep_for_loop env (ticks - max 1 (min ticks less_than_forever))
        }
      else return ())"
  by pat_completeness auto
termination
  by (relation "measure (\<lambda>(env, ticks). nat ticks)") auto

declare sleep_for_loop.simps [simp del]

definition sleep_for :: "pw_call env \<Rightarrow> int \<Rightarrow> ('z, unit) pw_m" where
  "sleep_for env ticks =
     do { me \<leftarrow> call env PwThreadGetId; checked (me \<noteq> 0) () (sleep_for_loop env ticks) }"

section \<open>The interrupt spin lock\<close>

text \<open>The members of one lock and the static count of nested critical sections.\<close>

record spin = pw_world +
  spin_locked :: bool
  saved_irq_state :: u32
  nested_critical_sections :: int

type_synonym ('z, 'a) spin_m = "('z spin_scheme, 'a) state"

definition set_target_irq_state :: "pw_call env \<Rightarrow> ('z, unit) spin_m" where
  "set_target_irq_state env =
     do {
       p \<leftarrow> call env PwGetBasepri;
       modify (\<lambda>s. s\<lparr>saved_irq_state := of_int p\<rparr>);
       tell env (PwSetBasepri 16);
       tell env PwBarrier
     }"

definition enter_critical_section :: "pw_call env \<Rightarrow> ('z, unit) spin_m" where
  "enter_critical_section env =
     do {
       set_target_irq_state env;
       modify (\<lambda>s. s\<lparr>nested_critical_sections := nested_critical_sections s + 1\<rparr>);
       tell env PwBarrier
     }"

definition restore_saved_irq_state :: "pw_call env \<Rightarrow> ('z, unit) spin_m" where
  "restore_saved_irq_state env =
     do { p \<leftarrow> gets saved_irq_state; tell env (PwSetBasepri p); tell env PwBarrier }"

definition exit_critical_section :: "pw_call env \<Rightarrow> ('z, unit) spin_m" where
  "exit_critical_section env =
     do {
       modify (\<lambda>s. s\<lparr>nested_critical_sections := nested_critical_sections s - 1\<rparr>);
       n \<leftarrow> gets nested_critical_sections;
       do_if (n = 0) (restore_saved_irq_state env)
     }"

definition clear_irq_state :: "pw_call env \<Rightarrow> ('z, unit) spin_m" where
  "clear_irq_state env = do { tell env (PwSetBasepri 0); tell env PwBarrier }"

definition spin_try_lock :: "pw_call env \<Rightarrow> ('z, bool) spin_m" where
  "spin_try_lock env =
     do {
       irq \<leftarrow> call env PwInInterrupt;
       (if irq \<noteq> 0 then set_target_irq_state env else enter_critical_section env);
       held \<leftarrow> gets spin_locked;
       checked (\<not> held) True (do { modify (\<lambda>s. s\<lparr>spin_locked := True\<rparr>); return True })
     }"

text \<open>The loop of \<open>lock\<close> ends at once: \<open>try_lock\<close> answers true.\<close>

definition spin_lock :: "pw_call env \<Rightarrow> ('z, unit) spin_m" where
  "spin_lock env = do { _ \<leftarrow> spin_try_lock env; return () }"

definition spin_unlock :: "pw_call env \<Rightarrow> ('z, unit) spin_m" where
  "spin_unlock env =
     do {
       modify (\<lambda>s. s\<lparr>spin_locked := False\<rparr>);
       irq \<leftarrow> call env PwInInterrupt;
       if irq \<noteq> 0 then clear_irq_state env else exit_critical_section env
     }"

section \<open>Lemmas\<close>

text \<open>A block of the kernel lock leaves the counter as it found it.\<close>

definition counter_is :: "int \<Rightarrow> 'z pw_world_scheme \<Rightarrow> bool" where
  "counter_is n s \<longleftrightarrow> lock_counter s = n"

lemma locked_counter:
  fixes m :: "('z, 'a) pw_m"
  assumes "keeps (counter_is (n + 1)) m"
  shows "keeps (counter_is n) (locked env m)"
proof (rule keepsI)
  fix s :: "'z pw_world_scheme"
  assume s: "counter_is n s"
  have lock: "wp (kernel_lock env) (\<lambda>_. counter_is (n + 1)) s"
    using s by (simp add: kernel_lock_def wp counter_is_def)
  have unlock: "wp (kernel_unlock env \<bind> (\<lambda>_. return a)) (\<lambda>_. counter_is n) t" if "counter_is (n + 1) t" for a t
    using that by (simp add: kernel_unlock_def wp counter_is_def)
  show "wp (locked env m) (\<lambda>_. counter_is n) s"
    unfolding locked_def by (rule wp_then [OF lock], rule wp_seq [OF assms], assumption, rule unlock)
qed

text \<open>The delays of a run.\<close>

fun delays :: "(pw_call \<times> reply) list \<Rightarrow> int list" where
  "delays [] = []"
| "delays ((PwOs (OsDelay n), r) # h) = delays h @ [uint n]"
| "delays (c # h) = delays h"

lemma uint_chunk: "0 < t \<Longrightarrow> uint (of_int (max 1 (min t less_than_forever)) :: u32) = min t less_than_forever"
  by (simp add: uint_word_of_int)

lemma sleep_for_loop_delays:
  "wp (sleep_for_loop env ticks) (\<lambda>_ t. \<exists>ds. delays (history t) = delays (history s) @ ds \<and>
     sum_list ds = max 0 ticks \<and> (\<forall>d\<in>set ds. 1 \<le> d \<and> d \<le> less_than_forever)) s"
proof (induction env ticks arbitrary: s rule: sleep_for_loop.induct)
  case (1 env ticks)
  show ?case
  proof (cases "0 < ticks")
    case False
    then show ?thesis by (subst sleep_for_loop.simps) (simp add: wp)
  next
    case True
    define c where "c = min ticks less_than_forever"
    have c: "max 1 (min ticks less_than_forever) = c" "1 \<le> c" "c \<le> less_than_forever" "c \<le> ticks"
      using True by (auto simp: c_def)
    define u where "u = s\<lparr>history := (PwOs (OsDelay (of_int c)), env (history s) (PwOs (OsDelay (of_int c)))) # history s\<rparr>"
    have u: "delays (history u) = delays (history s) @ [c]"
      using uint_chunk [OF True] c(1) by (simp add: u_def c_def)
    have "wp (sleep_for_loop env (ticks - c)) (\<lambda>_ t. \<exists>ds. delays (history t) = delays (history u) @ ds \<and>
        sum_list ds = max 0 (ticks - c) \<and> (\<forall>d\<in>set ds. 1 \<le> d \<and> d \<le> less_than_forever)) u"
      using 1 [OF True, of u] unfolding c(1) .
    then have "wp (sleep_for_loop env (ticks - c)) (\<lambda>_ t. \<exists>ds. delays (history t) = delays (history s) @ ds \<and>
        sum_list ds = max 0 ticks \<and> (\<forall>d\<in>set ds. 1 \<le> d \<and> d \<le> less_than_forever)) u"
    proof (rule wp_mono)
      fix a t
      assume "\<exists>ds. delays (history t) = delays (history u) @ ds \<and>
        sum_list ds = max 0 (ticks - c) \<and> (\<forall>d\<in>set ds. 1 \<le> d \<and> d \<le> less_than_forever)"
      then obtain ds where "delays (history t) = delays (history u) @ ds" "sum_list ds = max 0 (ticks - c)"
          "\<forall>d\<in>set ds. 1 \<le> d \<and> d \<le> less_than_forever" by blast
      then show "\<exists>ds. delays (history t) = delays (history s) @ ds \<and>
        sum_list ds = max 0 ticks \<and> (\<forall>d\<in>set ds. 1 \<le> d \<and> d \<le> less_than_forever)"
        using u c by (intro exI [of _ "c # ds"]) auto
    qed
    then show ?thesis
      using True by (subst sleep_for_loop.simps) (simp add: wp c(1) u_def [symmetric])
  qed
qed

end
