(* ===== verification/Pw_Chrono.thy ===== *)
theory Pw_Chrono
  imports Pw_Base
begin

text \<open>
  The clock, the timer and the sleeping of the Pigweed backends: \<open>pw_chrono_cmsis_rtos/system_clock.cc\<close> and
  \<open>system_timer.cc\<close>, and \<open>sleep_until\<close> of \<open>pw_thread_cmsis_rtos/sleep.cc\<close>.

  The clock widens the 32-bit tick count of the kernel to 64 bits.  The timer is given the calls of its user
  and of the kernel, when the kernel's timer expires, in any order; the kernel lock makes each one step.  The
  user's callback is an event of the history.
\<close>

section \<open>The clock\<close>

record clock = spin +
  tick_count_high :: u32
  tick_count_low :: u32

definition wide_count :: "u32 \<Rightarrow> u32 \<Rightarrow> int" where
  "wide_count hi lo = sint (push_bit 32 (ucast hi :: u64) OR ucast lo)"

definition GetSystemClockTickCount :: "pw_call env \<Rightarrow> ('z clock_scheme, int) state" where
  "GetSystemClockTickCount env =
     do {
       spin_lock env;
       r \<leftarrow> call env (PwOs OsKernelGetTickCount);
       let new_tick_count = uint (of_int r :: u32);
       low \<leftarrow> gets tick_count_low;
       do_if (new_tick_count < uint low) (modify (\<lambda>s. s\<lparr>tick_count_high := tick_count_high s + 1\<rparr>));
       modify (\<lambda>s. s\<lparr>tick_count_low := of_int new_tick_count\<rparr>);
       hi \<leftarrow> gets tick_count_high;
       lo \<leftarrow> gets tick_count_low;
       spin_unlock env;
       return (wide_count hi lo)
     }"

definition sleep_until :: "pw_call env \<Rightarrow> int \<Rightarrow> ('z clock_scheme, unit) state" where
  "sleep_until env deadline =
     do { now \<leftarrow> GetSystemClockTickCount env; sleep_for env (max 1 (min (deadline - now) less_than_forever)) }"

section \<open>The timer\<close>

record timer = clock +
  timer_id :: int
  timer_deadline :: int
  timer_set :: bool

type_synonym 'a timer_m = "(timer, 'a) state"

definition timer_new :: "pw_call env \<Rightarrow> int \<Rightarrow> unit timer_m" where
  "timer_new env kind =
     do {
       modify (\<lambda>s. s\<lparr>timer_set := False\<rparr>);
       i \<leftarrow> call env (PwOs (OsTimerNew kind));
       modify (\<lambda>s. s\<lparr>timer_id := i\<rparr>);
       checked (i \<noteq> 0) () (return ())
     }"

definition timer_unset :: "pw_call env \<Rightarrow> unit timer_m" where
  "timer_unset env = locked env
     (do {
        set \<leftarrow> gets timer_set;
        if \<not> set then return ()
        else do {
          i \<leftarrow> gets timer_id;
          r \<leftarrow> call env (PwOs (OsTimerStop i));
          checked (r = osOK) () (modify (\<lambda>s. s\<lparr>timer_set := False\<rparr>))
        }
      })"

definition timer_delete :: "pw_call env \<Rightarrow> unit timer_m" where
  "timer_delete env =
     do {
       i \<leftarrow> gets timer_id;
       checked (i \<noteq> 0) ()
         (do { timer_unset env; r \<leftarrow> call env (PwOs (OsTimerDelete i)); checked (r = osOK) () (return ()) })
     }"

definition clamp_ticks :: "int \<Rightarrow> int" where
  "clamp_ticks ticks_delta = max 1 (min ticks_delta 4294967294)"

definition timer_set_at :: "pw_call env \<Rightarrow> int \<Rightarrow> unit timer_m" where
  "timer_set_at env deadline = locked env
     (do {
        modify (\<lambda>s. s\<lparr>timer_deadline := deadline\<rparr>);
        timer_unset env;
        now \<leftarrow> GetSystemClockTickCount env;
        modify (\<lambda>s. s\<lparr>timer_set := True\<rparr>);
        i \<leftarrow> gets timer_id;
        r \<leftarrow> call env (PwOs (OsTimerStart i (of_int (clamp_ticks (deadline - now)))));
        checked (r = osOK) () (return ())
      })"

text \<open>
  \<open>freertos\<close>: the kernel's timer is periodic and \<open>Invoke\<close> stops it; otherwise it has stopped by itself.
\<close>

definition unset_after_invoke :: "pw_call env \<Rightarrow> bool \<Rightarrow> unit timer_m" where
  "unset_after_invoke env freertos = (if freertos then timer_unset env else modify (\<lambda>s. s\<lparr>timer_set := False\<rparr>))"

text \<open>The locked block of \<open>Invoke\<close>: the deadline if the user is to be called back.\<close>

definition timer_due :: "pw_call env \<Rightarrow> bool \<Rightarrow> int option timer_m" where
  "timer_due env freertos =
     do {
       deadline \<leftarrow> gets timer_deadline;
       set \<leftarrow> gets timer_set;
       if \<not> set then return None
       else do {
         now \<leftarrow> GetSystemClockTickCount env;
         if now < deadline then do { timer_set_at env deadline; return None }
         else do { unset_after_invoke env freertos; return (Some deadline) }
       }
     }"

definition timer_invoke :: "pw_call env \<Rightarrow> bool \<Rightarrow> unit timer_m" where
  "timer_invoke env freertos =
     do {
       d \<leftarrow> locked env (timer_due env freertos);
       (case d of None \<Rightarrow> return () | Some deadline \<Rightarrow> tell env (PwCallback deadline))
     }"

section \<open>The clock is exact\<close>

lemma wide_count_value:
  assumes "uint hi < 2147483648"
  shows "wide_count hi lo = uint hi * 4294967296 + uint lo"
proof -
  define w where "w = push_bit 32 (ucast hi :: u64) OR ucast lo"
  have lo: "uint lo < 2 ^ 32" using uint_lt2p [of lo] by simp
  have small: "uint hi * 4294967296 < 2 ^ 63" "0 \<le> uint hi" using assms by simp_all
  have hi: "uint (push_bit 32 (ucast hi :: u64)) = push_bit 32 (uint hi)"
    using assms unfolding unsigned_push_bit_eq unsigned_ucast_eq by (simp add: push_bit_eq_mult take_bit_int_eq_self)
  have "push_bit 32 (uint hi) AND uint lo = 0"
  proof (rule bit_eqI)
    fix n
    have "bit (uint lo) n \<Longrightarrow> n < 32" using bit_uint_iff [of lo n] by simp
    then show "bit (push_bit 32 (uint hi) AND uint lo) n \<longleftrightarrow> bit (0::int) n"
      by (auto simp: bit_simps)
  qed
  then have "uint w = uint hi * 2 ^ 32 + uint lo"
    unfolding w_def unsigned_or_eq hi unsigned_ucast_eq using lo
    by (simp add: take_bit_int_eq_self disjunctive_add_eq_or [symmetric] push_bit_eq_mult)
  moreover have "uint w < 2 ^ 63"
    using calculation assms lo by simp
  then have "signed_take_bit 63 (uint w) = uint w"
    by (intro signed_take_bit_int_eq_self) (simp_all add: order_trans [OF _ uint_ge_0])
  then have "sint w = uint w"
    by (simp add: sint_uint)
  ultimately show ?thesis by (simp add: wide_count_def w_def)
qed


text \<open>The time the clock last read, as the number it stands for.\<close>

definition clock_at :: "int \<Rightarrow> 'z clock_scheme \<Rightarrow> bool" where
  "clock_at n s \<longleftrightarrow> uint (tick_count_high s) * 4294967296 + uint (tick_count_low s) = n"

lemma spin_lock_frame:
  "wp (spin_lock env) (\<lambda>_ t. tick_count_high t = tick_count_high s \<and> tick_count_low t = tick_count_low s \<and>
     (\<not> spin_locked s \<longrightarrow> fault t = fault s) \<and> spin_locked t) (s :: 'z clock_scheme)"
  by (simp add: spin_lock_def spin_try_lock_def set_target_irq_state_def enter_critical_section_def wp)

lemma spin_unlock_frame:
  "wp (spin_unlock env) (\<lambda>_ t. tick_count_high t = tick_count_high s \<and> tick_count_low t = tick_count_low s \<and>
     fault t = fault s \<and> \<not> spin_locked t) (s :: 'z clock_scheme)"
  by (simp add: spin_unlock_def clear_irq_state_def exit_critical_section_def restore_saved_irq_state_def wp)

lemma count_step:
  fixes hi lo n0 n1 :: int
  assumes "0 \<le> lo" and "lo < 4294967296" and "hi * 4294967296 + lo = n0" and "n0 \<le> n1" and "n1 < n0 + 4294967296"
  shows "(if n1 mod 4294967296 < lo then hi + 1 else hi) * 4294967296 + n1 mod 4294967296 = n1"
proof -
  define q r where "q = n1 div 4294967296" and "r = n1 mod 4294967296"
  have n1: "n1 = q * 4294967296 + r" "0 \<le> r" "r < 4294967296"
    by (simp_all add: q_def r_def)
  show ?thesis
  proof (cases "r < lo")
    case True
    then have "q = hi + 1" using n1 assms by linarith
    then show ?thesis using n1(1) unfolding r_def [symmetric] if_P [OF True] by simp
  next
    case False
    then have "q = hi" using n1 assms by linarith
    then show ?thesis using n1(1) unfolding r_def [symmetric] if_not_P [OF False] by simp
  qed
qed

text \<open>
  C34. As long as the clock is read at least once in every \<open>2 ^ 32\<close> ticks, it answers the number of ticks since
  the start, though the kernel's count wraps around.
\<close>

theorem clock_exact:
  assumes "clock_at n0 s" and "\<not> spin_locked s" and "n0 \<le> n1" and "n1 < n0 + 4294967296" and "n1 < 2 ^ 63"
    and "\<And>h. ret (env h (PwOs OsKernelGetTickCount)) = n1 mod 4294967296"
  shows "wp (GetSystemClockTickCount env)
    (\<lambda>r t. r = n1 \<and> clock_at n1 t \<and> \<not> spin_locked t \<and> fault t = fault s) s"
proof -
  define hi lo where "hi = tick_count_high s" and "lo = tick_count_low s"
  define hi' where "hi' = (if n1 mod 4294967296 < uint lo then hi + 1 else hi)"
  define lo' :: u32 where "lo' = of_int (n1 mod 4294967296)"
  have n0: "uint hi * 4294967296 + uint lo = n0" using assms(1) by (simp add: clock_at_def hi_def lo_def)
  have lo_lt: "uint lo < 4294967296" using uint_lt2p [of lo] by simp
  have read: "uint (of_int (n1 mod 4294967296) :: u32) = n1 mod 4294967296" by (simp add: uint_word_of_int)
  have step: "(if n1 mod 4294967296 < uint lo then uint hi + 1 else uint hi) * 4294967296 + n1 mod 4294967296 = n1"
    by (rule count_step [OF uint_ge_0 lo_lt n0 assms(3,4)])
  have "uint (hi + 1) = uint hi + 1" if "n1 mod 4294967296 < uint lo"
  proof -
    have "uint hi + 1 < 2 ^ 32"
    proof (rule ccontr)
      assume "\<not> uint hi + 1 < 2 ^ 32"
      then have "4294967296 * 4294967296 \<le> (uint hi + 1) * 4294967296" by simp
      then show False using step that assms(5) pos_mod_sign [of 4294967296 n1] by simp
    qed
    then show ?thesis by (simp add: uint_word_ariths)
  qed
  then have hi': "uint hi' * 4294967296 + uint lo' = n1" using step read by (simp add: hi'_def lo'_def split: if_splits)
  have "uint hi' < 2147483648"
  proof (rule ccontr)
    assume "\<not> uint hi' < 2147483648"
    then have "2147483648 * 4294967296 \<le> uint hi' * 4294967296" by simp
    then show False using hi' assms(5) uint_ge_0 [of lo'] by simp
  qed
  from wide_count_value [OF this, of lo'] have wide: "wide_count hi' lo' = n1" using hi' by simp
  have rest: "wp (do { spin_unlock env; return (wide_count h l) })
      (\<lambda>r t. r = n1 \<and> clock_at n1 t \<and> \<not> spin_locked t \<and> fault t = fault s) u"
    if "h = hi'" "l = lo'" "tick_count_high u = h" "tick_count_low u = l" "fault u = fault s" for u h l
    by (rule wp_then [OF spin_unlock_frame]) (use that hi' wide in \<open>simp add: wp clock_at_def\<close>)
  show ?thesis
    unfolding GetSystemClockTickCount_def
    by (rule wp_then [OF spin_lock_frame])
      (use assms(2) in \<open>simp add: wp_bind [of "call _ _"] wp_bind [of "gets _"] wp_bind [of "modify _"] wp_bind [of "do_if _ _"]
        wp_call wp_gets wp_modify wp_do_if Let_def assms(6) read rest hi'_def lo'_def hi_def lo_def\<close>)
qed

section \<open>The timer calls back once, and not early\<close>

fun callbacks :: "(pw_call \<times> reply) list \<Rightarrow> int list" where
  "callbacks [] = []"
| "callbacks ((PwCallback d, r) # h) = callbacks h @ [d]"
| "callbacks (c # h) = callbacks h"

lemma callbacks_other [simp]: "\<forall>d. c \<noteq> PwCallback d \<Longrightarrow> callbacks ((c, r) # h) = callbacks h"
  by (cases c) simp_all

datatype timer_op = SetAt int | Unset | Expire

fun timer_run :: "pw_call env \<Rightarrow> bool \<Rightarrow> timer_op \<Rightarrow> unit timer_m" where
  "timer_run env freertos (SetAt d) = timer_set_at env d"
| "timer_run env freertos Unset = timer_unset env"
| "timer_run env freertos Expire = timer_invoke env freertos"

text \<open>
  The abstract timer is the deadline it waits for; an operation at a time gives the next one and the callbacks
  made.
\<close>

fun timer_spec :: "int \<Rightarrow> timer_op \<Rightarrow> int option \<Rightarrow> int option \<times> int list" where
  "timer_spec now (SetAt d) a = (Some d, [])"
| "timer_spec now Unset a = (None, [])"
| "timer_spec now Expire None = (None, [])"
| "timer_spec now Expire (Some d) = (if now < d then (Some d, []) else (None, [d]))"

definition armed :: "timer \<Rightarrow> int option" where
  "armed s = (if timer_set s then Some (timer_deadline s) else None)"

text \<open>A kernel whose calls on the lock and on the timer succeed.\<close>

definition kernel_fine :: "pw_call env \<Rightarrow> bool" where
  "kernel_fine env \<longleftrightarrow> (\<forall>h. 0 \<le> ret (env h (PwOs OsKernelLock)) \<and> (\<forall>p. 0 \<le> ret (env h (PwOs (OsKernelRestoreLock p)))) \<and>
     (\<forall>i. ret (env h (PwOs (OsTimerStop i))) = osOK) \<and> (\<forall>i n. ret (env h (PwOs (OsTimerStart i n))) = osOK))"

definition timer_at :: "bool \<Rightarrow> int \<Rightarrow> int list \<Rightarrow> timer \<Rightarrow> bool" where
  "timer_at b d cs s \<longleftrightarrow> \<not> fault s \<and> \<not> spin_locked s \<and> timer_set s = b \<and> timer_deadline s = d \<and> callbacks (history s) = cs"

definition reads :: "int \<Rightarrow> timer \<Rightarrow> bool" where
  "reads n s \<longleftrightarrow> wide_count (tick_count_high s) (tick_count_low s) = n"

lemma timer_at_clock:
  "timer_at b d cs s \<Longrightarrow> wp (GetSystemClockTickCount env) (\<lambda>r t. timer_at b d cs t \<and> reads r t) s"
  by (simp add: GetSystemClockTickCount_def spin_lock_def spin_try_lock_def spin_unlock_def set_target_irq_state_def
    enter_critical_section_def clear_irq_state_def exit_critical_section_def restore_saved_irq_state_def wp Let_def
    timer_at_def reads_def)

lemma timer_at_kernel:
  assumes "kernel_fine env"
  shows "keeps (\<lambda>s. timer_at b d cs s \<and> reads n s) (kernel_lock env)"
    and "keeps (\<lambda>s. timer_at b d cs s \<and> reads n s) (kernel_unlock env)"
    and "keeps (timer_at b d cs) (kernel_lock env)" and "keeps (timer_at b d cs) (kernel_unlock env)"
proof -
  have ok: "\<not> ret (env h (PwOs OsKernelLock)) < 0" "\<not> ret (env h (PwOs (OsKernelRestoreLock p))) < 0" for h p
    using assms by (simp_all add: kernel_fine_def not_less)
  show "keeps (\<lambda>s. timer_at b d cs s \<and> reads n s) (kernel_lock env)" "keeps (\<lambda>s. timer_at b d cs s \<and> reads n s) (kernel_unlock env)"
    "keeps (timer_at b d cs) (kernel_lock env)" "keeps (timer_at b d cs) (kernel_unlock env)"
    by (simp_all add: keeps_def kernel_lock_def kernel_unlock_def wp timer_at_def reads_def ok)
qed

lemma keeps_pure: "keeps P m \<Longrightarrow> keeps (\<lambda>s. c \<and> P s) m"
  by (cases c) (simp_all add: keeps_def wp_run)

text \<open>A locked block: the lock and the unlock around a program.\<close>

lemma wp_locked:
  assumes "keeps P (kernel_lock env)" and "P s" and "\<And>t. P t \<Longrightarrow> wp m Q t" and "\<And>a. keeps (Q a) (kernel_unlock env)"
  shows "wp (locked env m) Q s"
  unfolding locked_def
  by (rule wp_seq [OF assms(1,2)], rule wp_then [OF assms(3)], assumption, rule wp_seq [OF assms(4)])
    (simp_all add: wp)

lemma timer_at_unset:
  assumes "kernel_fine env" and "timer_at b d cs s" and "reads n s"
  shows "wp (timer_unset env) (\<lambda>_ t. timer_at False d cs t \<and> reads n t) s"
  unfolding timer_unset_def
  by (rule wp_locked [where P = "\<lambda>s. timer_at b d cs s \<and> reads n s", OF timer_at_kernel(1) _ _ timer_at_kernel(2)])
    (use assms in \<open>auto simp: wp timer_at_def reads_def kernel_fine_def\<close>)

lemma timer_at_set:
  assumes "kernel_fine env" and "timer_at b d cs s"
  shows "wp (timer_set_at env d') (\<lambda>_. timer_at True d' cs) s"
  unfolding timer_set_at_def
proof (rule wp_locked [OF timer_at_kernel(3) assms(2) _ timer_at_kernel(4)])
  fix t
  assume t: "timer_at b d cs t"
  define u where "u = t\<lparr>timer_deadline := d'\<rparr>"
  have u: "timer_at b d' cs u" "reads (wide_count (tick_count_high u) (tick_count_low u)) u"
    using t by (simp_all add: u_def timer_at_def reads_def)
  show "wp (do {
        modify (\<lambda>s. s\<lparr>timer_deadline := d'\<rparr>);
        timer_unset env;
        now \<leftarrow> GetSystemClockTickCount env;
        modify (\<lambda>s. s\<lparr>timer_set := True\<rparr>);
        i \<leftarrow> gets timer_id;
        r \<leftarrow> call env (PwOs (OsTimerStart i (of_int (clamp_ticks (d' - now)))));
        checked (r = osOK) () (return ())
      }) (\<lambda>_. timer_at True d' cs) t"
    unfolding wp_bind [of "modify _"] wp_modify u_def [symmetric]
    by (rule wp_then [OF timer_at_unset [OF assms(1) u]], rule wp_then [OF timer_at_clock], blast)
      (use assms(1) in \<open>simp add: wp timer_at_def kernel_fine_def\<close>)
qed (use assms in simp_all)

text \<open>What an expiry of a set timer ends with, before the callback.\<close>

definition due :: "int \<Rightarrow> int list \<Rightarrow> int option \<Rightarrow> timer \<Rightarrow> bool" where
  "due d cs r t \<longleftrightarrow> r = None \<and> (\<exists>now<d. timer_at True d cs t) \<or> r = Some d \<and> (\<exists>now\<ge>d. timer_at False d cs t \<and> reads now t)"

lemma due_cases:
  assumes "due d cs r t"
  obtains now where "r = None" "now < d" "timer_at True d cs t"
    | now where "r = Some d" "d \<le> now" "timer_at False d cs t \<and> reads now t"
  using assms by (auto simp: due_def)

lemma due_unlock:
  assumes "kernel_fine env"
  shows "keeps (due d cs r) (kernel_unlock env)"
proof (rule keepsI)
  fix u
  assume "due d cs r u"
  then show "wp (kernel_unlock env) (\<lambda>_. due d cs r) u"
  proof (cases rule: due_cases)
    case 1
    show ?thesis
      by (rule wp_mono [OF keepsD [OF timer_at_kernel(4) [OF assms] 1(3)]]) (use 1 in \<open>auto simp: due_def\<close>)
  next
    case 2
    show ?thesis
      by (rule wp_mono [OF keepsD [OF timer_at_kernel(2) [OF assms] 2(3)]]) (use 2 in \<open>auto simp: due_def\<close>)
  qed
qed

lemma unset_after_due:
  assumes "kernel_fine env" and "timer_at True d cs u \<and> reads now u" and "d \<le> now"
  shows "wp (do { unset_after_invoke env freertos; return (Some d) }) (due d cs) u"
proof -
  have "wp (unset_after_invoke env freertos) (\<lambda>_ t. timer_at False d cs t \<and> reads now t) u"
  proof (cases freertos)
    case True
    then show ?thesis
      using timer_at_unset [OF assms(1) conjunct1 [OF assms(2)] conjunct2 [OF assms(2)]] by (simp add: unset_after_invoke_def)
  next
    case False
    then show ?thesis
      using assms(2) by (simp add: unset_after_invoke_def wp_modify timer_at_def reads_def)
  qed
  then show ?thesis
    by (rule wp_then) (use assms(3) in \<open>auto simp: wp_return due_def\<close>)
qed

lemma timer_at_due:
  assumes "kernel_fine env" and "timer_at True d cs t"
  shows "wp (timer_due env freertos) (due d cs) t"
proof -
  have fields: "timer_deadline t = d" "timer_set t = True" using assms(2) by (simp_all add: timer_at_def)
  have early: "wp (do { timer_set_at env d; return None }) (due d cs) u" if "now < d" "timer_at True d cs u" for now u
    by (rule wp_then [OF timer_at_set [OF assms(1) that(2)]]) (use that(1) in \<open>auto simp: wp due_def\<close>)
  show ?thesis
    unfolding timer_due_def wp_bind [of "gets _"] wp_gets fields
  proof (simp only: simp_thms if_False, rule wp_then [OF timer_at_clock [OF assms(2)]])
    fix now u
    assume u: "timer_at True d cs u \<and> reads now u"
    show "wp (if now < d then do { timer_set_at env d; return None }
        else do { unset_after_invoke env freertos; return (Some d) }) (due d cs) u"
      using early [of now u] unset_after_due [OF assms(1) u] u by (cases "now < d") (simp_all add: not_less)
  qed
qed

lemma timer_at_invoke:
  assumes "kernel_fine env" and "timer_at True d cs s"
  shows "wp (timer_invoke env freertos)
    (\<lambda>_ t. (\<exists>now. now < d \<and> timer_at True d cs t) \<or> (\<exists>now\<ge>d. timer_at False d (cs @ [d]) t \<and> reads now t)) s"
  unfolding timer_invoke_def
  by (rule wp_then [OF wp_locked [OF timer_at_kernel(3) [OF assms(1)] assms(2) timer_at_due [OF assms(1)] due_unlock [OF assms(1)]]])
    (auto simp: due_def wp timer_at_def reads_def split: option.splits)

lemma timer_unset_invoke:
  assumes "kernel_fine env" and "timer_at False d cs s"
  shows "wp (timer_invoke env freertos) (\<lambda>_. timer_at False d cs) s"
proof -
  have "wp (locked env (timer_due env freertos)) (\<lambda>r t. r = None \<and> timer_at False d cs t) s"
    by (rule wp_locked [OF timer_at_kernel(3) [OF assms(1)] assms(2) _ keeps_pure [OF timer_at_kernel(4) [OF assms(1)]]])
      (auto simp: timer_due_def wp_bind [of "gets _"] wp_gets wp_return timer_at_def)
  then show ?thesis
    unfolding timer_invoke_def by (rule wp_then) (simp add: wp)
qed


section \<open>Arming again fails\<close>

text \<open>The timer waits for \<open>d\<close>; a check has failed, and no callback was made.\<close>

definition waiting :: "int \<Rightarrow> int list \<Rightarrow> timer \<Rightarrow> bool" where
  "waiting d cs t \<longleftrightarrow> timer_set t \<and> timer_deadline t = d \<and> callbacks (history t) = cs"

definition broken :: "int list \<Rightarrow> timer \<Rightarrow> bool" where
  "broken cs t \<longleftrightarrow> fault t \<and> callbacks (history t) = cs"

text \<open>A kernel that refuses, as documented, to stop a timer that is not running.\<close>

definition stop_refused :: "pw_call env \<Rightarrow> bool" where
  "stop_refused env \<longleftrightarrow> (\<forall>h i. ret (env h (PwOs (OsTimerStop i))) = osErrorResource)"

lemmas spin_defs = spin_lock_def spin_try_lock_def spin_unlock_def set_target_irq_state_def enter_critical_section_def
  clear_irq_state_def exit_critical_section_def restore_saved_irq_state_def

lemma clock_keeps:
  "keeps (broken cs) (GetSystemClockTickCount env)" "keeps (waiting d cs) (GetSystemClockTickCount env)"
  unfolding GetSystemClockTickCount_def spin_defs broken_def waiting_def by (intro keeps; simp)+

lemma lock_keeps:
  "keeps (broken cs) (kernel_unlock env)" "keeps (waiting d cs) (kernel_lock env)"
  "keeps (\<lambda>t. waiting d cs t \<and> clock_at n0 t \<and> \<not> spin_locked t) (kernel_lock env)"
  by (simp_all add: keeps_def kernel_lock_def kernel_unlock_def wp broken_def waiting_def clock_at_def)

lemma waiting_unset:
  assumes "stop_refused env" and "waiting d cs t"
  shows "wp (timer_unset env) (\<lambda>_. broken cs) t"
  unfolding timer_unset_def
  by (rule wp_locked [OF lock_keeps(2) assms(2) _ lock_keeps(1)])
    (use assms(1) in \<open>simp add: wp stop_refused_def waiting_def broken_def\<close>)

lemma waiting_set:
  assumes "stop_refused env" and "waiting d cs t"
  shows "wp (timer_set_at env d) (\<lambda>_. broken cs) t"
  unfolding timer_set_at_def
proof (rule wp_locked [OF lock_keeps(2) assms(2) _ lock_keeps(1)])
  fix u
  assume "waiting d cs u"
  then have u: "waiting d cs (u\<lparr>timer_deadline := d\<rparr>)" by (simp add: waiting_def)
  have rest: "keeps (broken cs) (do {
      now \<leftarrow> GetSystemClockTickCount env;
      modify (\<lambda>s. s\<lparr>timer_set := True\<rparr>);
      i \<leftarrow> gets timer_id;
      r \<leftarrow> call env (PwOs (OsTimerStart i (of_int (clamp_ticks (d - now)))));
      checked (r = osOK) () (return ())
    })"
    by (intro keeps clock_keeps; simp add: broken_def)
  show "wp (do {
      modify (\<lambda>s. s\<lparr>timer_deadline := d\<rparr>);
      timer_unset env;
      now \<leftarrow> GetSystemClockTickCount env;
      modify (\<lambda>s. s\<lparr>timer_set := True\<rparr>);
      i \<leftarrow> gets timer_id;
      r \<leftarrow> call env (PwOs (OsTimerStart i (of_int (clamp_ticks (d - now)))));
      checked (r = osOK) () (return ())
    }) (\<lambda>_. broken cs) u"
    unfolding wp_bind [of "modify _"] wp_modify
    by (rule wp_then [OF waiting_unset [OF assms(1) u]], rule keepsD [OF rest])
qed

text \<open>
  Where the kernel stops a one-shot timer when it expires, as RTX does, and refuses, as documented, to stop one
  that is not running, an expiry before the deadline ends in a failed check: a timer further away than the
  kernel counts is never armed again.
\<close>

lemma timer_rearm_fails:
  assumes "timer_set s" and "n1 < timer_deadline s" and "stop_refused env"
    and "clock_at n0 s" and "\<not> spin_locked s" and "n0 \<le> n1" and "n1 < n0 + 4294967296" and "n1 < 2 ^ 63"
    and "\<And>h. ret (env h (PwOs OsKernelGetTickCount)) = n1 mod 4294967296"
  shows "wp (timer_invoke env False) (\<lambda>_ t. fault t \<and> callbacks (history t) = callbacks (history s)) s"
proof -
  define d cs where "d = timer_deadline s" and "cs = callbacks (history s)"
  have body: "wp (timer_due env False) (\<lambda>r t. r = None \<and> broken cs t) t"
    if t: "waiting d cs t \<and> clock_at n0 t \<and> \<not> spin_locked t" for t
  proof -
    have w: "timer_deadline t = d" "timer_set t = True" using t by (simp_all add: waiting_def)
    have now: "wp (GetSystemClockTickCount env) (\<lambda>r u. r = n1 \<and> waiting d cs u) t"
      by (rule wp_mono [OF wp_keeps [OF clock_exact [of n0 t n1 env] clock_keeps(2)]]) (use t assms in auto)
    have early: "n1 < d" using assms(2) by (simp add: d_def)
    show ?thesis
      unfolding timer_due_def wp_bind [of "gets _"] wp_gets w
      by (simp only: simp_thms if_False, rule wp_then [OF now])
        (use early in \<open>auto simp: wp_return intro: wp_then [OF waiting_set [OF assms(3)]]\<close>)
  qed
  have s: "waiting d cs s \<and> clock_at n0 s \<and> \<not> spin_locked s" using assms by (simp add: waiting_def d_def cs_def)
  show ?thesis
    unfolding timer_invoke_def
    by (rule wp_then [OF wp_locked [OF lock_keeps(3) s body]], assumption, rule keeps_pure [OF lock_keeps(1)])
      (auto simp: wp broken_def cs_def)
qed

section \<open>Sleeping until a time\<close>

text \<open>
  \<open>sleep_until\<close> delays for the ticks that are left, at least one, and in pieces the kernel can count; but never
  for more than \<open>2 ^ 32 - 3\<close> in all, so with a deadline further away it returns before it.
\<close>

lemma sleep_until_delays:
  fixes s :: "'z clock_scheme"
  assumes "clock_at n0 s" and "\<not> spin_locked s" and "n0 \<le> n1" and "n1 < n0 + 4294967296" and "n1 < 2 ^ 63"
    and "\<And>h. ret (env h (PwOs OsKernelGetTickCount)) = n1 mod 4294967296" and "\<And>h. ret (env h PwThreadGetId) \<noteq> 0"
  shows "wp (sleep_until env deadline) (\<lambda>_ t. \<exists>ds. delays (history t) = delays (history s) @ ds \<and>
     sum_list ds = max 1 (min (deadline - n1) less_than_forever)) s"
proof -
  have clock: "keeps (\<lambda>t. delays (history t) = delays (history s)) (GetSystemClockTickCount env)"
    unfolding GetSystemClockTickCount_def spin_defs by (intro keeps; simp)
  have now: "wp (GetSystemClockTickCount env) (\<lambda>r t. r = n1 \<and> delays (history t) = delays (history s)) s"
    by (rule wp_mono [OF wp_keeps [OF clock_exact [of n0 s n1 env, OF assms(1-6)] clock]]) auto
  show ?thesis
    unfolding sleep_until_def
  proof (rule wp_then [OF now])
    fix r and t :: "'z clock_scheme"
    assume t: "r = n1 \<and> delays (history t) = delays (history s)"
    show "wp (sleep_for env (max 1 (min (deadline - r) less_than_forever)))
      (\<lambda>_ t. \<exists>ds. delays (history t) = delays (history s) @ ds \<and> sum_list ds = max 1 (min (deadline - n1) less_than_forever)) t"
      unfolding sleep_for_def wp_bind wp_call wp_checked
      using assms(7) t by (auto intro!: wp_mono [OF sleep_for_loop_delays])
  qed
qed

section \<open>Examples\<close>

text \<open>A kernel at tick \<open>2 ^ 32 + 5\<close>, whose count has wrapped around once.\<close>

definition wrapped_kernel :: "int \<Rightarrow> pw_call env" where
  "wrapped_kernel stop h c = \<lparr>ret = (case c of PwOs OsKernelGetTickCount \<Rightarrow> 4294967301 mod 4294967296
       | PwOs (OsTimerStop i) \<Rightarrow> stop | PwThreadGetId \<Rightarrow> 1 | _ \<Rightarrow> 0), outs = [], payload = []\<rparr>"

definition set_timer :: "int \<Rightarrow> timer" where
  "set_timer d = \<lparr>history = [], fault = False, lock_counter = 0, prev_lock = 0, spin_locked = False, saved_irq_state = 0,
     nested_critical_sections = 0, tick_count_high = 0, tick_count_low = 4294967290, timer_id = 1, timer_deadline = d, timer_set = True\<rparr>"

lemma clock_exact_witness:
  "wp (GetSystemClockTickCount (wrapped_kernel 0)) (\<lambda>r t. r = 4294967301 \<and> \<not> fault t) (set_timer 0)"
  by (rule wp_mono [OF clock_exact [of 4294967290 _ 4294967301]])
    (auto simp: wrapped_kernel_def set_timer_def clock_at_def)


lemma timer_rearm_fails_witness:
  "wp (timer_invoke (wrapped_kernel (- 3)) False) (\<lambda>_ t. fault t \<and> callbacks (history t) = []) (set_timer 9000000000)"
  by (rule wp_mono [OF timer_rearm_fails [of _ 4294967301 _ 4294967290]])
    (auto simp: wrapped_kernel_def set_timer_def clock_at_def stop_refused_def)

lemma sleep_until_delays_witness:
  "wp (sleep_until (wrapped_kernel 0) 9000000000) (\<lambda>_ t. sum_list (delays (history t)) = 4294967293) (set_timer 0)"
  by (rule wp_mono [OF sleep_until_delays [of 4294967290 _ 4294967301]])
    (auto simp: wrapped_kernel_def set_timer_def clock_at_def)

end
