(* ===== verification/Pw_Sync.thy ===== *)
theory Pw_Sync
  imports Pw_Chrono
begin

text \<open>
  The synchronisation of the Pigweed backends, \<open>pw_sync_cmsis_rtos\<close>: the mutex of \<open>internal_mutex.cc\<close> with the
  timed one built on it, the thread notification of \<open>native_thread_notification.cc\<close>, and the counting semaphore
  of \<open>internal/counting_semaphore.h\<close>.

  A call by thread \<open>me\<close> carries the thread.  The checks of debug builds, \<open>PW_DCHECK\<close>, are on.  While an operation waits, other threads run: \<open>rely\<close> is what they do
  to the object, any function of its state.
\<close>

section \<open>Thread flags\<close>

definition as_thread :: "pw_call env \<Rightarrow> int \<Rightarrow> pw_call \<Rightarrow> ('z, int) pw_m" where
  "as_thread env me c = call env (PwAs me c)"

definition flags_call :: "pw_call env \<Rightarrow> int \<Rightarrow> pw_call \<Rightarrow> ('z, u32) pw_m" where
  "flags_call env me c = do { r \<leftarrow> as_thread env me c; return (of_int r) }"

abbreviation (input) wait_options :: u32 where "wait_options \<equiv> 3"

text \<open>\<open>PW_IOTSDK_MUTEX_WAIT_FLAG\<close> and \<open>PW_IOTSDK_THREAD_NOTIFICATION_WAIT_FLAG\<close>, and \<open>osFlagsWaitAll | osFlagsNoClear\<close>.\<close>

definition mutex_flag :: nat where "mutex_flag = 14"
definition notification_flag :: nat where "notification_flag = 13"

section \<open>The mutex\<close>

record pw_mutex = clock +
  os_mutex :: int
  owner :: int

type_synonym 'a mutex_m = "(pw_mutex, 'a) state"

definition os_mutex_lock :: "pw_call env \<Rightarrow> int \<Rightarrow> unit mutex_m" where
  "os_mutex_lock env me =
     do { m \<leftarrow> gets os_mutex; r \<leftarrow> as_thread env me (PwOs (OsMutexAcquire m osWaitForever)); checked (r = osOK) () (return ()) }"

definition os_mutex_unlock :: "pw_call env \<Rightarrow> int \<Rightarrow> unit mutex_m" where
  "os_mutex_unlock env me =
     do { m \<leftarrow> gets os_mutex; r \<leftarrow> as_thread env me (PwOs (OsMutexRelease m)); checked (r = osOK) () (return ()) }"

definition mutex_new :: "pw_call env \<Rightarrow> unit mutex_m" where
  "mutex_new env =
     do {
       m \<leftarrow> call env (PwOs OsMutexNew);
       modify (\<lambda>s. s\<lparr>os_mutex := m, owner := 0\<rparr>);
       checked (m \<noteq> 0) () (return ())
     }"

definition mutex_delete :: "pw_call env \<Rightarrow> unit mutex_m" where
  "mutex_delete env =
     do { m \<leftarrow> gets os_mutex; r \<leftarrow> call env (PwOs (OsMutexDelete m)); checked (r = osOK) () (return ()) }"

definition mutex_try_lock :: "pw_call env \<Rightarrow> int \<Rightarrow> bool mutex_m" where
  "mutex_try_lock env me =
     do {
       os_mutex_lock env me;
       this_thread \<leftarrow> as_thread env me PwThreadGetId;
       own \<leftarrow> gets owner;
       checked (own \<noteq> this_thread) False
         (if own \<noteq> 0 then do { os_mutex_unlock env me; return False }
          else do {
            modify (\<lambda>s. s\<lparr>owner := this_thread\<rparr>);
            status \<leftarrow> flags_call env me (PwFlagsClear (bit_mask mutex_flag));
            checked (\<not> is_os_flags_error status) False (do { os_mutex_unlock env me; return True })
          })
     }"

text \<open>The loop of \<open>lock\<close>; \<open>False\<close>: the fuel is used up.\<close>

fun mutex_wait :: "pw_call env \<Rightarrow> (pw_mutex \<Rightarrow> pw_mutex) \<Rightarrow> nat \<Rightarrow> int \<Rightarrow> bool mutex_m" where
  "mutex_wait env rely 0 me = return False"
| "mutex_wait env rely (Suc fuel) me =
     do {
       own \<leftarrow> gets owner;
       if own = 0 then return True
       else do {
         os_mutex_unlock env me;
         status \<leftarrow> flags_call env me (PwFlagsWait (bit_mask mutex_flag) wait_options osWaitForever);
         modify rely;
         os_mutex_lock env me;
         if status = osFlagsErrorTimeout then mutex_wait env rely fuel me
         else checked (\<not> is_os_flags_error status) False
           (if is_bit_set status mutex_flag then return True else mutex_wait env rely fuel me)
       }
     }"

definition mutex_lock :: "pw_call env \<Rightarrow> (pw_mutex \<Rightarrow> pw_mutex) \<Rightarrow> nat \<Rightarrow> int \<Rightarrow> bool mutex_m" where
  "mutex_lock env rely fuel me =
     do {
       os_mutex_lock env me;
       this_thread \<leftarrow> as_thread env me PwThreadGetId;
       own \<leftarrow> gets owner;
       checked (own \<noteq> this_thread) False
         (do {
            ended \<leftarrow> mutex_wait env rely fuel me;
            if \<not> ended then return False
            else do {
              modify (\<lambda>s. s\<lparr>owner := this_thread\<rparr>);
              status \<leftarrow> flags_call env me (PwFlagsClear (bit_mask mutex_flag));
              checked (\<not> is_os_flags_error status) False (do { os_mutex_unlock env me; return True })
            }
          })
     }"

definition mutex_unlock :: "pw_call env \<Rightarrow> int \<Rightarrow> unit mutex_m" where
  "mutex_unlock env me =
     do {
       os_mutex_lock env me;
       own \<leftarrow> gets owner;
       checked (own \<noteq> 0) ()
         (do {
            this_thread \<leftarrow> as_thread env me PwThreadGetId;
            checked (own = this_thread) ()
              (do {
                 modify (\<lambda>s. s\<lparr>owner := 0\<rparr>);
                 os_mutex_unlock env me;
                 status \<leftarrow> flags_call env me (PwFlagsSet own (bit_mask mutex_flag));
                 checked (\<not> is_os_flags_error status) () (return ())
               })
          })
     }"

text \<open>\<open>TimedMutex\<close>.\<close>

definition mutex_try_lock_for :: "pw_call env \<Rightarrow> (pw_mutex \<Rightarrow> pw_mutex) \<Rightarrow> int \<Rightarrow> int \<Rightarrow> bool mutex_m" where
  "mutex_try_lock_for env rely me timeout =
     repeat_with_delay env rely timeout False
       (\<lambda>acquired. do { ok \<leftarrow> mutex_try_lock env me; return (if ok then (False, True) else (True, acquired)) })"

definition mutex_try_lock_until :: "pw_call env \<Rightarrow> (pw_mutex \<Rightarrow> pw_mutex) \<Rightarrow> int \<Rightarrow> int \<Rightarrow> bool mutex_m" where
  "mutex_try_lock_until env rely me deadline =
     do { now \<leftarrow> GetSystemClockTickCount env; mutex_try_lock_for env rely me (deadline - now) }"

section \<open>The thread notification\<close>

record notification = clock +
  blocked_thread_id :: int
  notified :: bool

type_synonym 'a note_m = "(notification, 'a) state"

definition note_new :: "unit note_m" where
  "note_new = modify (\<lambda>s. s\<lparr>blocked_thread_id := 0, notified := False\<rparr>)"

definition note_try_acquire :: "pw_call env \<Rightarrow> int \<Rightarrow> bool note_m" where
  "note_try_acquire env me = locked env
     (do {
        irq \<leftarrow> call env PwInInterrupt;
        b \<leftarrow> gets blocked_thread_id;
        n \<leftarrow> gets notified;
        checked (irq = 0 \<and> b = 0) False
          (if n then do { modify (\<lambda>s. s\<lparr>notified := False\<rparr>); return True } else return False)
      })"

definition note_release :: "pw_call env \<Rightarrow> int \<Rightarrow> unit note_m" where
  "note_release env me =
     do {
       irq \<leftarrow> call env PwInInterrupt;
       do_if (irq = 0) (kernel_lock env);
       modify (\<lambda>s. s\<lparr>notified := True\<rparr>);
       b \<leftarrow> gets blocked_thread_id;
       do_if (b \<noteq> 0)
         (do {
            status \<leftarrow> flags_call env me (PwFlagsSet b (bit_mask notification_flag));
            do_if (is_os_flags_error status) crash
          });
       irq \<leftarrow> call env PwInInterrupt;
       do_if (irq = 0) (kernel_unlock env)
     }"

definition note_flags_wait :: "pw_call env \<Rightarrow> (notification \<Rightarrow> notification) \<Rightarrow> int \<Rightarrow> u32 \<Rightarrow> u32 note_m" where
  "note_flags_wait env rely me ticks =
     do {
       status \<leftarrow> flags_call env me (PwFlagsWait (bit_mask notification_flag) wait_options ticks);
       modify rely;
       return status
     }"

fun note_wait_forever :: "pw_call env \<Rightarrow> (notification \<Rightarrow> notification) \<Rightarrow> nat \<Rightarrow> int \<Rightarrow> u32 option note_m" where
  "note_wait_forever env rely 0 me = return None"
| "note_wait_forever env rely (Suc fuel) me =
     do {
       status \<leftarrow> note_flags_wait env rely me osWaitForever;
       if status = osFlagsErrorTimeout then note_wait_forever env rely fuel me
       else if is_bit_set status notification_flag \<or> is_os_flags_error status then return (Some status)
       else note_wait_forever env rely fuel me
     }"

definition note_wait_ticks :: "pw_call env \<Rightarrow> (notification \<Rightarrow> notification) \<Rightarrow> int \<Rightarrow> int \<Rightarrow> u32 note_m" where
  "note_wait_ticks env rely me ticks =
     repeat_for_ticks ticks 0
       (\<lambda>ticks_in result. do {
          result \<leftarrow> note_flags_wait env rely me ticks_in;
          return
            (if is_os_flags_error result then result = osFlagsErrorTimeout else \<not> is_bit_set result notification_flag, result)
        })"

definition note_try_acquire_for_with_status ::
  "pw_call env \<Rightarrow> (notification \<Rightarrow> notification) \<Rightarrow> nat \<Rightarrow> int \<Rightarrow> int \<Rightarrow> u32 option note_m" where
  "note_try_acquire_for_with_status env rely fuel me ticks =
     do {
       irq \<leftarrow> call env PwInInterrupt;
       b \<leftarrow> gets blocked_thread_id;
       checked (irq = 0 \<and> b = 0) None
         (do {
            thread_id \<leftarrow> as_thread env me PwThreadGetId;
            there \<leftarrow> locked env
              (do {
                 n \<leftarrow> gets notified;
                 if n then do { modify (\<lambda>s. s\<lparr>blocked_thread_id := 0, notified := False\<rparr>); return True }
                 else do {
                   modify (\<lambda>s. s\<lparr>blocked_thread_id := thread_id\<rparr>);
                   status \<leftarrow> flags_call env me (PwFlagsClear (bit_mask notification_flag));
                   checked (\<not> is_os_flags_error status) False (return False)
                 }
               });
            if there then return (Some 0)
            else do {
              status \<leftarrow>
                (if ticks = 0 then do { r \<leftarrow> note_flags_wait env rely me 0; return (Some r) }
                 else if ticks = uint osWaitForever then note_wait_forever env rely fuel me
                 else do { r \<leftarrow> note_wait_ticks env rely me ticks; return (Some r) });
              case status of None \<Rightarrow> return None
              | Some status \<Rightarrow>
                if is_os_flags_error status then return (Some status)
                else do {
                  modify (\<lambda>s. s\<lparr>blocked_thread_id := 0, notified := False\<rparr>);
                  status \<leftarrow> flags_call env me (PwFlagsClear (bit_mask notification_flag));
                  return (Some status)
                }
            }
          })
     }"

definition note_try_acquire_for ::
  "pw_call env \<Rightarrow> (notification \<Rightarrow> notification) \<Rightarrow> nat \<Rightarrow> int \<Rightarrow> int \<Rightarrow> bool option note_m" where
  "note_try_acquire_for env rely fuel me ticks =
     do {
       status \<leftarrow> note_try_acquire_for_with_status env rely fuel me ticks;
       return (map_option (\<lambda>status. \<not> is_os_flags_error status) status)
     }"

definition note_acquire :: "pw_call env \<Rightarrow> (notification \<Rightarrow> notification) \<Rightarrow> nat \<Rightarrow> int \<Rightarrow> unit option note_m" where
  "note_acquire env rely fuel me =
     do {
       status \<leftarrow> note_try_acquire_for_with_status env rely fuel me (uint osWaitForever);
       case status of None \<Rightarrow> return None
       | Some status \<Rightarrow> checked (\<not> is_os_flags_error status) None (return (Some ()))
     }"

text \<open>\<open>TimedThreadNotification\<close>.\<close>

definition note_timed_acquire :: "pw_call env \<Rightarrow> (notification \<Rightarrow> notification) \<Rightarrow> int \<Rightarrow> int \<Rightarrow> bool note_m" where
  "note_timed_acquire env rely me timeout =
     repeat_with_delay env rely timeout False
       (\<lambda>acquired. do { ok \<leftarrow> note_try_acquire env me; return (if ok then (False, True) else (True, acquired)) })"

definition note_timed_acquire_until :: "pw_call env \<Rightarrow> (notification \<Rightarrow> notification) \<Rightarrow> int \<Rightarrow> int \<Rightarrow> bool note_m" where
  "note_timed_acquire_until env rely me deadline =
     do { now \<leftarrow> GetSystemClockTickCount env; note_timed_acquire env rely me (deadline - now) }"

section \<open>The counting semaphore\<close>

record semaphore = clock +
  sem_id :: int

type_synonym 'a sem_m = "(semaphore, 'a) state"

text \<open>The maxima of the counter type, of 32 bits, of the user and of the kernel.\<close>

definition sem_max_count :: "nat \<Rightarrow> nat \<Rightarrow> nat \<Rightarrow> nat" where
  "sem_max_count counter_max user_max rtos_max = min counter_max (min (2 ^ 32 - 1) (min user_max rtos_max))"

definition sem_new :: "pw_call env \<Rightarrow> nat \<Rightarrow> unit sem_m" where
  "sem_new env max_count =
     do {
       i \<leftarrow> call env (PwOs (OsSemaphoreNew (of_nat max_count) 0));
       modify (\<lambda>s. s\<lparr>sem_id := i\<rparr>);
       checked (i \<noteq> 0) () (return ())
     }"

fun sem_release :: "pw_call env \<Rightarrow> nat \<Rightarrow> unit sem_m" where
  "sem_release env 0 = return ()"
| "sem_release env (Suc n) =
     do {
       i \<leftarrow> gets sem_id;
       status \<leftarrow> call env (PwOs (OsSemaphoreRelease i));
       if status = osErrorResource then return ()
       else checked (status = osOK) () (sem_release env n)
     }"

definition sem_try_acquire_for :: "pw_call env \<Rightarrow> int \<Rightarrow> bool sem_m" where
  "sem_try_acquire_for env ticks =
     repeat_for_ticks ticks False
       (\<lambda>ticks_in acquired. do {
          i \<leftarrow> gets sem_id;
          status \<leftarrow> call env (PwOs (OsSemaphoreAcquire i ticks_in));
          if status = osOK \<or> status = osErrorTimeout then return (False, status = osOK)
          else do { crash; return (False, acquired) }
        })"

definition sem_try_acquire :: "pw_call env \<Rightarrow> bool sem_m" where
  "sem_try_acquire env =
     do {
       i \<leftarrow> gets sem_id;
       status \<leftarrow> call env (PwOs (OsSemaphoreAcquire i 0));
       if status = osOK then return True
       else if status = osErrorResource then return False
       else do { crash; return False }
     }"

definition sem_acquire :: "pw_call env \<Rightarrow> unit sem_m" where
  "sem_acquire env =
     do {
       i \<leftarrow> gets sem_id;
       status \<leftarrow> call env (PwOs (OsSemaphoreAcquire i osWaitForever));
       checked (status = osOK) () (return ())
     }"

definition sem_count :: "pw_call env \<Rightarrow> int sem_m" where
  "sem_count env = do { i \<leftarrow> gets sem_id; call env (PwSemGetCount i) }"

text \<open>\<open>try_acquire_for\<close> and \<open>try_acquire_until\<close>, the same in \<open>BinarySemaphore\<close> and \<open>CountingSemaphore\<close>.\<close>

definition semaphore_try_acquire_for :: "pw_call env \<Rightarrow> int \<Rightarrow> bool sem_m" where
  "semaphore_try_acquire_for env timeout = sem_try_acquire_for env (max 1 timeout)"

definition semaphore_try_acquire_until :: "pw_call env \<Rightarrow> int \<Rightarrow> bool sem_m" where
  "semaphore_try_acquire_until env deadline =
     do { now \<leftarrow> GetSystemClockTickCount env; sem_try_acquire_for env (deadline - now) }"

end
