(* ===== verification/Pw_Spec.thy ===== *)
theory Pw_Spec
  imports Pw_Sync
begin

text \<open>
  What the mutex, the notification and the semaphores of Pw_Sync promise.  The mutex, tried, and the
  notification are both a token that is taken if it is there and given back; the locale \<open>token\<close> states that
  contract, and runs of operations and the polling of the timed variants are verified in it once.
\<close>

section \<open>The token\<close>

datatype lock_op = Take int | Give int

fun lock_run :: "('e \<Rightarrow> int \<Rightarrow> ('s, bool) state) \<Rightarrow> ('e \<Rightarrow> int \<Rightarrow> ('s, unit) state) \<Rightarrow> 'e \<Rightarrow> lock_op list \<Rightarrow>
    ('s, bool list) state" where
  "lock_run acq rel env [] = return []"
| "lock_run acq rel env (Take me # ops) =
     do { r \<leftarrow> acq env me; rs \<leftarrow> lock_run acq rel env ops; return (r # rs) }"
| "lock_run acq rel env (Give me # ops) = do { rel env me; lock_run acq rel env ops }"

text \<open>The abstract token: what a taker and a giver leave, and whether they may acq and rel.\<close>

record 'k token_spec =
  free :: "'k \<Rightarrow> bool"
  taken :: "int \<Rightarrow> 'k"
  given :: 'k
  may_take :: "'k \<Rightarrow> int \<Rightarrow> bool"
  may_give :: "'k \<Rightarrow> int \<Rightarrow> bool"

fun lock_spec :: "'k token_spec \<Rightarrow> lock_op list \<Rightarrow> 'k \<Rightarrow> bool list \<times> 'k" where
  "lock_spec T [] k = ([], k)"
| "lock_spec T (Take me # ops) k =
     (let (rs, k') = lock_spec T ops (if free T k then taken T me else k) in (free T k # rs, k'))"
| "lock_spec T (Give me # ops) k = lock_spec T ops (given T)"

fun allowed :: "'k token_spec \<Rightarrow> lock_op list \<Rightarrow> 'k \<Rightarrow> bool" where
  "allowed T [] k = True"
| "allowed T (Take me # ops) k = (may_take T k me \<and> allowed T ops (if free T k then taken T me else k))"
| "allowed T (Give me # ops) k = (may_give T k me \<and> allowed T ops (given T))"

definition poll :: "('e \<Rightarrow> int \<Rightarrow> ('s, bool) state) \<Rightarrow> 'e \<Rightarrow> int \<Rightarrow> bool \<Rightarrow> ('s, bool \<times> bool) state" where
  "poll acq env me acquired = do { ok \<leftarrow> acq env me; return (if ok then (False, True) else (True, acquired)) }"

lemma poll_then:
  "(poll acq env me acquired \<bind> f) = acq env me \<bind> (\<lambda>ok. return (if ok then (False, True) else (True, acquired)) \<bind> f)"
  by (simp add: poll_def)

text \<open>
  While a thread is delayed the others never take its permission from it, and once \<open>n\<close> delays have been made they
  leave the token there.
\<close>

definition there_from :: "'k token_spec \<Rightarrow> ('z pw_world_scheme \<Rightarrow> bool) \<Rightarrow> ('z pw_world_scheme \<Rightarrow> 'k) \<Rightarrow>
    int \<Rightarrow> ('z pw_world_scheme \<Rightarrow> 'z pw_world_scheme) \<Rightarrow> nat \<Rightarrow> bool" where
  "there_from T okay val me rely n \<longleftrightarrow> (\<forall>t. okay t \<and> may_take T (val t) me \<longrightarrow> okay (rely t) \<and> may_take T (val (rely t)) me \<and>
     delays (history (rely t)) = delays (history t) \<and> (n \<le> length (delays (history t)) \<longrightarrow> free T (val (rely t))))"

locale token =
  fixes T :: "'k token_spec"
    and fine :: "pw_call env \<Rightarrow> bool"
    and inv :: "'z pw_world_scheme \<Rightarrow> bool"
    and abs :: "'z pw_world_scheme \<Rightarrow> 'k"
    and acq :: "pw_call env \<Rightarrow> int \<Rightarrow> ('z pw_world_scheme, bool) state"
    and rel :: "pw_call env \<Rightarrow> int \<Rightarrow> ('z pw_world_scheme, unit) state"
  assumes taking: "\<And>env s me. fine env \<Longrightarrow> inv s \<Longrightarrow> may_take T (abs s) me \<Longrightarrow>
      wp (acq env me) (\<lambda>r t. inv t \<and> r = free T (abs s) \<and> abs t = (if free T (abs s) then taken T me else abs s) \<and>
        delays (history t) = delays (history s)) s"
    and giving: "\<And>env s me. fine env \<Longrightarrow> inv s \<Longrightarrow> may_give T (abs s) me \<Longrightarrow>
      wp (rel env me) (\<lambda>_ t. inv t \<and> abs t = given T) s"
    and delaying: "\<And>s c. inv s \<Longrightarrow> inv (s\<lparr>history := c # history s\<rparr>) \<and> abs (s\<lparr>history := c # history s\<rparr>) = abs s"
begin

text \<open>A run of allowed operations does what the abstract token does.\<close>

lemma run_refines:
  assumes "fine env" and "inv s" and "allowed T ops (abs s)"
  shows "wp (lock_run acq rel env ops) (\<lambda>rs t. inv t \<and> (rs, abs t) = lock_spec T ops (abs s)) s"
  using assms(2,3)
proof (induction ops arbitrary: s)
  case Nil
  then show ?case by (simp add: wp)
next
  case (Cons x ops)
  show ?case
  proof (cases x)
    case (Take me)
    show ?thesis
      unfolding Take lock_run.simps
    proof (rule wp_then [OF taking [OF assms(1) Cons.prems(1)]])
      show "may_take T (abs s) me" using Cons.prems(2) Take by simp
    next
      fix r t
      assume t: "inv t \<and> r = free T (abs s) \<and> abs t = (if free T (abs s) then taken T me else abs s) \<and>
        delays (history t) = delays (history s)"
      then have "allowed T ops (abs t)" using Cons.prems(2) Take by simp
      then show "wp (lock_run acq rel env ops \<bind> (\<lambda>rs. return (r # rs)))
          (\<lambda>rs t. inv t \<and> (rs, abs t) = lock_spec T (Take me # ops) (abs s)) t"
        by (rule wp_then [OF Cons.IH [OF conjunct1 [OF t]]])
          (use t in \<open>auto simp: wp_return Let_def split: prod.splits\<close>)
    qed
  next
    case (Give me)
    show ?thesis
      unfolding Give lock_run.simps
      by (rule wp_then [OF giving [OF assms(1) Cons.prems(1)]])
        (use Cons Give in \<open>auto intro: wp_mono [OF Cons.IH]\<close>)
  qed
qed

text \<open>
  Polling for a token: the answer is true if it was taken, else every tick of the timeout was waited; and a token
  that is there from some delay on, before the last one, is taken.
\<close>

lemma polled:
  assumes "fine env" and "inv s" and "may_take T (abs s) me" and "there_from T inv abs me rely n"
    and "n \<le> length (delays (history s)) \<Longrightarrow> free T (abs s)"
  shows "wp (repeat_with_delay env rely timeout False (poll acq env me))
    (\<lambda>r t. inv t \<and> (r \<longrightarrow> abs t = taken T me) \<and> (int n < int (length (delays (history s))) + timeout \<and> 0 < timeout \<longrightarrow> r) \<and>
       (\<exists>k. delays (history t) = delays (history s) @ replicate k 1 \<and>
          (if r then int k < timeout else k = nat timeout))) s"
  using assms(2,3,5)
proof (induction "nat timeout" arbitrary: timeout s)
  case 0
  then show ?case by (subst repeat_with_delay.simps) (simp add: wp)
next
  case (Suc m)
  define D where "D = delays (history s)"
  have pos: "0 < timeout" using Suc.hyps(2) by simp
  show ?case
    unfolding repeat_with_delay.simps [of env rely timeout] if_P [OF pos] poll_then
  proof (rule wp_then [OF taking [OF assms(1) Suc.prems(1,2)]])
    fix r t
    assume t: "inv t \<and> r = free T (abs s) \<and> abs t = (if free T (abs s) then taken T me else abs s) \<and>
        delays (history t) = delays (history s)"
    define u where "u = rely (t\<lparr>history := (PwOs (OsDelay 1), env (history t) (PwOs (OsDelay 1))) # history t\<rparr>)"
    show "wp (return (if r then (False, True) else (True, False)) \<bind> (\<lambda>(more, result).
          if more then do { tell env (PwOs (OsDelay 1)); modify rely; repeat_with_delay env rely (timeout - 1) result (poll acq env me) }
          else return result))
        (\<lambda>r t. inv t \<and> (r \<longrightarrow> abs t = taken T me) \<and> (int n < int (length (delays (history s))) + timeout \<and> 0 < timeout \<longrightarrow> r) \<and>
          (\<exists>k. delays (history t) = delays (history s) @ replicate k 1 \<and> (if r then int k < timeout else k = nat timeout))) t"
    proof (cases r)
      case True
      then show ?thesis using t pos by (simp add: wp_bind wp_return exI [of _ 0])
    next
      case False
      define c where "c = (PwOs (OsDelay 1), env (history t) (PwOs (OsDelay 1)))"
      have c: "u = rely (t\<lparr>history := c # history t\<rparr>)" "delays (c # history t) = D @ [1]"
        using t by (simp_all add: u_def c_def D_def)
      have t': "inv (t\<lparr>history := c # history t\<rparr>)" "may_take T (abs (t\<lparr>history := c # history t\<rparr>)) me"
        using t False delaying [of t c] Suc.prems(2) by auto
      have u: "inv u" "may_take T (abs u) me" "delays (history u) = D @ [1]" "n \<le> Suc (length D) \<Longrightarrow> free T (abs u)"
        using assms(4) t' c by (auto simp: there_from_def)
      have busy: "\<not> free T (abs s)" "\<not> n \<le> length D" using t False Suc.prems(3) by (auto simp: D_def)
      have "wp (repeat_with_delay env rely (timeout - 1) False (poll acq env me))
        (\<lambda>r t. inv t \<and> (r \<longrightarrow> abs t = taken T me) \<and>
          (int n < int (length (delays (history u))) + (timeout - 1) \<and> 0 < timeout - 1 \<longrightarrow> r) \<and>
          (\<exists>k. delays (history t) = delays (history u) @ replicate k 1 \<and> (if r then int k < timeout - 1 else k = nat (timeout - 1)))) u"
        by (rule Suc.hyps(1)) (use Suc.hyps(2) u in auto)
      then have "wp (repeat_with_delay env rely (timeout - 1) False (poll acq env me))
        (\<lambda>r t. inv t \<and> (r \<longrightarrow> abs t = taken T me) \<and> (int n < int (length D) + timeout \<and> 0 < timeout \<longrightarrow> r) \<and>
          (\<exists>k. delays (history t) = D @ replicate k 1 \<and> (if r then int k < timeout else k = nat timeout))) u"
      proof (rule wp_mono, elim conjE exE)
        fix r k and t :: "'z pw_world_scheme"
        assume r: "inv t" "r \<longrightarrow> abs t = taken T me"
          "int n < int (length (delays (history u))) + (timeout - 1) \<and> 0 < timeout - 1 \<longrightarrow> r"
          "delays (history t) = delays (history u) @ replicate k 1" "if r then int k < timeout - 1 else k = nat (timeout - 1)"
        have "delays (history t) = D @ replicate (Suc k) 1" using r(4) u(3) by simp
        moreover have "if r then int (Suc k) < timeout else Suc k = nat timeout" using r(5) pos by auto
        moreover have "int n < int (length D) + timeout \<and> 0 < timeout \<longrightarrow> r" using r(3) u(3) busy(2) by auto
        ultimately show "inv t \<and> (r \<longrightarrow> abs t = taken T me) \<and> (int n < int (length D) + timeout \<and> 0 < timeout \<longrightarrow> r) \<and>
          (\<exists>k. delays (history t) = D @ replicate k 1 \<and> (if r then int k < timeout else k = nat timeout))"
          using r(1,2) by blast
      qed
      then show ?thesis
        using False by (simp add: wp_bind wp_return wp_tell wp_modify u_def D_def)
    qed
  qed
qed

end

section \<open>A kernel whose calls succeed\<close>

definition sync_kernel :: "pw_call env \<Rightarrow> bool" where
  "sync_kernel env \<longleftrightarrow> (\<forall>h me m t th f p.
     ret (env h (PwAs me PwThreadGetId)) = me \<and>
     ret (env h (PwAs me (PwOs (OsMutexAcquire m t)))) = osOK \<and> ret (env h (PwAs me (PwOs (OsMutexRelease m)))) = osOK \<and>
     \<not> is_os_flags_error (of_int (ret (env h (PwAs me (PwFlagsClear f))))) \<and>
     \<not> is_os_flags_error (of_int (ret (env h (PwAs me (PwFlagsSet th f))))) \<and>
     ret (env h PwInInterrupt) = 0 \<and> 0 \<le> ret (env h (PwOs OsKernelLock)) \<and> 0 \<le> ret (env h (PwOs (OsKernelRestoreLock p))))"

lemma sync_kernelD:
  assumes "sync_kernel env"
  shows "ret (env h (PwAs me PwThreadGetId)) = me"
    and "ret (env h (PwAs me (PwOs (OsMutexAcquire m t)))) = osOK" "ret (env h (PwAs me (PwOs (OsMutexRelease m)))) = osOK"
    and "\<not> is_os_flags_error (of_int (ret (env h (PwAs me (PwFlagsClear f)))))"
    and "\<not> is_os_flags_error (of_int (ret (env h (PwAs me (PwFlagsSet th f)))))"
    and "ret (env h PwInInterrupt) = 0" "\<not> ret (env h (PwOs OsKernelLock)) < 0" "\<not> ret (env h (PwOs (OsKernelRestoreLock p))) < 0"
  using assms by (auto simp: sync_kernel_def not_less)

lemmas mutex_defs = as_thread_def flags_call_def os_mutex_lock_def os_mutex_unlock_def mutex_try_lock_def mutex_unlock_def

section \<open>The mutex is a token\<close>

definition mutex_token :: "int token_spec" where
  "mutex_token = \<lparr>free = (\<lambda>k. k = 0), taken = (\<lambda>me. me), given = 0,
     may_take = (\<lambda>k me. me \<noteq> 0 \<and> me \<noteq> k), may_give = (\<lambda>k me. me \<noteq> 0 \<and> me = k)\<rparr>"

interpretation mutex: token mutex_token sync_kernel "\<lambda>s. \<not> fault s" owner mutex_try_lock mutex_unlock
proof unfold_locales
  fix env :: "pw_call env" and s :: pw_mutex and me
  assume k: "sync_kernel env" and s: "\<not> fault s" and m: "may_take mutex_token (owner s) me"
  show "wp (mutex_try_lock env me) (\<lambda>r t. \<not> fault t \<and> r = free mutex_token (owner s) \<and>
      owner t = (if free mutex_token (owner s) then taken mutex_token me else owner s) \<and> delays (history t) = delays (history s)) s"
    using s m by (simp add: mutex_defs mutex_token_def wp sync_kernelD [OF k])
next
  fix env :: "pw_call env" and s :: pw_mutex and me
  assume k: "sync_kernel env" and s: "\<not> fault s" and m: "may_give mutex_token (owner s) me"
  show "wp (mutex_unlock env me) (\<lambda>_ t. \<not> fault t \<and> owner t = given mutex_token) s"
    using s m by (simp add: mutex_defs mutex_token_def wp sync_kernelD [OF k])
qed simp_all

text \<open>The threads whose last operation left them the mutex.\<close>

fun holders :: "lock_op list \<Rightarrow> bool list \<Rightarrow> int set \<Rightarrow> int set" where
  "holders (Take me # ops) (r # rs) H = holders ops rs (if r then insert me H else H)"
| "holders (Give me # ops) rs H = holders ops rs (H - {me})"
| "holders _ _ H = H"

lemma spec_holders:
  "allowed mutex_token ops k \<Longrightarrow> lock_spec mutex_token ops k = (rs, k') \<Longrightarrow>
    holders ops rs (if k = 0 then {} else {k}) = (if k' = 0 then {} else {k'})"
proof (induction ops arbitrary: k rs)
  case (Cons x ops)
  then show ?case by (cases x) (force simp: mutex_token_def Let_def split: prod.splits if_splits)+
qed simp


section \<open>The notification is a token\<close>

definition note_token :: "bool token_spec" where
  "note_token = \<lparr>free = (\<lambda>k. k), taken = (\<lambda>me. False), given = True, may_take = (\<lambda>k me. True), may_give = (\<lambda>k me. True)\<rparr>"

lemmas note_defs = note_try_acquire_def note_release_def locked_def kernel_lock_def kernel_unlock_def flags_call_def as_thread_def

interpretation notif: token note_token sync_kernel "\<lambda>s. \<not> fault s \<and> blocked_thread_id s = 0" notified note_try_acquire note_release
proof unfold_locales
  fix env :: "pw_call env" and s :: notification and me
  assume k: "sync_kernel env" and s: "\<not> fault s \<and> blocked_thread_id s = 0"
  show "wp (note_try_acquire env me) (\<lambda>r t. (\<not> fault t \<and> blocked_thread_id t = 0) \<and> r = free note_token (notified s) \<and>
      notified t = (if free note_token (notified s) then taken note_token me else notified s) \<and> delays (history t) = delays (history s)) s"
    using s by (simp add: note_defs note_token_def wp sync_kernelD [OF k])
next
  fix env :: "pw_call env" and s :: notification and me
  assume k: "sync_kernel env" and s: "\<not> fault s \<and> blocked_thread_id s = 0"
  show "wp (note_release env me) (\<lambda>_ t. (\<not> fault t \<and> blocked_thread_id t = 0) \<and> notified t = given note_token) s"
    using s by (simp add: note_defs note_token_def wp sync_kernelD [OF k])
qed simp_all

lemma allowed_note: "allowed note_token ops k"
proof (induction ops arbitrary: k)
  case (Cons x ops)
  then show ?case by (cases x) (simp_all add: note_token_def)
qed simp

text \<open>
  Releases and tries of a notification are those of one token: any number of releases is noticed once, by
  the first try after them.
\<close>

lemma notification_token:
  assumes "sync_kernel env" and "\<not> fault s" and "blocked_thread_id s = 0"
  shows "wp (lock_run note_try_acquire note_release env ops)
     (\<lambda>rs t. \<not> fault t \<and> blocked_thread_id t = 0 \<and> (rs, notified t) = lock_spec note_token ops (notified s)) s"
  by (rule wp_mono [OF notif.run_refines [OF assms(1) _ allowed_note]]) (use assms in auto)

section \<open>Timed variants poll\<close>

lemma mutex_polls: "mutex_try_lock_for env rely me timeout = repeat_with_delay env rely timeout False (poll mutex_try_lock env me)"
  by (simp add: mutex_try_lock_for_def poll_def [abs_def])

text \<open>
  If the other threads leave the mutex free from the \<open>n\<close>-th delay of the caller on, and that comes before the
  timeout is over, \<open>try_lock_for\<close> gets it; a failure has waited all ticks of the timeout, none if it is not positive.
\<close>

lemma try_lock_for_in_time:
  assumes "sync_kernel env" and "\<not> fault s" and "me \<noteq> 0" and "owner s \<noteq> me" and "there_from mutex_token (\<lambda>s. \<not> fault s) owner me rely (length (delays (history s)) + n)"
    and "n = 0 \<Longrightarrow> owner s = 0"
  shows "wp (mutex_try_lock_for env rely me timeout) (\<lambda>r t. \<not> fault t \<and> (r \<longrightarrow> owner t = me) \<and> (int n < timeout \<longrightarrow> r) \<and>
     (\<exists>k. delays (history t) = delays (history s) @ replicate k 1 \<and> (if r then int k < timeout else k = nat timeout))) s"
  unfolding mutex_polls
  by (rule wp_mono [OF mutex.polled [OF assms(1,2) _ assms(5)]]) (use assms in \<open>auto simp: mutex_token_def\<close>)

section \<open>The mutex, waited for\<close>

text \<open>The flags of a thread, from the calls made, and a kernel that answers a wait for flags that are set with them.\<close>

fun flags_of :: "(pw_call \<times> reply) list \<Rightarrow> int \<Rightarrow> u32" where
  "flags_of [] th = 0"
| "flags_of ((PwAs me (PwFlagsSet t f), r) # h) th = (if t = th then flags_of h th OR f else flags_of h th)"
| "flags_of ((PwAs me (PwFlagsClear f), r) # h) th = (if me = th then flags_of h th AND NOT f else flags_of h th)"
| "flags_of (c # h) th = flags_of h th"

definition flags_kernel :: "pw_call env \<Rightarrow> bool" where
  "flags_kernel env \<longleftrightarrow> sync_kernel env \<and> (\<forall>h me f t. flags_of h me AND f = f \<and> \<not> is_os_flags_error (flags_of h me) \<longrightarrow>
     of_int (ret (env h (PwAs me (PwFlagsWait f wait_options t)))) = flags_of h me)"

abbreviation (input) "waiting_bit \<equiv> bit_mask mutex_flag"

lemma or_and_bit: "(x OR m) AND m = m" for x m :: u32
  by (simp add: bit_eq_iff bit_simps)

lemma unlock_sets_flag:
  assumes "sync_kernel env" and "\<not> fault s" and "owner s = me" and "me \<noteq> 0"
  shows "wp (mutex_unlock env me) (\<lambda>_ t. \<not> fault t \<and> owner t = 0 \<and>
     flags_of (history t) = (flags_of (history s))(me := flags_of (history s) me OR waiting_bit)) s"
  using assms(2-4) by (simp add: mutex_defs wp sync_kernelD [OF assms(1)] fun_eq_iff)

lemma lock_free:
  assumes "sync_kernel env" and "\<not> fault s" and "owner s = 0" and "me \<noteq> 0"
  shows "wp (mutex_lock env rely (Suc fuel) me) (\<lambda>r t. r \<and> \<not> fault t \<and> owner t = me \<and>
     (\<forall>th. th \<noteq> me \<longrightarrow> flags_of (history t) th = flags_of (history s) th)) s"
  using assms(2-4) by (simp add: mutex_lock_def mutex_defs wp sync_kernelD [OF assms(1)])

lemma lock_breaks_in:
  assumes "flags_kernel env" and "\<not> fault s" and "owner s \<noteq> me" and "me \<noteq> 0"
    and "flags_of (history s) me AND waiting_bit = waiting_bit" and "\<not> is_os_flags_error (flags_of (history s) me)"
    and "\<And>t. fault (rely t) = fault t"
  shows "wp (mutex_lock env rely (Suc fuel) me) (\<lambda>r t. r \<and> \<not> fault t \<and> owner t = me) s"
proof -
  have k: "sync_kernel env" using assms(1) by (simp add: flags_kernel_def)
  have w: "of_int (ret (env h (PwAs me (PwFlagsWait waiting_bit wait_options t)))) = flags_of h me"
    if "flags_of h me AND waiting_bit = waiting_bit" "\<not> is_os_flags_error (flags_of h me)" for h t
    using assms(1) that by (simp add: flags_kernel_def)
  have "flags_of (history s) me \<noteq> osFlagsErrorTimeout" using assms(6) by (auto simp: is_os_flags_error_def)
  then show ?thesis
    using assms(2-7)
    by (simp add: mutex_lock_def mutex_defs wp sync_kernelD [OF k] w is_bit_set_def)
qed

text \<open>
  C36. \<open>unlock\<close> sets the flag of the thread that unlocks, so the next time this thread waits it does not: after
  one thread has unlocked the mutex and another has locked it, the first one's \<open>lock\<close> ends at once and makes it the
  owner too, whatever the other threads do meanwhile.
\<close>

theorem mutex_second_owner:
  assumes "flags_kernel env" and "\<not> fault s" and "owner s = a" and "a \<noteq> 0" and "b \<noteq> 0" and "a \<noteq> b"
    and "\<not> is_os_flags_error (flags_of (history s) a OR waiting_bit)" and "\<And>t. fault (rely t) = fault t"
  shows "wp (do { mutex_unlock env a; first \<leftarrow> mutex_lock env rely (Suc n) b; second \<leftarrow> mutex_lock env rely (Suc n) a;
      return (first, second) }) (\<lambda>(first, second) t. first \<and> second \<and> owner t = a \<and> \<not> fault t) s"
proof -
  have k: "sync_kernel env" using assms(1) by (simp add: flags_kernel_def)
  show ?thesis
  proof (rule wp_then [OF unlock_sets_flag [OF k assms(2-4)]])
    fix t :: pw_mutex
    assume t: "\<not> fault t \<and> owner t = 0 \<and> flags_of (history t) = (flags_of (history s))(a := flags_of (history s) a OR waiting_bit)"
    show "wp (do { first \<leftarrow> mutex_lock env rely (Suc n) b; second \<leftarrow> mutex_lock env rely (Suc n) a; return (first, second) })
      (\<lambda>(first, second) t. first \<and> second \<and> owner t = a \<and> \<not> fault t) t"
    proof (rule wp_then [OF lock_free [OF k _ _ assms(5)]])
      fix first and u :: pw_mutex
      assume u: "first \<and> \<not> fault u \<and> owner u = b \<and> (\<forall>th. th \<noteq> b \<longrightarrow> flags_of (history u) th = flags_of (history t) th)"
      then have flag: "flags_of (history u) a = flags_of (history s) a OR waiting_bit" using t assms(6) by simp
      have "wp (mutex_lock env rely (Suc n) a) (\<lambda>r t. r \<and> \<not> fault t \<and> owner t = a) u"
        by (rule lock_breaks_in [OF assms(1) _ _ assms(4) _ _ assms(8)])
          (use u flag assms(6,7) or_and_bit in \<open>simp_all\<close>)
      then show "wp (do { second \<leftarrow> mutex_lock env rely (Suc n) a; return (first, second) })
          (\<lambda>(first, second) t. first \<and> second \<and> owner t = a \<and> \<not> fault t) u"
        by (rule wp_then) (use u in \<open>simp add: wp\<close>)
    qed (use t in simp_all)
  qed
qed

section \<open>The notification, waited for\<close>

text \<open>A kernel on which nobody sets the flag of \<open>me\<close> in time.\<close>

definition wait_times_out :: "pw_call env \<Rightarrow> int \<Rightarrow> bool" where
  "wait_times_out env me \<longleftrightarrow>
     (\<forall>h t. of_int (ret (env h (PwAs me (PwFlagsWait (bit_mask notification_flag) wait_options t)))) = osFlagsErrorTimeout)"

definition note_at :: "bool \<Rightarrow> int \<Rightarrow> notification \<Rightarrow> bool" where
  "note_at n b s \<longleftrightarrow> notified s = n \<and> blocked_thread_id s = b \<and> \<not> fault s"

lemma timeout_is_error: "is_os_flags_error osFlagsErrorTimeout"
  by (simp add: is_os_flags_error_def)

lemma flags_wait_times_out:
  assumes "wait_times_out env me" and "\<And>t. note_at n b t \<Longrightarrow> note_at n b (rely t)" and "note_at n b s"
  shows "wp (note_flags_wait env rely me ticks) (\<lambda>r t. r = osFlagsErrorTimeout \<and> note_at n b t) s"
  using assms(1,3) assms(2)
  by (simp add: note_flags_wait_def flags_call_def as_thread_def wp wait_times_out_def note_at_def)

lemma wait_ticks_times_out:
  assumes "wait_times_out env me" and "\<And>t. note_at n b t \<Longrightarrow> note_at n b (rely t)" and "note_at n b s" and "0 < ticks"
  shows "wp (note_wait_ticks env rely me ticks) (\<lambda>r t. r = osFlagsErrorTimeout \<and> note_at n b t) s"
proof -
  let ?f = "\<lambda>ticks_in result. do {
      result \<leftarrow> note_flags_wait env rely me ticks_in;
      return (if is_os_flags_error result then result = osFlagsErrorTimeout else \<not> is_bit_set result notification_flag, result)
    }"
  have "wp (repeat_for_ticks ticks r ?f) (\<lambda>r t. r = osFlagsErrorTimeout \<and> note_at n b t) s"
    if "note_at n b s" "0 < ticks \<or> r = osFlagsErrorTimeout" for r s
    using that
  proof (induction "nat ticks" arbitrary: ticks r s rule: less_induct)
    case less
    show ?case
    proof (cases "0 < ticks")
      case True
      show ?thesis
        unfolding repeat_for_ticks.simps [of ticks] if_P [OF True] State_Monad.bind_assoc
        by (rule wp_then [OF flags_wait_times_out [OF assms(1,2) less.prems(1)]], assumption)
          (use True in \<open>simp add: wp_bind wp_return timeout_is_error less.hyps\<close>)
    next
      case False
      then show ?thesis using less.prems by (simp add: repeat_for_ticks.simps wp_return)
    qed
  qed
  then show ?thesis using assms(3,4) by (simp add: note_wait_ticks_def)
qed

text \<open>
  A timed acquire that times out leaves its thread recorded as the blocked one: it answers no, and every later
  try, of any thread, fails its check.
\<close>

lemma acquire_timeout_blocks:
  assumes "sync_kernel env" and "wait_times_out env me" and "\<And>b t. note_at False b t \<Longrightarrow> note_at False b (rely t)"
    and "note_at False 0 s" and "me \<noteq> 0" and "0 < ticks" and "ticks \<noteq> uint osWaitForever"
  shows "wp (do { r \<leftarrow> note_try_acquire_for env rely fuel me ticks; again \<leftarrow> note_try_acquire env other; return r })
     (\<lambda>r t. r = Some False \<and> fault t) s"
proof -
  have "wp (note_try_acquire_for env rely fuel me ticks) (\<lambda>r t. r = Some False \<and> note_at False me t) s"
    using assms(4,5,6,7)
    by (auto simp: note_try_acquire_for_def note_try_acquire_for_with_status_def locked_def kernel_lock_def kernel_unlock_def
        flags_call_def as_thread_def wp sync_kernelD [OF assms(1)] note_at_def timeout_is_error
        intro!: wp_mono [OF wait_ticks_times_out [OF assms(2,3) _ assms(6)]])
  then show ?thesis
    by (rule wp_then) (use assms(5) in \<open>auto simp: note_defs wp note_at_def\<close>)
qed

section \<open>The semaphores\<close>

text \<open>The count of a semaphore, from the calls made, and a kernel that keeps it, as documented, up to a maximum.\<close>

fun count_of :: "(pw_call \<times> reply) list \<Rightarrow> nat" where
  "count_of [] = 0"
| "count_of ((PwOs (OsSemaphoreRelease i), r) # h) = (if ret r = osOK then count_of h + 1 else count_of h)"
| "count_of ((PwOs (OsSemaphoreAcquire i t), r) # h) = (if ret r = osOK then count_of h - 1 else count_of h)"
| "count_of (c # h) = count_of h"

definition counting_kernel :: "nat \<Rightarrow> pw_call env \<Rightarrow> bool" where
  "counting_kernel max_count env \<longleftrightarrow> (\<forall>h i t.
     ret (env h (PwOs (OsSemaphoreRelease i))) = (if count_of h < max_count then osOK else osErrorResource) \<and>
     ret (env h (PwOs (OsSemaphoreAcquire i t))) =
       (if 0 < count_of h then osOK else if t = 0 then osErrorResource else osErrorTimeout))"

lemma counting_kernelD:
  assumes "counting_kernel max_count env"
  shows "ret (env h (PwOs (OsSemaphoreRelease i))) = (if count_of h < max_count then osOK else osErrorResource)"
    and "ret (env h (PwOs (OsSemaphoreAcquire i t))) = (if 0 < count_of h then osOK else if t = 0 then osErrorResource else osErrorTimeout)"
  using assms by (simp_all add: counting_kernel_def)

text \<open>The operations of the semaphores and what they do to the count.\<close>

datatype sem_op = Release nat | TryAcquire | TryAcquireFor int

fun sem_run :: "pw_call env \<Rightarrow> sem_op list \<Rightarrow> bool list sem_m" where
  "sem_run env [] = return []"
| "sem_run env (Release n # ops) = do { sem_release env n; sem_run env ops }"
| "sem_run env (TryAcquire # ops) = do { r \<leftarrow> sem_try_acquire env; rs \<leftarrow> sem_run env ops; return (r # rs) }"
| "sem_run env (TryAcquireFor t # ops) =
     do { r \<leftarrow> semaphore_try_acquire_for env t; rs \<leftarrow> sem_run env ops; return (r # rs) }"

fun sem_spec :: "nat \<Rightarrow> sem_op list \<Rightarrow> nat \<Rightarrow> bool list \<times> nat" where
  "sem_spec m [] c = ([], c)"
| "sem_spec m (Release n # ops) c = sem_spec m ops (min m (c + n))"
| "sem_spec m (x # ops) c = (let (rs, c') = sem_spec m ops (c - 1) in ((0 < c) # rs, c'))"

definition counts :: "nat \<Rightarrow> nat \<Rightarrow> semaphore \<Rightarrow> bool" where
  "counts m c s \<longleftrightarrow> \<not> fault s \<and> count_of (history s) = c \<and> c \<le> m"

lemma sem_release_counts:
  assumes "counting_kernel m env" and "counts m c s"
  shows "wp (sem_release env n) (\<lambda>_. counts m (min m (c + n))) s"
  using assms(2)
proof (induction n arbitrary: s c)
  case 0
  then show ?case by (simp add: wp counts_def min_def)
next
  case (Suc n)
  show ?case
  proof (cases "c < m")
    case True
    have "counts m (Suc c) (s\<lparr>history := (PwOs (OsSemaphoreRelease (sem_id s)), env (history s) (PwOs (OsSemaphoreRelease (sem_id s)))) # history s\<rparr>)"
      using Suc.prems True by (simp add: counts_def counting_kernelD [OF assms(1)])
    from Suc.IH [OF this] show ?thesis
      using Suc.prems True by (simp add: wp counts_def counting_kernelD [OF assms(1)])
  next
    case False
    then show ?thesis using Suc.prems by (auto simp add: wp counts_def counting_kernelD [OF assms(1)])
  qed
qed

lemma sem_try_counts:
  assumes "counting_kernel m env" and "counts m c s"
  shows "wp (sem_try_acquire env) (\<lambda>r t. r = (0 < c) \<and> counts m (c - 1) t) s"
  using assms(2) by (auto simp: sem_try_acquire_def wp counts_def counting_kernelD [OF assms(1)])

lemma sem_try_for_counts:
  assumes "counting_kernel m env" and "counts m c s"
  shows "wp (semaphore_try_acquire_for env ticks) (\<lambda>r t. r = (0 < c) \<and> counts m (c - 1) t) s"
proof -
  have "uint (of_int (min (max 1 ticks) less_than_forever) :: u32) = min (max 1 ticks) less_than_forever"
    by (simp add: uint_word_of_int)
  then have t: "(of_int (min (max 1 ticks) less_than_forever) :: u32) \<noteq> 0" by (auto simp del: of_int_min)
  show ?thesis
    unfolding semaphore_try_acquire_for_def sem_try_acquire_for_def
    by (subst repeat_for_ticks.simps)
      (use assms(2) t in \<open>auto simp: wp counts_def counting_kernelD [OF assms(1)]\<close>)
qed

text \<open>
  On a kernel with counting semaphores the binary and the counting semaphore count: a release of \<open>n\<close> adds \<open>n\<close> up to
  the maximum, an acquire, timed or not, is answered yes if and only if there is something to take, which it takes
  (here nobody else releases while it waits).
\<close>

lemma semaphore_counts:
  assumes "counting_kernel m env" and "\<not> fault s" and "count_of (history s) \<le> m"
  shows "wp (sem_run env ops) (\<lambda>rs t. \<not> fault t \<and> (rs, count_of (history t)) = sem_spec m ops (count_of (history s))) s"
proof -
  have "wp (sem_run env ops) (\<lambda>rs t. counts m (snd (sem_spec m ops c)) t \<and> rs = fst (sem_spec m ops c)) s" if "counts m c s" for c s
    using that
  proof (induction ops arbitrary: s c)
    case Nil
    then show ?case by (simp add: wp)
  next
    case (Cons x ops)
    have answered: "wp (do { r \<leftarrow> op; rs \<leftarrow> sem_run env ops; return (r # rs) })
        (\<lambda>rs t. counts m (snd (sem_spec m ops (c - 1))) t \<and> rs = (0 < c) # fst (sem_spec m ops (c - 1))) s"
      if op: "wp op (\<lambda>r t. r = (0 < c) \<and> counts m (c - 1) t) s" for op
      by (rule wp_then [OF op], erule conjE, rule wp_then [OF Cons.IH], assumption) (simp add: wp)
    show ?case
    proof (cases x)
      case (Release n)
      then show ?thesis
        by (simp, intro wp_then [OF sem_release_counts [OF assms(1) Cons.prems]] Cons.IH)
    next
      case TryAcquire
      then show ?thesis using answered [OF sem_try_counts [OF assms(1) Cons.prems]] by (simp add: Let_def case_prod_unfold)
    next
      case (TryAcquireFor t)
      then show ?thesis using answered [OF sem_try_for_counts [OF assms(1) Cons.prems]] by (simp add: Let_def case_prod_unfold)
    qed
  qed
  from this [of "count_of (history s)" s] show ?thesis
    by (rule wp_mono) (use assms in \<open>auto simp: counts_def prod_eq_iff\<close>)
qed

section \<open>Examples\<close>

text \<open>
  A kernel that keeps the flags and a semaphore of at most three, with an answer for the waits for flags that are
  not set.
\<close>

definition example_kernel :: "int \<Rightarrow> pw_call env" where
  "example_kernel unset h c = \<lparr>ret = (case c of
       PwAs me PwThreadGetId \<Rightarrow> me
     | PwAs me (PwFlagsWait f opts t) \<Rightarrow> if flags_of h me AND f = f then uint (flags_of h me) else unset
     | PwOs (OsSemaphoreRelease i) \<Rightarrow> if count_of h < 3 then 0 else osErrorResource
     | PwOs (OsSemaphoreAcquire i t) \<Rightarrow> if 0 < count_of h then 0 else if t = 0 then osErrorResource else osErrorTimeout
     | _ \<Rightarrow> 0), outs = [], payload = []\<rparr>"

definition silent_kernel :: "pw_call env" where
  "silent_kernel h c = \<lparr>ret = (case c of PwAs me PwThreadGetId \<Rightarrow> me | PwAs me (PwFlagsWait f opts t) \<Rightarrow> - 2 | _ \<Rightarrow> 0),
     outs = [], payload = []\<rparr>"

lemma example_fine: "sync_kernel (example_kernel n)" "flags_kernel (example_kernel n)" "counting_kernel 3 (example_kernel n)"
    "sync_kernel silent_kernel" "wait_times_out silent_kernel me"
  by (simp_all add: sync_kernel_def flags_kernel_def counting_kernel_def wait_times_out_def example_kernel_def silent_kernel_def
      is_os_flags_error_def)

definition new_mutex :: pw_mutex where
  "new_mutex = \<lparr>history = [], fault = False, lock_counter = 0, prev_lock = 0, spin_locked = False, saved_irq_state = 0,
     nested_critical_sections = 0, tick_count_high = 0, tick_count_low = 0, os_mutex = 1, owner = 0\<rparr>"

definition new_notification :: notification where
  "new_notification = \<lparr>history = [], fault = False, lock_counter = 0, prev_lock = 0, spin_locked = False, saved_irq_state = 0,
     nested_critical_sections = 0, tick_count_high = 0, tick_count_low = 0, blocked_thread_id = 0, notified = False\<rparr>"

definition new_semaphore :: semaphore where
  "new_semaphore = \<lparr>history = [], fault = False, lock_counter = 0, prev_lock = 0, spin_locked = False, saved_irq_state = 0,
     nested_critical_sections = 0, tick_count_high = 0, tick_count_low = 0, sem_id = 1\<rparr>"


lemma notification_token_witness:
  "wp (lock_run note_try_acquire note_release (example_kernel 0) [Give 1, Give 1, Take 2, Take 2])
     (\<lambda>rs t. rs = [True, False] \<and> \<not> notified t) new_notification"
  by (rule wp_mono [OF notification_token [OF example_fine(1)]]) (auto simp: new_notification_def note_token_def)

lemma try_lock_for_in_time_witness:
  "wp (mutex_try_lock_for (example_kernel 0) (\<lambda>s. if 2 \<le> length (delays (history s)) then s\<lparr>owner := 0\<rparr> else s) 1 5)
     (\<lambda>r t. r \<and> owner t = 1) (new_mutex\<lparr>owner := 2\<rparr>)"
  by (rule wp_mono [OF try_lock_for_in_time [OF example_fine(1), of _ _ _ 2]])
    (auto simp: new_mutex_def there_from_def mutex_token_def)

lemma mutex_second_owner_witness:
  "wp (do { mutex_unlock (example_kernel 0) 1; first \<leftarrow> mutex_lock (example_kernel 0) (\<lambda>s. s) (Suc 0) 2;
      second \<leftarrow> mutex_lock (example_kernel 0) (\<lambda>s. s) (Suc 0) 1; return (first, second) })
    (\<lambda>(first, second) t. first \<and> second \<and> owner t = 1) (new_mutex\<lparr>owner := 1\<rparr>)"
  by (rule wp_mono [OF mutex_second_owner [OF example_fine(2)]])
    (auto simp: new_mutex_def is_os_flags_error_def bit_mask_def mutex_flag_def)

lemma acquire_timeout_blocks_witness:
  "wp (do { r \<leftarrow> note_try_acquire_for silent_kernel (\<lambda>s. s) 0 1 100; again \<leftarrow> note_try_acquire silent_kernel 2; return r })
     (\<lambda>r t. r = Some False \<and> fault t) new_notification"
  by (rule acquire_timeout_blocks [OF example_fine(4,5)]) (simp_all add: note_at_def new_notification_def)

lemma semaphore_counts_witness:
  "wp (sem_run (example_kernel 0) [Release 5, TryAcquire, TryAcquireFor 10, TryAcquire, TryAcquire])
     (\<lambda>rs t. rs = [True, True, True, False] \<and> \<not> fault t) new_semaphore"
  by (rule wp_mono [OF semaphore_counts [OF example_fine(3)]]) (auto simp: new_semaphore_def)

end
