(* ===== verification/Pw_Thread.thy ===== *)
theory Pw_Thread
  imports Pw_Base
begin

text \<open>
  The life of a thread in the Pigweed backend, \<open>pw_thread_cmsis_rtos/thread.cc\<close>: the object \<open>Thread\<close> in the hands of
  the thread that makes it (the maker), the allocated \<open>Context\<close> that it shares with the new thread, and which of
  the two frees it.

  The kernel lock makes each critical section one step, and so are the accesses between two of them; a run is any
  interleaving of the steps of both threads.  \<open>have_join\<close> is \<open>PW_THREAD_CMSIS_RTOS_HAVE_JOIN_DETACH\<close>: whether
  the kernel joins threads (RTX) or the code does it with a notification (FreeRTOS).  Kernel calls succeed,
  and the maker joins or detaches the thread once, as the destructor of \<open>Thread\<close> demands.
\<close>

section \<open>State\<close>

datatype maker_at = Constructing | Ready | Joining | Woken | Detaching | Finished
datatype child_at = Running | Exiting | Terminated

record life =
  bits :: byte
  os_attr_bits :: u32
  native :: int
  join_notified :: bool
  alive :: bool
  frees :: nat
  bad_access :: bool
  failed_check :: bool
  maker :: maker_at
  child :: child_at

definition COMPLETED :: byte where "COMPLETED = push_bit 1 1"
definition DETACHED :: byte where "DETACHED = push_bit 2 1"

definition completed :: "life \<Rightarrow> bool" where "completed s \<longleftrightarrow> bits s AND COMPLETED = COMPLETED"
definition detached :: "life \<Rightarrow> bool" where "detached s \<longleftrightarrow> bits s AND DETACHED = DETACHED"

text \<open>An access to the context, and its deletion.\<close>

definition access :: "life \<Rightarrow> life" where
  "access s = (if alive s then s else s\<lparr>bad_access := True\<rparr>)"

definition delete_context :: "life \<Rightarrow> life" where
  "delete_context s = (access s)\<lparr>alive := False, frees := frees s + 1\<rparr>"

definition check :: "bool \<Rightarrow> life \<Rightarrow> life" where
  "check b s = (if b then s else s\<lparr>failed_check := True\<rparr>)"

definition set_completed :: "bool \<Rightarrow> life \<Rightarrow> life" where
  "set_completed have_join s =
     (if have_join then (access s)\<lparr>bits := bits s OR COMPLETED\<rparr>
      else (access s)\<lparr>bits := bits s OR COMPLETED, join_notified := True\<rparr>)"

definition set_detached :: "life \<Rightarrow> life" where
  "set_detached s = (access s)\<lparr>bits := bits s OR DETACHED\<rparr>"

section \<open>Operations\<close>

text \<open>\<open>Context::Context\<close>: from here on the new thread runs.\<close>

definition context_new :: "bool \<Rightarrow> u32 \<Rightarrow> life" where
  "context_new have_join attr_bits =
     \<lparr>bits = (if attr_bits = 0 then DETACHED else 0),
      os_attr_bits = (if attr_bits \<noteq> 0 \<and> \<not> have_join then 0 else attr_bits),
      native = 1, join_notified = False, alive = True, frees = 0, bad_access = False, failed_check = False,
      maker = Constructing, child = Running\<rparr>"

text \<open>The rest of the constructor of \<open>Thread\<close>, outside the critical section of that of \<open>Context\<close>.\<close>

definition thread_constructed :: "life \<Rightarrow> life" where
  "thread_constructed s = (if detached s then (access s)\<lparr>native := 0, maker := Ready\<rparr> else (access s)\<lparr>maker := Ready\<rparr>)"

text \<open>The end of \<open>thread_entry_point\<close>: the critical section after the thread's function, and its exit.\<close>

definition thread_function_ended :: "bool \<Rightarrow> life \<Rightarrow> life" where
  "thread_function_ended have_join s =
     (let s = access s in (if detached s then delete_context s else set_completed have_join s)\<lparr>child := Exiting\<rparr>)"

definition thread_exit :: "life \<Rightarrow> life" where
  "thread_exit s = s\<lparr>child := Terminated\<rparr>"

text \<open>The checks of \<open>join\<close> and \<open>detach\<close>; \<open>joinable\<close> reads the context too.\<close>

definition thread_checks :: "life \<Rightarrow> life" where
  "thread_checks s = check (native s \<noteq> 0) (if native s = 0 then s else check (\<not> detached s) (access s))"

definition join_begin :: "life \<Rightarrow> life" where
  "join_begin s = (thread_checks s)\<lparr>maker := Joining\<rparr>"

text \<open>When \<open>osThreadJoin\<close> or the acquire of the notification returns.\<close>

definition join_returns :: "bool \<Rightarrow> life \<Rightarrow> bool" where
  "join_returns have_join s \<longleftrightarrow> (if have_join then child s = Terminated else join_notified s)"

definition join_wake :: "bool \<Rightarrow> life \<Rightarrow> life" where
  "join_wake have_join s =
     (if have_join then s\<lparr>maker := Woken\<rparr> else (access s)\<lparr>join_notified := False, maker := Woken\<rparr>)"

definition join_end :: "life \<Rightarrow> life" where
  "join_end s = (delete_context s)\<lparr>native := 0, maker := Finished\<rparr>"

definition detach_begin :: "life \<Rightarrow> life" where
  "detach_begin s = (thread_checks s)\<lparr>maker := Detaching\<rparr>"

definition detach_end :: "life \<Rightarrow> life" where
  "detach_end s =
     (let s = access s in (if completed s then delete_context s else set_detached s)\<lparr>native := 0, maker := Finished\<rparr>)"

text \<open>The destructor of \<open>Thread\<close>.\<close>

definition thread_destroy :: "life \<Rightarrow> life" where
  "thread_destroy s = check (native s = 0) s"

section \<open>Runs\<close>

inductive thread_step :: "bool \<Rightarrow> life \<Rightarrow> life \<Rightarrow> bool" for have_join where
  constructed: "maker s = Constructing \<Longrightarrow> thread_step have_join s (thread_constructed s)"
| joining: "maker s = Ready \<Longrightarrow> native s \<noteq> 0 \<Longrightarrow> thread_step have_join s (join_begin s)"
| woken: "maker s = Joining \<Longrightarrow> join_returns have_join s \<Longrightarrow> thread_step have_join s (join_wake have_join s)"
| joined: "maker s = Woken \<Longrightarrow> thread_step have_join s (join_end s)"
| detaching: "maker s = Ready \<Longrightarrow> native s \<noteq> 0 \<Longrightarrow> thread_step have_join s (detach_begin s)"
| detached: "maker s = Detaching \<Longrightarrow> thread_step have_join s (detach_end s)"
| ended: "child s = Running \<Longrightarrow> thread_step have_join s (thread_function_ended have_join s)"
| exited: "child s = Exiting \<Longrightarrow> thread_step have_join s (thread_exit s)"

inductive thread_run :: "bool \<Rightarrow> u32 \<Rightarrow> life \<Rightarrow> bool" for have_join attr_bits where
  start: "thread_run have_join attr_bits (context_new have_join attr_bits)"
| step: "thread_run have_join attr_bits s \<Longrightarrow> thread_step have_join s t \<Longrightarrow> thread_run have_join attr_bits t"

inductive_cases thread_stepE: "thread_step have_join s t"

lemmas life_defs = access_def delete_context_def check_def set_completed_def set_detached_def thread_constructed_def
  thread_function_ended_def thread_exit_def thread_checks_def join_begin_def join_returns_def join_wake_def join_end_def
  detach_begin_def detach_end_def completed_def detached_def Let_def

section \<open>Who frees the context\<close>

lemma bit_flags: "bit COMPLETED n \<longleftrightarrow> n = 1" "bit DETACHED n \<longleftrightarrow> n = 2"
  unfolding COMPLETED_def DETACHED_def bit_push_bit_iff bit_1_iff by auto

lemma flag_set: "b AND COMPLETED = COMPLETED \<longleftrightarrow> bit b 1" "b AND DETACHED = DETACHED \<longleftrightarrow> bit b 2" for b :: byte
  unfolding COMPLETED_def DETACHED_def by (rule byte_flag, simp)+

lemma bits_facts [simp]:
  "(b OR COMPLETED) AND COMPLETED = COMPLETED" "(b OR DETACHED) AND DETACHED = DETACHED"
  "(b OR COMPLETED) AND DETACHED = DETACHED \<longleftrightarrow> b AND DETACHED = DETACHED"
  "(b OR DETACHED) AND COMPLETED = COMPLETED \<longleftrightarrow> b AND COMPLETED = COMPLETED"
  "DETACHED AND COMPLETED \<noteq> COMPLETED" for b :: byte
  unfolding flag_set bit_or_iff bit_flags by simp_all

lemma flags_nonzero [simp]: "COMPLETED \<noteq> 0" "DETACHED \<noteq> 0"
  by (simp_all add: COMPLETED_def DETACHED_def)

definition joinable_inv :: "bool \<Rightarrow> life \<Rightarrow> bool" where
  "joinable_inv have_join s \<longleftrightarrow> \<not> bad_access s \<and> \<not> failed_check s \<and>
     (if maker s = Finished
      then native s = 0 \<and>
        (if child s = Running then alive s \<and> frees s = 0 \<and> detached s else \<not> alive s \<and> frees s = 1)
      else native s \<noteq> 0 \<and> alive s \<and> frees s = 0 \<and> \<not> detached s \<and> (completed s \<longleftrightarrow> child s \<noteq> Running) \<and>
        (maker s = Woken \<longrightarrow> child s \<noteq> Running) \<and>
        (\<not> have_join \<longrightarrow> join_notified s = (child s \<noteq> Running \<and> maker s \<noteq> Woken)))"

lemma joinable_inv_step: "thread_step have_join s t \<Longrightarrow> joinable_inv have_join s \<Longrightarrow> joinable_inv have_join t"
  by (erule thread_stepE) (auto simp: joinable_inv_def life_defs split: if_splits)

lemma joinable_inv_run: "thread_run have_join attr_bits s \<Longrightarrow> attr_bits \<noteq> 0 \<Longrightarrow> joinable_inv have_join s"
proof (induction rule: thread_run.induct)
  case start
  then show ?case by (simp add: joinable_inv_def context_new_def completed_def detached_def)
next
  case (step s t)
  then show ?case by (blast intro: joinable_inv_step)
qed

text \<open>
  C30. Of a joinable thread no step accesses a context that is gone and no check fails, whoever is faster; the context is
  freed once, by the new thread or by the one that joins or detaches it, and when both are done it has been.
\<close>

theorem joinable_context_freed_once:
  assumes "thread_run have_join attr_bits s" and "attr_bits \<noteq> 0"
  shows "\<not> bad_access s \<and> \<not> failed_check s \<and> frees s \<le> 1 \<and> (alive s \<longleftrightarrow> frees s = 0) \<and>
    (maker s = Finished \<and> child s \<noteq> Running \<longrightarrow> frees s = 1 \<and> thread_destroy s = s)"
  using joinable_inv_run [OF assms] by (auto simp: joinable_inv_def thread_destroy_def check_def split: if_splits)

section \<open>How far the threads are\<close>

text \<open>The places of the maker and of the child are ordered as they are passed.\<close>

fun maker_rank :: "maker_at \<Rightarrow> nat" where
  "maker_rank Constructing = 0" | "maker_rank Ready = 1" | "maker_rank Detaching = 2" | "maker_rank Joining = 3"
| "maker_rank Woken = 4" | "maker_rank Finished = 5"

fun child_rank :: "child_at \<Rightarrow> nat" where
  "child_rank Running = 0" | "child_rank Exiting = 1" | "child_rank Terminated = 2"

lemma rank_inject [simp]: "maker_rank m = maker_rank n \<longleftrightarrow> m = n" "child_rank c = child_rank d \<longleftrightarrow> c = d"
  by (cases m; cases n; simp) (cases c; cases d; simp)

instantiation maker_at :: linorder
begin
definition less_eq_maker_at :: "maker_at \<Rightarrow> maker_at \<Rightarrow> bool" where "m \<le> n \<longleftrightarrow> maker_rank m \<le> maker_rank n"
definition less_maker_at :: "maker_at \<Rightarrow> maker_at \<Rightarrow> bool" where "m < n \<longleftrightarrow> maker_rank m < maker_rank n"
instance by standard (auto simp: less_eq_maker_at_def less_maker_at_def)
end

instantiation child_at :: linorder
begin
definition less_eq_child_at :: "child_at \<Rightarrow> child_at \<Rightarrow> bool" where "m \<le> n \<longleftrightarrow> child_rank m \<le> child_rank n"
definition less_child_at :: "child_at \<Rightarrow> child_at \<Rightarrow> bool" where "m < n \<longleftrightarrow> child_rank m < child_rank n"
instance by standard (auto simp: less_eq_child_at_def less_child_at_def)
end

lemma step_forward:
  "thread_step have_join s t \<Longrightarrow> maker s < maker t \<and> child s = child t \<or> maker s = maker t \<and> child s < child t"
  by (erule thread_stepE) (auto simp: less_maker_at_def less_child_at_def life_defs)

text \<open>Every step brings the threads nearer to the end.\<close>

definition steps_left :: "life \<Rightarrow> nat" where
  "steps_left s = (5 - maker_rank (maker s)) + (2 - child_rank (child s))"

lemma rank_le: "maker_rank m \<le> 5" "child_rank c \<le> 2"
  by (cases m; simp) (cases c; simp)

lemma steps_left_step: "thread_step have_join s t \<Longrightarrow> steps_left t < steps_left s"
  using step_forward [of have_join s t] rank_le(1) [of "maker t"] rank_le(2) [of "child t"]
  by (auto simp: steps_left_def less_maker_at_def less_child_at_def)

text \<open>
  C31. Every run of a joinable thread whose function returns comes to its end, and it does not get stuck before: where
  no step is left the thread has exited, the maker has joined or detached it, and the context is freed.
\<close>

theorem joinable_runs_end:
  assumes "thread_run have_join attr_bits s" and "attr_bits \<noteq> 0"
  shows "(\<forall>t. thread_step have_join s t \<longrightarrow> steps_left t < steps_left s) \<and>
    ((\<exists>t. thread_step have_join s t) \<or> (maker s = Finished \<and> child s = Terminated \<and> frees s = 1))"
proof -
  note inv = joinable_inv_run [OF assms]
  have "maker s = Finished \<and> child s = Terminated \<and> frees s = 1" if stuck: "\<nexists>t. thread_step have_join s t"
  proof -
    have "child s = Terminated" using stuck by (cases "child s") (auto intro: thread_step.intros)
    moreover have "maker s = Finished"
    proof (cases "maker s")
      case Joining
      then have "join_returns have_join s" using inv \<open>child s = Terminated\<close> by (simp add: joinable_inv_def join_returns_def)
      then show ?thesis using stuck Joining by (blast intro: thread_step.woken)
    qed (use stuck inv in \<open>auto simp: joinable_inv_def intro: thread_step.intros\<close>)
    ultimately show ?thesis using inv by (simp add: joinable_inv_def)
  qed
  then show ?thesis using steps_left_step by blast
qed

section \<open>Detached threads\<close>

definition detached_inv :: "life \<Rightarrow> bool" where
  "detached_inv s \<longleftrightarrow> detached s \<and> (alive s \<longleftrightarrow> child s = Running) \<and>
     (maker s = Constructing \<or> maker s = Ready \<and> native s = 0)"

lemma detached_inv_step: "thread_step have_join s t \<Longrightarrow> detached_inv s \<Longrightarrow> detached_inv t"
  by (erule thread_stepE) (auto simp: detached_inv_def life_defs split: if_splits)

lemma detached_inv_run: "thread_run have_join attr_bits s \<Longrightarrow> attr_bits = 0 \<Longrightarrow> detached_inv s"
proof (induction rule: thread_run.induct)
  case start
  then show ?case by (simp add: detached_inv_def context_new_def detached_def)
next
  case (step s t)
  then show ?case by (blast intro: detached_inv_step)
qed

text \<open>
  C32. A thread started detached can end before its maker is back in the constructor of \<open>Thread\<close>, which then reads
  the context that is gone; nothing else in the run of a detached thread does.
\<close>

theorem detached_constructor_reads_freed:
  assumes "thread_run have_join 0 s" and "thread_step have_join s t" and "\<not> bad_access s"
  shows "bad_access t \<longleftrightarrow> maker s = Constructing \<and> maker t = Ready \<and> child s \<noteq> Running"
  using assms(2,3) detached_inv_run [OF assms(1)]
  by (cases rule: thread_step.cases) (auto simp: detached_inv_def life_defs split: if_splits)

section \<open>Examples\<close>

text \<open>A detached thread that ends at once, and a joinable one that is detached when it has ended.\<close>

definition short_detached :: life where
  "short_detached = thread_function_ended True (context_new True 0)"

definition short_joinable :: life where
  "short_joinable = detach_end (thread_function_ended False (detach_begin (thread_constructed (context_new False 1))))"

lemma short_detached_run: "thread_run True 0 short_detached"
  unfolding short_detached_def
  by (rule thread_run.step [OF thread_run.start]) (rule thread_step.ended, simp add: context_new_def)

lemma short_joinable_run: "thread_run False 1 short_joinable"
proof -
  have "thread_run False 1 (thread_constructed (context_new False 1))"
    by (rule thread_run.step [OF thread_run.start thread_step.constructed]) (simp add: context_new_def)
  then have "thread_run False 1 (detach_begin (thread_constructed (context_new False 1)))"
    by (rule thread_run.step [OF _ thread_step.detaching]) (simp_all add: context_new_def life_defs)
  then have "thread_run False 1 (thread_function_ended False (detach_begin (thread_constructed (context_new False 1))))"
    by (rule thread_run.step [OF _ thread_step.ended]) (simp add: context_new_def life_defs)
  then show ?thesis
    unfolding short_joinable_def
    by (rule thread_run.step [OF _ thread_step.detached]) (simp add: context_new_def life_defs)
qed

lemma detached_constructor_reads_freed_witness: "bad_access (thread_constructed short_detached)"
proof -
  have "bad_access (thread_constructed short_detached) \<longleftrightarrow>
      maker short_detached = Constructing \<and> maker (thread_constructed short_detached) = Ready \<and> child short_detached \<noteq> Running"
    by (rule detached_constructor_reads_freed [OF short_detached_run thread_step.constructed])
      (simp_all add: short_detached_def context_new_def life_defs)
  then show ?thesis by (simp add: short_detached_def context_new_def life_defs)
qed

lemma joinable_context_freed_once_witness: "frees short_joinable = 1 \<and> \<not> bad_access short_joinable"
  using joinable_context_freed_once [OF short_joinable_run]
  by (simp add: short_joinable_def context_new_def life_defs)

lemma joinable_runs_end_witness: "\<exists>t. thread_step False short_joinable t \<and> steps_left t < steps_left short_joinable"
  using joinable_runs_end [OF short_joinable_run]
  by (auto simp: short_joinable_def context_new_def life_defs)

end
