(* ===== verification/Pw_Options.thy ===== *)
theory Pw_Options
  imports Pw_Base C_Heap
begin

text \<open>
  The options of a Pigweed thread, \<open>pw_thread_cmsis_rtos/options.h\<close>: the attributes handed to the kernel, and who owns
  the name.  A name is a pointer of the caller or, when duplicated, a block of the heap that the options free.
\<close>

record thread_options = pw_world +
  name_heap :: "byte list heap"
  attr_name :: nat
  attr_bits :: u32
  attr_flags :: byte

type_synonym 'a options_m = "(thread_options, 'a) state"

abbreviation (input) osThreadJoinable :: u32 where "osThreadJoinable \<equiv> 1"

definition NAME_DYNAMIC :: byte where "NAME_DYNAMIC = push_bit 1 1"

definition is_name_dynamically_allocated :: "thread_options \<Rightarrow> bool" where
  "is_name_dynamically_allocated s \<longleftrightarrow> attr_flags s AND NAME_DYNAMIC = NAME_DYNAMIC"

definition set_name_dynamically_allocated :: "bool \<Rightarrow> unit options_m" where
  "set_name_dynamically_allocated b =
     modify (\<lambda>s. s\<lparr>attr_flags := (if b then attr_flags s OR NAME_DYNAMIC else attr_flags s AND NOT NAME_DYNAMIC)\<rparr>)"

definition delete_name :: "unit options_m" where
  "delete_name =
     do {
       p \<leftarrow> gets attr_name;
       h \<leftarrow> gets name_heap;
       do_if (h_get h p = None) crash;
       modify (\<lambda>s. s\<lparr>name_heap := h_free h p\<rparr>)
     }"

definition options_new :: "unit options_m" where
  "options_new = modify (\<lambda>s. s\<lparr>attr_name := 0, attr_bits := osThreadJoinable, attr_flags := 0\<rparr>)"

definition options_delete :: "unit options_m" where
  "options_delete = do { d \<leftarrow> gets is_name_dynamically_allocated; do_if d delete_name }"

text \<open>
  The name is given by its address and, where the caller owns it, its characters; a name in the heap is read there.
\<close>

definition drop_name :: "unit options_m" where
  "drop_name =
     do {
       d \<leftarrow> gets is_name_dynamically_allocated;
       do_if d (do { delete_name; set_name_dynamically_allocated False })
     }"

definition duplicate_name :: "pw_call env \<Rightarrow> byte list \<Rightarrow> unit options_m" where
  "duplicate_name env chars =
     do {
       h \<leftarrow> gets name_heap;
       a \<leftarrow> call env (PwNew (length chars + 1));
       let (p, h) = h_alloc h (nat a) (length chars + 1) (chars @ [0]);
       checked (p \<noteq> 0) ()
         (do { modify (\<lambda>t. t\<lparr>name_heap := h, attr_name := p\<rparr>); set_name_dynamically_allocated True })
     }"

definition options_set_name :: "pw_call env \<Rightarrow> nat \<Rightarrow> byte list \<Rightarrow> bool \<Rightarrow> unit options_m" where
  "options_set_name env name chars dup =
     do {
       d \<leftarrow> gets is_name_dynamically_allocated;
       own \<leftarrow> gets attr_name;
       drop_name;
       if dup then do { do_if (d \<and> name = own) crash; duplicate_name env chars }
       else modify (\<lambda>s. s\<lparr>attr_name := name\<rparr>)
     }"

section \<open>The name is freed\<close>

text \<open>
  The blocks the options own: those they have allocated over the heap \<open>h\<close> of the rest of the program.
\<close>

definition owns_name :: "byte list heap \<Rightarrow> thread_options \<Rightarrow> bool" where
  "owns_name h s \<longleftrightarrow> heap_ok (name_heap s) \<and>
     (if is_name_dynamically_allocated s then h_get h (attr_name s) = None \<and> h_get (name_heap s) (attr_name s) \<noteq> None \<and>
        h_free (name_heap s) (attr_name s) = h
      else name_heap s = h)"

lemma dynamic_flag [simp]:
  "(x OR NAME_DYNAMIC) AND NAME_DYNAMIC = NAME_DYNAMIC" "(x AND NOT NAME_DYNAMIC) AND NAME_DYNAMIC \<noteq> NAME_DYNAMIC"
  "NAME_DYNAMIC \<noteq> 0" for x :: byte
proof -
  have "bit NAME_DYNAMIC n \<longleftrightarrow> n = 1" for n unfolding NAME_DYNAMIC_def bit_push_bit_iff bit_1_iff by auto
  moreover have "y AND NAME_DYNAMIC = NAME_DYNAMIC \<longleftrightarrow> bit y 1" for y :: byte
    unfolding NAME_DYNAMIC_def by (rule byte_flag) simp
  ultimately show "(x OR NAME_DYNAMIC) AND NAME_DYNAMIC = NAME_DYNAMIC" "(x AND NOT NAME_DYNAMIC) AND NAME_DYNAMIC \<noteq> NAME_DYNAMIC"
    "NAME_DYNAMIC \<noteq> 0" by (auto simp: bit_simps) (simp add: NAME_DYNAMIC_def)
qed

text \<open>The state without a duplicated name, as after the constructor.\<close>

definition unnamed :: "byte list heap \<Rightarrow> thread_options \<Rightarrow> bool" where
  "unnamed h s \<longleftrightarrow> \<not> is_name_dynamically_allocated s \<and> name_heap s = h \<and> heap_ok h \<and> \<not> fault s"

lemma drop_name_unnamed:
  assumes "owns_name h s" and "\<not> fault s"
  shows "wp drop_name (\<lambda>_. unnamed h) s"
proof (cases "is_name_dynamically_allocated s")
  case True
  then show ?thesis
    using assms heap_ok_free [of "name_heap s" "attr_name s"]
    by (auto simp: drop_name_def wp delete_name_def set_name_dynamically_allocated_def unnamed_def owns_name_def
        is_name_dynamically_allocated_def)
next
  case False
  then show ?thesis using assms by (auto simp: drop_name_def wp unnamed_def owns_name_def)
qed

lemma duplicate_name_owned:
  assumes "unnamed h s"
  shows "wp (duplicate_name env chars)
    (\<lambda>_ t. owns_name h t \<and> (\<not> fault t \<longrightarrow> h_get (name_heap t) (attr_name t) = Some (chars @ [0]))) s"
proof -
  have fits: "h_get h a = None" "0 < a" "h_free h a = h" if "h_fits h a n" for a n
    using h_fits_fresh [OF that] by (auto intro: h_free_fresh)
  show ?thesis
    using assms by (auto simp: duplicate_name_def wp Let_def unnamed_def owns_name_def is_name_dynamically_allocated_def
        h_alloc_def h_free_Cons set_name_dynamically_allocated_def fits split: prod.splits)
qed

lemma owns_name_set:
  assumes "owns_name h s" and "\<not> fault s" and "\<not> is_name_dynamically_allocated s \<or> name \<noteq> attr_name s"
  shows "wp (options_set_name env name chars dup) (\<lambda>_ t. owns_name h t \<and>
     (\<not> fault t \<longrightarrow> (if dup then h_get (name_heap t) (attr_name t) = Some (chars @ [0]) else attr_name t = name))) s"
  unfolding options_set_name_def wp_bind [of "gets _"] wp_gets
proof (rule wp_then [OF drop_name_unnamed [OF assms(1,2)]])
  fix t :: thread_options
  assume t: "unnamed h t"
  have c: "(is_name_dynamically_allocated s \<and> name = attr_name s) = False" using assms(3) by simp
  show "wp (if dup then do { do_if (is_name_dynamically_allocated s \<and> name = attr_name s) crash; duplicate_name env chars }
        else modify (\<lambda>s. s\<lparr>attr_name := name\<rparr>))
      (\<lambda>_ t. owns_name h t \<and> (\<not> fault t \<longrightarrow> (if dup then h_get (name_heap t) (attr_name t) = Some (chars @ [0]) else attr_name t = name))) t"
    unfolding c using duplicate_name_owned [OF t] t
    by (auto simp: wp unnamed_def owns_name_def [of _ "attr_name_update _ _"] is_name_dynamically_allocated_def)
qed

text \<open>The destructor leaves the heap of the rest of the program.\<close>

lemma options_delete_frees:
  assumes "owns_name h s" and "\<not> fault s"
  shows "wp options_delete (\<lambda>_ t. name_heap t = h \<and> \<not> fault t) s"
  using assms by (auto simp: options_delete_def delete_name_def wp owns_name_def split: if_splits)

text \<open>Setting a duplicate of the options' own name reads the block that has been freed.\<close>

lemma set_own_name_faults:
  assumes "is_name_dynamically_allocated s"
  shows "wp (options_set_name env (attr_name s) chars True) (\<lambda>_. fault) s"
proof -
  have "keeps fault (duplicate_name env chars)"
    unfolding duplicate_name_def set_name_dynamically_allocated_def by (intro keeps) simp_all
  then show ?thesis
    unfolding options_set_name_def wp_bind [of "gets _"] wp_gets
    by (intro wp_then [OF wp_total]) (simp add: assms wp keepsD)
qed

end
