(* ===== verification/Retarget.thy ===== *)
theory Retarget
  imports Extern
begin

text \<open>
  Standard input and output over the serial line: \<open>utils/serial_retarget.c\<close>, and the functions the C libraries
  call for it in \<open>utils/toolchains/gcc_retarget.c\<close> and \<open>armclang_retarget.c\<close>.

  A string handed in is \<open>None\<close> for \<open>NULL\<close> or the bytes there are; taking more of them is a fault.  A buffer to read
  into is its length; the bytes stored in it are part of the answer.
\<close>

section \<open>The serial line\<close>

datatype rt_call = GetExampleSerial | SerialSetBaud int u32 | SerialPut int byte | SerialIsReadable int | SerialGet int

record retarget = "rt_call world" +
  serial_obj :: int
  serial_up :: bool

type_synonym 'a rt_m = "(retarget, 'a) state"

definition iotsdk_serial_setup :: "rt_call env \<Rightarrow> int rt_m" where
  "iotsdk_serial_setup env =
     do {
       o1 \<leftarrow> gets serial_obj;
       if o1 \<noteq> 0 then return 0
       else do {
         o2 \<leftarrow> call env GetExampleSerial;
         modify (\<lambda>s. s\<lparr>serial_obj := o2\<rparr>);
         if o2 = 0 then return (- 1) else do { tell env (SerialSetBaud o2 115200); return 0 }
       }
     }"

fun put_loop :: "rt_call env \<Rightarrow> int \<Rightarrow> nat \<Rightarrow> byte list \<Rightarrow> unit rt_m" where
  "put_loop env dev 0 bs = return ()"
| "put_loop env dev (Suc n) [] = crash"
| "put_loop env dev (Suc n) (b # bs) = do { tell env (SerialPut dev b); put_loop env dev n bs }"

definition iotsdk_serial_out :: "rt_call env \<Rightarrow> byte list option \<Rightarrow> u32 \<Rightarrow> int rt_m" where
  "iotsdk_serial_out env str len =
     do {
       dev \<leftarrow> gets serial_obj;
       if dev = 0 then return (- 1)
       else (case str of None \<Rightarrow> return (- 1)
         | Some bs \<Rightarrow> if len = 0 then return (- 1) else do { put_loop env dev (unat len) bs; return (sint len) })
     }"

fun get_loop :: "rt_call env \<Rightarrow> int \<Rightarrow> nat \<Rightarrow> nat \<Rightarrow> byte list rt_m" where
  "get_loop env dev 0 room = return []"
| "get_loop env dev (Suc n) 0 = do { crash; return [] }"
| "get_loop env dev (Suc n) (Suc room) =
     do { c \<leftarrow> call env (SerialGet dev); bs \<leftarrow> get_loop env dev n room; return (of_int c # bs) }"

definition iotsdk_serial_in :: "rt_call env \<Rightarrow> nat option \<Rightarrow> u32 \<Rightarrow> (int \<times> byte list) rt_m" where
  "iotsdk_serial_in env str len =
     do {
       dev \<leftarrow> gets serial_obj;
       if dev = 0 then return (- 1, [])
       else (case str of None \<Rightarrow> return (- 1, [])
         | Some room \<Rightarrow>
           if len = 0 then return (- 1, [])
           else do {
             r \<leftarrow> call env (SerialIsReadable dev);
             if r = 0 then return (0, [])
             else do { bs \<leftarrow> get_loop env dev (unat len) room; return (sint len, bs) }
           })
     }"

section \<open>GCC\<close>

definition gcc_serial :: "rt_call env \<Rightarrow> bool rt_m" where
  "gcc_serial env =
     do {
       up \<leftarrow> gets serial_up;
       if up then return True
       else do {
         r \<leftarrow> iotsdk_serial_setup env;
         if r \<noteq> 0 then return False else do { modify (\<lambda>s. s\<lparr>serial_up := True\<rparr>); return True }
       }
     }"

definition gcc_write :: "rt_call env \<Rightarrow> int \<Rightarrow> byte list option \<Rightarrow> u32 \<Rightarrow> int rt_m" where
  "gcc_write env fd str len =
     (if fd \<noteq> 1 \<and> fd \<noteq> 2 then return (- 1)
      else do { up \<leftarrow> gcc_serial env; if up then iotsdk_serial_out env str len else return (- 1) })"

definition gcc_read :: "rt_call env \<Rightarrow> int \<Rightarrow> nat option \<Rightarrow> u32 \<Rightarrow> (int \<times> byte list) rt_m" where
  "gcc_read env fd str len =
     (if fd \<noteq> 0 then return (- 1, [])
      else do { up \<leftarrow> gcc_serial env; if up then iotsdk_serial_in env str len else return (- 1, []) })"

section \<open>Arm Compiler\<close>

text \<open>\<open>open_w\<close> and \<open>open_a\<close> are the bits \<open>OPEN_W\<close> and \<open>OPEN_A\<close> of the library's \<open>rt_sys.h\<close>.\<close>

definition sys_open :: "rt_call env \<Rightarrow> u32 \<Rightarrow> u32 \<Rightarrow> string option \<Rightarrow> u32 \<Rightarrow> int rt_m" where
  "sys_open env open_w open_a file openmode =
     (case file of None \<Rightarrow> return (- 1)
      | Some path \<Rightarrow>
        if path = '':tt'' then do {
          r \<leftarrow> iotsdk_serial_setup env;
          return (if r \<noteq> 0 then - 1
            else if openmode AND open_w \<noteq> 0 then 1
            else if openmode AND open_a \<noteq> 0 then 2
            else 0)
        }
        else return (- 1))"

definition sys_write :: "rt_call env \<Rightarrow> int \<Rightarrow> byte list option \<Rightarrow> u32 \<Rightarrow> int rt_m" where
  "sys_write env fd str len =
     (if fd \<noteq> 1 \<and> fd \<noteq> 2 then return (- 1)
      else if str = None \<or> len = 0 then return (- 1)
      else do {
        written \<leftarrow> iotsdk_serial_out env str len;
        return (if written < 0 then - 1 else if of_int written \<noteq> len then - 1 else 0)
      })"

definition sys_read :: "rt_call env \<Rightarrow> int \<Rightarrow> nat option \<Rightarrow> u32 \<Rightarrow> (int \<times> byte list) rt_m" where
  "sys_read env fd str len =
     (if fd \<noteq> 0 then return (- 1, [])
      else if str = None \<or> len = 0 then return (- 1, [])
      else do {
        (r, bs) \<leftarrow> iotsdk_serial_in env str len;
        return (if r < 0 then - 1 else if of_int r \<noteq> len then - 1 else 0, bs)
      })"

section \<open>What goes over the line\<close>

text \<open>The bytes sent, oldest first.\<close>

fun sent :: "(rt_call \<times> reply) list \<Rightarrow> byte list" where
  "sent [] = []"
| "sent ((SerialPut dev b, r) # h) = sent h @ [b]"
| "sent (c # h) = sent h"

definition line_at :: "int \<Rightarrow> byte list \<Rightarrow> retarget \<Rightarrow> bool" where
  "line_at dev bs s \<longleftrightarrow> serial_obj s = dev \<and> \<not> fault s \<and> sent (history s) = bs"

lemma put_loop_sends:
  "line_at dev cs s \<Longrightarrow> n \<le> length bs \<Longrightarrow> wp (put_loop env dev n bs) (\<lambda>_. line_at dev (cs @ take n bs)) s"
proof (induction env dev n bs arbitrary: cs s rule: put_loop.induct)
  case (3 env dev n b bs)
  have "line_at dev (cs @ [b]) (s\<lparr>history := (SerialPut dev b, env (history s) (SerialPut dev b)) # history s\<rparr>)"
    using 3(2) by (simp add: line_at_def)
  from 3(1) [OF this] show ?case using 3(3) by (simp add: wp)
qed (simp_all add: wp)

text \<open>
  \<open>iotsdk_serial_out\<close> sends the bytes it is given in order, all of them, or none and answers \<open>-1\<close>.
\<close>

lemma serial_out_sends:
  assumes "line_at dev cs s" and "unat len \<le> length bs"
  shows "wp (iotsdk_serial_out env (Some bs) len)
    (\<lambda>r. if dev = 0 \<or> len = 0 then (\<lambda>t. r = - 1 \<and> t = s) else (\<lambda>t. r = sint len \<and> line_at dev (cs @ take (unat len) bs) t)) s"
proof (cases "dev = 0 \<or> len = 0")
  case True
  then show ?thesis using assms(1) by (auto simp: iotsdk_serial_out_def wp line_at_def)
next
  case False
  then show ?thesis
    using assms(1) unfolding iotsdk_serial_out_def
    by (auto simp: wp line_at_def intro!: wp_mono [OF put_loop_sends [OF assms]])
qed

lemma serial_out_answer:
  "wp (iotsdk_serial_out env str len) (\<lambda>r t. (r < 0 \<or> of_int r = len \<and> str \<noteq> None \<and> len \<noteq> 0) \<and>
     (str = None \<or> len = 0 \<longrightarrow> r = - 1 \<and> t = s)) s"
proof (cases "serial_obj s = 0 \<or> str = None \<or> len = 0")
  case True
  then show ?thesis by (auto simp: iotsdk_serial_out_def wp split: option.splits)
next
  case False
  then obtain bs where "str = Some bs" "serial_obj s \<noteq> 0" "len \<noteq> 0" by auto
  then show ?thesis
    unfolding iotsdk_serial_out_def wp_bind [of "gets _"] wp_gets by (simp, intro wp_then [OF wp_total]) (simp add: wp)
qed

text \<open>
  With the line set up the two toolchains write the same: \<open>_sys_write\<close> leaves the state \<open>_write\<close> leaves, and answers
  zero where that one answers a count.
\<close>

lemma writes_agree:
  assumes "serial_up s"
  shows "run_state (sys_write env fd str len) s =
    (case run_state (gcc_write env fd str len) s of (r, t) \<Rightarrow> (if r < 0 then - 1 else 0, t))"
proof -
  obtain r t where out: "run_state (iotsdk_serial_out env str len) s = (r, t)" by fastforce
  have r: "r < 0 \<or> of_int r = len \<and> str \<noteq> None \<and> len \<noteq> 0" "str = None \<or> len = 0 \<longrightarrow> r = - 1 \<and> t = s"
    using serial_out_answer [of env str len s] by (auto simp: wp_run_eq [OF out])
  have "wp (gcc_serial env) (\<lambda>a u. a = True \<and> u = s) s" using assms by (simp add: gcc_serial_def wp)
  note up = this [unfolded wp_exact]
  have "wp (sys_write env fd str len)
      (\<lambda>a u. (a, u) = (case run_state (gcc_write env fd str len) s of (r, t) \<Rightarrow> (if r < 0 then - 1 else 0, t))) s"
  proof (cases "fd \<noteq> 1 \<and> fd \<noteq> 2")
    case True
    then show ?thesis by (simp add: sys_write_def gcc_write_def wp)
  next
    case False
    then have "wp (gcc_write env fd str len) (\<lambda>a u. a = r \<and> u = t) s"
      by (auto simp: gcc_write_def wp wp_run_eq [OF up] wp_run_eq [OF out])
    note this [unfolded wp_exact]
    then show ?thesis using False r by (auto simp: sys_write_def wp wp_run_eq [OF out])
  qed
  then show ?thesis by (simp add: wp_run)
qed

text \<open>
  With nothing to read GCC's \<open>_read\<close> answers 0, the end of the input, and \<open>_sys_read\<close> an error; with anything to
  read both wait for as many bytes as the buffer has room for.
\<close>

lemma reads_differ:
  assumes "serial_up s" and "serial_obj s \<noteq> 0" and "len \<noteq> 0" and "ret (env (history s) (SerialIsReadable (serial_obj s))) = 0"
  shows "wp (gcc_read env 0 (Some room) len) (\<lambda>r _. r = (0, [])) s" and "wp (sys_read env 0 (Some room) len) (\<lambda>r _. r = (- 1, [])) s"
  using assms by (auto simp: gcc_read_def gcc_serial_def sys_read_def iotsdk_serial_in_def wp)

lemma get_loop_length: "n \<le> room \<Longrightarrow> wp (get_loop env dev n room) (\<lambda>bs t. length bs = n \<and> fault t = fault s) s"
proof (induction env dev n room arbitrary: s rule: get_loop.induct)
  case (3 env dev n room)
  define u where "u = s\<lparr>history := (SerialGet dev, env (history s) (SerialGet dev)) # history s\<rparr>"
  have "wp (get_loop env dev n room) (\<lambda>bs t. length bs = n \<and> fault t = fault u) u" using 3 by simp
  then have "wp (get_loop env dev n room \<bind> (\<lambda>bs. return (of_int (ret (env (history s) (SerialGet dev))) # bs)))
      (\<lambda>bs t. length bs = Suc n \<and> fault t = fault s) u"
    by (rule wp_then) (simp add: wp u_def)
  then show ?case by (simp add: wp_bind [of "call _ _"] wp_call u_def)
qed (simp_all add: wp)

end
