(* ===== verification/Kernel_Locks.thy ===== *)
theory Kernel_Locks
  imports Extern
begin

text \<open>
  Small adapters between a library's locks and the kernel: the mutexes Mbed TLS is given
  (\<open>mbedtls_threading_cmsis_rtos.c\<close>), the mutex of the interface to TF-M on ThreadX (\<open>os_wrapper_threadx.c\<close>), and the
  log of Pigweed with its lock (\<open>pw_log_mdh_backend.c\<close>, \<open>lock/cmsis_rtos_lock.c\<close>, \<open>lock/null_lock.c\<close>).

  The first two share a contract: the kernel is asked to lock, unlock or delete an object only while the object exists, and
  to create it only while it does not.  The locale \<open>kernel_object\<close> carries it through runs of operations.
\<close>

section \<open>Objects of the kernel\<close>

text \<open>Whether the object exists after the calls made, and whether each call was allowed when it was made.\<close>

datatype object_call = Create | Use | Destroy | Other

fun exists_after :: "('c \<Rightarrow> int \<Rightarrow> object_call \<times> bool) \<Rightarrow> ('c \<times> reply) list \<Rightarrow> bool" where
  "exists_after kind [] = False"
| "exists_after kind ((c, r) # h) =
     (case kind c (ret r) of (Create, True) \<Rightarrow> True | (Destroy, True) \<Rightarrow> False | _ \<Rightarrow> exists_after kind h)"

fun calls_allowed :: "('c \<Rightarrow> int \<Rightarrow> object_call \<times> bool) \<Rightarrow> ('c \<times> reply) list \<Rightarrow> bool" where
  "calls_allowed kind [] = True"
| "calls_allowed kind ((c, r) # h) = (calls_allowed kind h \<and>
     (case fst (kind c (ret r)) of Create \<Rightarrow> \<not> exists_after kind h | Other \<Rightarrow> True | _ \<Rightarrow> exists_after kind h))"

fun run_ops :: "('o \<Rightarrow> ('s, 'a) state) \<Rightarrow> 'o list \<Rightarrow> ('s, 'a list) state" where
  "run_ops op [] = return []"
| "run_ops op (x # xs) = do { r \<leftarrow> op x; rs \<leftarrow> run_ops op xs; return (r # rs) }"

locale kernel_object =
  fixes kind :: "'c \<Rightarrow> int \<Rightarrow> object_call \<times> bool"
    and created :: "('c, 'z) world_scheme \<Rightarrow> bool"
    and op :: "'c env \<Rightarrow> 'o \<Rightarrow> (('c, 'z) world_scheme, 'a) state"
  assumes tracks: "keeps (\<lambda>s. created s = exists_after kind (history s) \<and> calls_allowed kind (history s)) (op env x)"
begin

lemma run_keeps:
  "keeps (\<lambda>s. created s = exists_after kind (history s) \<and> calls_allowed kind (history s)) (run_ops (op env) xs)"
  by (induction xs) (auto intro: keeps tracks)

end

section \<open>The mutex of the TF-M interface\<close>

datatype tx_call = TxMutexCreate | TxMutexGet u32 | TxMutexPut | TxMutexDelete

abbreviation (input) TX_SUCCESS :: int where "TX_SUCCESS \<equiv> 0"
abbreviation (input) OS_WRAPPER_SUCCESS :: u32 where "OS_WRAPPER_SUCCESS \<equiv> 0"
abbreviation (input) OS_WRAPPER_ERROR :: u32 where "OS_WRAPPER_ERROR \<equiv> 0xFFFFFFFF"

text \<open>The address of the static mutex.\<close>

abbreviation (input) mutex_address :: int where "mutex_address \<equiv> 1"

record tfm = "tx_call world" +
  was_mutex_created :: bool

type_synonym 'a tfm_m = "(tfm, 'a) state"

definition os_wrapper_mutex_create :: "tx_call env \<Rightarrow> int tfm_m" where
  "os_wrapper_mutex_create env =
     do {
       was \<leftarrow> gets was_mutex_created;
       if was then return 0
       else do {
         r \<leftarrow> call env TxMutexCreate;
         if r = TX_SUCCESS then do { modify (\<lambda>s. s\<lparr>was_mutex_created := True\<rparr>); return mutex_address } else return 0
       }
     }"

text \<open>
  The comparison \<open>handle == &mutex && was_mutex_created\<close> and the call that follows it.
\<close>

definition tfm_call :: "tx_call env \<Rightarrow> int \<Rightarrow> tx_call \<Rightarrow> bool tfm_m" where
  "tfm_call env handle c =
     do {
       was \<leftarrow> gets was_mutex_created;
       if handle = mutex_address \<and> was then do { r \<leftarrow> call env c; return (r = TX_SUCCESS) } else return False
     }"

text \<open>\<open>forever\<close> and \<open>tx_forever\<close> are \<open>OS_WRAPPER_WAIT_FOREVER\<close> and \<open>TX_WAIT_FOREVER\<close>.\<close>

definition os_wrapper_mutex_acquire :: "tx_call env \<Rightarrow> u32 \<Rightarrow> u32 \<Rightarrow> int \<Rightarrow> u32 \<Rightarrow> u32 tfm_m" where
  "os_wrapper_mutex_acquire env forever tx_forever handle timeout =
     do {
       ok \<leftarrow> tfm_call env handle (TxMutexGet (if timeout = forever then tx_forever else timeout));
       return (if ok then OS_WRAPPER_SUCCESS else OS_WRAPPER_ERROR)
     }"

definition os_wrapper_mutex_release :: "tx_call env \<Rightarrow> int \<Rightarrow> u32 tfm_m" where
  "os_wrapper_mutex_release env handle =
     do { ok \<leftarrow> tfm_call env handle TxMutexPut; return (if ok then OS_WRAPPER_SUCCESS else OS_WRAPPER_ERROR) }"

definition os_wrapper_mutex_delete :: "tx_call env \<Rightarrow> int \<Rightarrow> u32 tfm_m" where
  "os_wrapper_mutex_delete env handle =
     do {
       ok \<leftarrow> tfm_call env handle TxMutexDelete;
       if ok then do { modify (\<lambda>s. s\<lparr>was_mutex_created := False\<rparr>); return OS_WRAPPER_SUCCESS } else return OS_WRAPPER_ERROR
     }"

datatype tfm_op = TfmCreate | TfmAcquire int u32 | TfmRelease int | TfmDelete int

fun tfm_run :: "tx_call env \<Rightarrow> tfm_op \<Rightarrow> int tfm_m" where
  "tfm_run env TfmCreate = os_wrapper_mutex_create env"
| "tfm_run env (TfmAcquire h t) = do { r \<leftarrow> os_wrapper_mutex_acquire env 0xFFFFFFFF 0xFFFFFFFF h t; return (sint r) }"
| "tfm_run env (TfmRelease h) = do { r \<leftarrow> os_wrapper_mutex_release env h; return (sint r) }"
| "tfm_run env (TfmDelete h) = do { r \<leftarrow> os_wrapper_mutex_delete env h; return (sint r) }"

fun tx_kind :: "tx_call \<Rightarrow> int \<Rightarrow> object_call \<times> bool" where
  "tx_kind TxMutexCreate r = (Create, r = TX_SUCCESS)"
| "tx_kind (TxMutexGet t) r = (Use, r = TX_SUCCESS)"
| "tx_kind TxMutexPut r = (Use, r = TX_SUCCESS)"
| "tx_kind TxMutexDelete r = (Destroy, r = TX_SUCCESS)"

lemmas tfm_defs = os_wrapper_mutex_create_def os_wrapper_mutex_acquire_def os_wrapper_mutex_release_def
  os_wrapper_mutex_delete_def tfm_call_def

interpretation tfm_mutex: kernel_object tx_kind was_mutex_created tfm_run
proof unfold_locales
  fix env x
  show "keeps (\<lambda>s. was_mutex_created s = exists_after tx_kind (history s) \<and> calls_allowed tx_kind (history s)) (tfm_run env x)"
    by (cases x) (auto simp: keeps_def wp tfm_defs)
qed

text \<open>
  Whatever the callers do, with any handle and in any order, ThreadX is asked to create the mutex only while there
  is none and to lock, unlock or delete it only while there is, so never twice the same.
\<close>

lemma tfm_mutex_calls_allowed:
  assumes "history s = []" and "\<not> was_mutex_created s"
  shows "wp (run_ops (tfm_run env) ops) (\<lambda>_ t. calls_allowed tx_kind (history t)) s"
  by (rule wp_mono [OF keepsD [OF tfm_mutex.run_keeps]]) (use assms in simp_all)

section \<open>The mutexes of Mbed TLS\<close>

abbreviation (input) MBEDTLS_ERR_THREADING_BAD_INPUT_DATA :: int where "MBEDTLS_ERR_THREADING_BAD_INPUT_DATA \<equiv> - 28"
abbreviation (input) MBEDTLS_ERR_THREADING_MUTEX_ERROR :: int where "MBEDTLS_ERR_THREADING_MUTEX_ERROR \<equiv> - 30"

text \<open>One mutex; an operation is given its address or \<open>NULL\<close>.\<close>

record tls_mutex = "os_call world" +
  threading_mutex :: int

type_synonym 'a tm_m = "(tls_mutex, 'a) state"

definition threading_mutex_init_cmsis_rtos :: "os_call env \<Rightarrow> bool \<Rightarrow> unit tm_m" where
  "threading_mutex_init_cmsis_rtos env null =
     do {
       m \<leftarrow> gets threading_mutex;
       if null \<or> m \<noteq> 0 then return ()
       else do { n \<leftarrow> call env OsMutexNew; modify (\<lambda>s. s\<lparr>threading_mutex := n\<rparr>) }
     }"

definition threading_mutex_free_cmsis_rtos :: "os_call env \<Rightarrow> bool \<Rightarrow> unit tm_m" where
  "threading_mutex_free_cmsis_rtos env null =
     do {
       m \<leftarrow> gets threading_mutex;
       if null \<or> m = 0 then return ()
       else do { r \<leftarrow> call env (OsMutexDelete m); do_if (r = osOK) (modify (\<lambda>s. s\<lparr>threading_mutex := 0\<rparr>)) }
     }"

definition threading_mutex_lock_cmsis_rtos :: "os_call env \<Rightarrow> bool \<Rightarrow> int tm_m" where
  "threading_mutex_lock_cmsis_rtos env null =
     do {
       m \<leftarrow> gets threading_mutex;
       if null \<or> m = 0 then return MBEDTLS_ERR_THREADING_BAD_INPUT_DATA
       else do { r \<leftarrow> call env (OsMutexAcquire m 0); return (if r \<noteq> osOK then MBEDTLS_ERR_THREADING_MUTEX_ERROR else 0) }
     }"

definition threading_mutex_unlock_cmsis_rtos :: "os_call env \<Rightarrow> bool \<Rightarrow> int tm_m" where
  "threading_mutex_unlock_cmsis_rtos env null =
     do {
       m \<leftarrow> gets threading_mutex;
       if null \<or> m = 0 then return MBEDTLS_ERR_THREADING_BAD_INPUT_DATA
       else do { r \<leftarrow> call env (OsMutexRelease m); return (if r \<noteq> osOK then MBEDTLS_ERR_THREADING_MUTEX_ERROR else 0) }
     }"

datatype tm_op = TmInit bool | TmFree bool | TmLock bool | TmUnlock bool

fun tm_run :: "os_call env \<Rightarrow> tm_op \<Rightarrow> int tm_m" where
  "tm_run env (TmInit null) = do { threading_mutex_init_cmsis_rtos env null; return 0 }"
| "tm_run env (TmFree null) = do { threading_mutex_free_cmsis_rtos env null; return 0 }"
| "tm_run env (TmLock null) = threading_mutex_lock_cmsis_rtos env null"
| "tm_run env (TmUnlock null) = threading_mutex_unlock_cmsis_rtos env null"

fun os_mutex_kind :: "os_call \<Rightarrow> int \<Rightarrow> object_call \<times> bool" where
  "os_mutex_kind OsMutexNew r = (Create, r \<noteq> 0)"
| "os_mutex_kind (OsMutexAcquire m t) r = (Use, r = osOK)"
| "os_mutex_kind (OsMutexRelease m) r = (Use, r = osOK)"
| "os_mutex_kind (OsMutexDelete m) r = (Destroy, r = osOK)"
| "os_mutex_kind c r = (Other, True)"

lemmas tm_defs = threading_mutex_init_cmsis_rtos_def threading_mutex_free_cmsis_rtos_def threading_mutex_lock_cmsis_rtos_def
  threading_mutex_unlock_cmsis_rtos_def

interpretation tls_mutexes: kernel_object os_mutex_kind "\<lambda>s. threading_mutex s \<noteq> 0" tm_run
proof unfold_locales
  fix env x
  show "keeps (\<lambda>s. (threading_mutex s \<noteq> 0) = exists_after os_mutex_kind (history s) \<and> calls_allowed os_mutex_kind (history s)) (tm_run env x)"
    by (cases x) (auto simp: keeps_def wp tm_defs)
qed

lemma tls_mutex_calls_allowed:
  assumes "history s = []" and "threading_mutex s = 0"
  shows "wp (run_ops (tm_run env) ops) (\<lambda>_ t. calls_allowed os_mutex_kind (history t)) s"
  by (rule wp_mono [OF keepsD [OF tls_mutexes.run_keeps]]) (use assms in simp_all)

text \<open>
  A lock does not wait: while another thread has the mutex, and the kernel answers an acquisition without timeout with
  \<open>osErrorResource\<close>, it fails at once.
\<close>

lemma tls_lock_does_not_wait:
  assumes "threading_mutex s \<noteq> 0" and "ret (env (history s) (OsMutexAcquire (threading_mutex s) 0)) = - 3"
  shows "wp (threading_mutex_lock_cmsis_rtos env False)
    (\<lambda>r t. r = MBEDTLS_ERR_THREADING_MUTEX_ERROR \<and> calls t = calls s @ [OsMutexAcquire (threading_mutex s) 0]) s"
  using assms by (simp add: tm_defs wp calls_def)

section \<open>The log\<close>

datatype log_call = LogOs os_call | LogVsnprintf | LogPut int byte

record logger = "log_call world" +
  log_serial :: int
  log_lock :: int

type_synonym 'a log_m = "(logger, 'a) state"

text \<open>\<open>rtos\<close>: the lock of \<open>cmsis_rtos_lock.c\<close>, otherwise the one of \<open>null_lock.c\<close>.\<close>

definition pw_log_init_lock :: "log_call env \<Rightarrow> bool \<Rightarrow> unit log_m" where
  "pw_log_init_lock env rtos = do_if rtos
     (do { l \<leftarrow> call env (LogOs OsMutexNew); modify (\<lambda>s. s\<lparr>log_lock := l\<rparr>); do_if (l = 0) crash })"

definition pw_log_lock :: "log_call env \<Rightarrow> bool \<Rightarrow> unit log_m" where
  "pw_log_lock env rtos = do_if rtos (do { l \<leftarrow> gets log_lock; tell env (LogOs (OsMutexAcquire l osWaitForever)) })"

definition pw_log_unlock :: "log_call env \<Rightarrow> bool \<Rightarrow> unit log_m" where
  "pw_log_unlock env rtos = do_if rtos (do { l \<leftarrow> gets log_lock; tell env (LogOs (OsMutexRelease l)) })"

definition pw_log_mdh_init :: "log_call env \<Rightarrow> bool \<Rightarrow> int \<Rightarrow> unit log_m" where
  "pw_log_mdh_init env rtos serial = do { modify (\<lambda>s. s\<lparr>log_serial := serial\<rparr>); pw_log_init_lock env rtos }"

fun log_loop :: "log_call env \<Rightarrow> int \<Rightarrow> byte list \<Rightarrow> unit log_m" where
  "log_loop env dev [] = return ()"
| "log_loop env dev (c # cs) = (if c = 0 then return () else do { tell env (LogPut dev c); log_loop env dev cs })"

text \<open>
  The formatted text is what \<open>vsnprintf\<close> answers; it stores at most the line's length less one of it, and a \<open>NUL\<close>.
\<close>

definition pw_log_mdh :: "log_call env \<Rightarrow> bool \<Rightarrow> nat \<Rightarrow> unit log_m" where
  "pw_log_mdh env rtos line_length =
     do {
       r \<leftarrow> extern env LogVsnprintf;
       let buffer = take (line_length - 1) (payload r) @ [0];
       do_if (0 \<le> ret r)
         (do {
            pw_log_lock env rtos;
            dev \<leftarrow> gets log_serial;
            log_loop env dev buffer;
            pw_log_unlock env rtos
          })
     }"

lemma log_loop_calls:
  "wp (log_loop env dev cs) (\<lambda>_ t. calls t = calls s @ map (LogPut dev) (takeWhile (\<lambda>c. c \<noteq> 0) cs) \<and>
     log_serial t = log_serial s \<and> log_lock t = log_lock s \<and> fault t = fault s) s"
proof (induction cs arbitrary: s)
  case (Cons c cs)
  show ?case
    by (cases "c = 0") (auto simp: wp calls_def intro!: wp_mono [OF Cons])
qed (simp add: wp)

text \<open>
  A message goes out as the characters of one line, in order, between the lock and the unlock.
\<close>

lemma log_message_locked:
  assumes "0 \<le> ret (env (history s) LogVsnprintf)"
  shows "wp (pw_log_mdh env True n) (\<lambda>_ t. calls t = calls s @ LogVsnprintf # LogOs (OsMutexAcquire (log_lock s) osWaitForever) #
     map (LogPut (log_serial s)) (takeWhile (\<lambda>c. c \<noteq> 0) (take (n - 1) (payload (env (history s) LogVsnprintf)) @ [0])) @
     [LogOs (OsMutexRelease (log_lock s))]) s"
  unfolding pw_log_mdh_def pw_log_lock_def pw_log_unlock_def
  by (simp add: wp Let_def assms, rule wp_mono [OF log_loop_calls]) (simp add: calls_def wp)

end
