(* ===== verification/Lwip_Demo.thy ===== *)
theory Lwip_Demo
  imports Extern
begin

text \<open>
  The lwIP example, \<open>templates/examples/cmsis-lwip/main.c\<close>: a task that opens and closes two UDP sockets as the network
  comes and goes and sends itself data, a thread that receives, and the callback and the queue between them.

  The local variables of \<open>app_task\<close> that live across iterations and the static receive buffer are the state.  A turn is
  one iteration of one of the loops; a run is any sequence of turns of the task and of receiving threads.
\<close>

section \<open>State\<close>

datatype ld_event = NETWORK_IS_UP | NETWORK_IS_DOWN | DATA_RECEIVED | NO_EVENT

datatype ld_call =
    LdOs os_call | LdPut int ld_event int
  | LdCreate int int int | LdClose int | LdBind int "byte list" u32 u16
  | LdSendTo int "byte list" "byte list" u32 u16 | LdRecv int nat
  | LdKernelInitialize | LdStartNetworkTask | LdKernelStart

abbreviation (input) ESOCK :: int where "ESOCK \<equiv> - 2"
abbreviation (input) SOCKET_ERROR :: int where "SOCKET_ERROR \<equiv> - 1"
abbreviation (input) MAX_DATA_SENT :: nat where "MAX_DATA_SENT \<equiv> 5"
abbreviation (input) LD_PORT :: u16 where "LD_PORT \<equiv> 2022"

record lwip_demo = "ld_call world" +
  send_socket_id :: int
  recv_socket_id :: int
  recv_thread :: int
  app_err :: int
  receive_buffer :: "byte list"

type_synonym ('z, 'a) ld_m = "('z lwip_demo_scheme, 'a) state"

definition demo_start :: lwip_demo where
  "demo_start = \<lparr>history = [], fault = False, send_socket_id = ESOCK, recv_socket_id = ESOCK, recv_thread = 0, app_err = 0,
     receive_buffer = replicate (MAX_DATA_SENT + 1) 0\<rparr>"

section \<open>The callback and the receiving thread\<close>

definition ld_event_callback :: "ld_call env \<Rightarrow> int \<Rightarrow> bool \<Rightarrow> ('z, unit) ld_m" where
  "ld_event_callback env queue up = tell env (LdPut queue (if up then NETWORK_IS_UP else NETWORK_IS_DOWN) 0)"

text \<open>One iteration; the result is \<open>err\<close>, which ends the loop when it is negative.\<close>

definition receive_turn :: "ld_call env \<Rightarrow> int \<Rightarrow> int \<Rightarrow> ('z, int) ld_m" where
  "receive_turn env queue i =
     do {
       r \<leftarrow> extern env (LdRecv i MAX_DATA_SENT);
       let got = take MAX_DATA_SENT (payload r);
       modify (\<lambda>s. s\<lparr>receive_buffer := got @ drop (length got) (receive_buffer s)\<rparr>);
       tell env (LdPut queue DATA_RECEIVED (ret r));
       return (ret r)
     }"

fun socket_receive_task :: "ld_call env \<Rightarrow> int \<Rightarrow> int \<Rightarrow> nat \<Rightarrow> ('z, bool) ld_m" where
  "socket_receive_task env queue i 0 = return False"
| "socket_receive_task env queue i (Suc fuel) =
     do { err \<leftarrow> receive_turn env queue i; if err \<ge> 0 then socket_receive_task env queue i fuel else return True }"

section \<open>The task\<close>

definition on_network_down :: "ld_call env \<Rightarrow> ('z, unit) ld_m" where
  "on_network_down env =
     do {
       i \<leftarrow> gets send_socket_id;
       do_if (i \<ge> 0)
         (do {
           r \<leftarrow> call env (LdClose i);
           modify (\<lambda>s. s\<lparr>send_socket_id := r\<rparr>);
           j \<leftarrow> gets recv_socket_id;
           r \<leftarrow> call env (LdClose j);
           modify (\<lambda>s. s\<lparr>recv_socket_id := r\<rparr>);
           t \<leftarrow> gets recv_thread;
           do_if (t \<noteq> 0)
             (do { tell env (LdOs (OsThreadTerminate t)); modify (\<lambda>s. s\<lparr>recv_thread := 0\<rparr>) })
         })
     }"

definition create_sockets :: "ld_call env \<Rightarrow> ('z, unit) ld_m" where
  "create_sockets env =
     do {
       i \<leftarrow> call env (LdCreate 2 2 2);
       modify (\<lambda>s. s\<lparr>send_socket_id := i\<rparr>);
       j \<leftarrow> call env (LdCreate 2 2 2);
       modify (\<lambda>s. s\<lparr>recv_socket_id := j\<rparr>);
       do_if (i < 0 \<or> j < 0) (modify (\<lambda>s. s\<lparr>app_err := SOCKET_ERROR\<rparr>))
     }"

definition bind_receiver :: "ld_call env \<Rightarrow> ('z, unit) ld_m" where
  "bind_receiver env =
     do {
       err \<leftarrow> gets app_err;
       do_if (err = 0)
         (do {
           j \<leftarrow> gets recv_socket_id;
           r \<leftarrow> call env (LdBind j (replicate 16 0) 16 LD_PORT);
           modify (\<lambda>s. s\<lparr>app_err := r\<rparr>)
         })
     }"

definition start_receiver :: "ld_call env \<Rightarrow> ('z, unit) ld_m" where
  "start_receiver env =
     do {
       err \<leftarrow> gets app_err;
       do_if (err = 0)
         (do {
           t \<leftarrow> call env (LdOs (OsThreadNew 1 0 0 0));
           modify (\<lambda>s. s\<lparr>recv_thread := t\<rparr>);
           do_if (t = 0) (modify (\<lambda>s. s\<lparr>app_err := SOCKET_ERROR\<rparr>))
         })
     }"

definition cleanup_sockets :: "ld_call env \<Rightarrow> ('z, unit) ld_m" where
  "cleanup_sockets env =
     do {
       err \<leftarrow> gets app_err;
       do_if (err \<noteq> 0)
         (do {
           i \<leftarrow> gets send_socket_id;
           do_if (i \<noteq> 0)
             (do { r \<leftarrow> call env (LdClose i); modify (\<lambda>s. s\<lparr>send_socket_id := if r = 0 then ESOCK else r\<rparr>) });
           j \<leftarrow> gets recv_socket_id;
           do_if (j \<noteq> 0)
             (do { r \<leftarrow> call env (LdClose j); modify (\<lambda>s. s\<lparr>recv_socket_id := if r = 0 then ESOCK else r\<rparr>) })
         })
     }"

definition on_network_up :: "ld_call env \<Rightarrow> ('z, unit) ld_m" where
  "on_network_up env =
     do {
       i \<leftarrow> gets send_socket_id;
       do_if (i = ESOCK)
         (do { create_sockets env; bind_receiver env; start_receiver env; cleanup_sockets env })
     }"

text \<open>\<open>data\<close> is an array of five characters, the text and its end.\<close>

definition send_some :: "ld_call env \<Rightarrow> ('z, unit) ld_m" where
  "send_some env =
     do {
       i \<leftarrow> gets send_socket_id;
       do_if (i \<ge> 0)
         (do {
           r \<leftarrow> call env (LdSendTo i [116, 101, 115, 116, 0] (replicate 15 0 @ [1]) 16 LD_PORT);
           modify (\<lambda>s. s\<lparr>app_err := r\<rparr>)
         })
     }"

text \<open>A message of the queue is the number of its event and a return code, which is only printed.\<close>

definition ld_event_of :: "reply \<Rightarrow> ld_event" where
  "ld_event_of r =
     (if ret r \<noteq> osOK then NO_EVENT
      else case outs r of n # _ \<Rightarrow>
        (if n = 0 then NETWORK_IS_UP else if n = 1 then NETWORK_IS_DOWN else if n = 2 then DATA_RECEIVED else NO_EVENT)
      | [] \<Rightarrow> NO_EVENT)"

definition handle_net_event :: "ld_call env \<Rightarrow> ld_event \<Rightarrow> ('z, unit) ld_m" where
  "handle_net_event env e =
     (if e = NETWORK_IS_DOWN then on_network_down env else if e = NETWORK_IS_UP then on_network_up env else return ())"

definition app_turn :: "ld_call env \<Rightarrow> int \<Rightarrow> ('z, unit) ld_m" where
  "app_turn env queue =
     do {
       r \<leftarrow> extern env (LdOs (OsMessageQueueGet queue 1000));
       handle_net_event env (ld_event_of r);
       send_some env;
       tell env (LdOs (OsDelay 1000))
     }"

definition ld_main :: "ld_call env \<Rightarrow> ('z, int) ld_m" where
  "ld_main env =
     do {
       r \<leftarrow> call env LdKernelInitialize;
       if r \<noteq> osOK then return (- 1)
       else do {
         queue \<leftarrow> call env (LdOs (OsMessageQueueNew 10 8));
         if queue = 0 then return (- 1)
         else do {
           t \<leftarrow> call env (LdOs (OsThreadNew 0 0 0 0));
           if t = 0 then return (- 1)
           else do {
             r \<leftarrow> call env LdStartNetworkTask;
             if r \<noteq> osOK then return (- 1)
             else do {
               st \<leftarrow> call env (LdOs OsKernelGetState);
               if st \<noteq> 1 then return (- 1)
               else do { r \<leftarrow> call env LdKernelStart; return (if r \<noteq> osOK then - 1 else 0) }
             }
           }
         }
       }
     }"

section \<open>Runs\<close>

datatype turn = AppTurn | ReceiveTurn int | CallbackTurn bool

fun run_turn :: "ld_call env \<Rightarrow> int \<Rightarrow> turn \<Rightarrow> ('z, unit) ld_m" where
  "run_turn env queue AppTurn = app_turn env queue"
| "run_turn env queue (ReceiveTurn i) = do { _ \<leftarrow> receive_turn env queue i; return () }"
| "run_turn env queue (CallbackTurn up) = ld_event_callback env queue up"

fun run_turns :: "ld_call env \<Rightarrow> int \<Rightarrow> turn list \<Rightarrow> ('z, unit) ld_m" where
  "run_turns env queue [] = return ()"
| "run_turns env queue (x # xs) = do { run_turn env queue x; run_turns env queue xs }"

lemma keeps_turns: "(\<And>x. keeps P (run_turn env queue x)) \<Longrightarrow> keeps P (run_turns env queue xs)"
  by (induction xs) (simp_all add: keeps)

lemmas app_defs = on_network_down_def on_network_up_def create_sockets_def bind_receiver_def start_receiver_def
  cleanup_sockets_def send_some_def handle_net_event_def app_turn_def

section \<open>The invariant\<close>

text \<open>
  The library: sockets have positive numbers, only those can be closed, and a send never answers 0.  The receiving
  threads started, and the sockets created and not closed.
\<close>

definition usual_library :: "ld_call env \<Rightarrow> bool" where
  "usual_library env \<longleftrightarrow> (\<forall>h f t p. ret (env h (LdCreate f t p)) \<noteq> 0) \<and>
     (\<forall>h i. if i > 0 then ret (env h (LdClose i)) = 0 else ret (env h (LdClose i)) < 0) \<and>
     (\<forall>h i d a n p. ret (env h (LdSendTo i d a n p)) \<noteq> 0)"

fun receivers :: "(ld_call \<times> reply) list \<Rightarrow> nat" where
  "receivers [] = 0"
| "receivers ((LdOs (OsThreadNew f a n p), r) # h) = receivers h + (if f = 1 \<and> ret r \<noteq> 0 then 1 else 0)"
| "receivers (c # h) = receivers h"

fun open_sockets :: "(ld_call \<times> reply) list \<Rightarrow> int" where
  "open_sockets [] = 0"
| "open_sockets ((LdCreate f t p, r) # h) = open_sockets h + (if ret r \<ge> 0 then 1 else 0)"
| "open_sockets ((LdClose i, r) # h) = open_sockets h - (if ret r = 0 then 1 else 0)"
| "open_sockets (c # h) = open_sockets h"

definition demo_ok :: "'z lwip_demo_scheme \<Rightarrow> bool" where
  "demo_ok s \<longleftrightarrow> (send_socket_id s > 0 \<longleftrightarrow> recv_socket_id s > 0) \<and>
     open_sockets (history s) = (if send_socket_id s > 0 then 2 else 0) \<and>
     receivers (history s) \<le> 1 \<and> (receivers (history s) = 1 \<or> send_socket_id s \<ge> 0 \<longrightarrow> app_err s \<noteq> 0) \<and>
     length (receive_buffer s) = 6 \<and> receive_buffer s ! 5 = 0"

lemma usual_libraryD:
  assumes "usual_library env"
  shows "ret (env h (LdCreate f t p)) \<noteq> 0" "0 < i \<Longrightarrow> ret (env h (LdClose i)) = 0" "i \<le> 0 \<Longrightarrow> ret (env h (LdClose i)) < 0"
    "ret (env h (LdSendTo i d a n q)) \<noteq> 0" "i \<le> 0 \<Longrightarrow> ret (env h (LdClose i)) \<noteq> 0"
    "ret (env h (LdClose i)) \<le> 0" "\<not> 0 < ret (env h (LdClose i))"
proof -
  have "if 0 < i then ret (env h (LdClose i)) = 0 else ret (env h (LdClose i)) < 0"
    using assms by (simp add: usual_library_def)
  then show "ret (env h (LdClose i)) \<le> 0" "\<not> 0 < ret (env h (LdClose i))"
    by (simp_all split: if_splits)
qed (use assms in \<open>simp_all add: usual_library_def order_less_imp_not_eq\<close>)

text \<open>Between the parts of a turn the error need not be set yet while the sockets are open.\<close>

definition demo_mid :: "'z lwip_demo_scheme \<Rightarrow> bool" where
  "demo_mid s \<longleftrightarrow> (send_socket_id s > 0 \<longleftrightarrow> recv_socket_id s > 0) \<and>
     open_sockets (history s) = (if send_socket_id s > 0 then 2 else 0) \<and>
     receivers (history s) \<le> 1 \<and> (receivers (history s) = 1 \<and> \<not> send_socket_id s \<ge> 0 \<longrightarrow> app_err s \<noteq> 0) \<and>
     length (receive_buffer s) = 6 \<and> receive_buffer s ! 5 = 0"

lemma demo_ok_mid: "demo_ok s \<Longrightarrow> demo_mid s"
  by (auto simp: demo_ok_def demo_mid_def)

lemma down_mid: "usual_library env \<Longrightarrow> demo_ok s \<Longrightarrow> wp (on_network_down env) (\<lambda>_. demo_mid) s"
  by (cases "send_socket_id s > 0") (auto simp: on_network_down_def wp demo_ok_def demo_mid_def usual_libraryD not_less)

text \<open>While the sockets are made: at most one thread, and none yet unless there is an error, or it has just been started.\<close>

definition demo_making :: "bool \<Rightarrow> 'z lwip_demo_scheme \<Rightarrow> bool" where
  "demo_making started s \<longleftrightarrow> send_socket_id s \<noteq> 0 \<and> recv_socket_id s \<noteq> 0 \<and>
     open_sockets (history s) = (if send_socket_id s > 0 then 1 else 0) + (if recv_socket_id s > 0 then 1 else 0) \<and>
     (send_socket_id s < 0 \<or> recv_socket_id s < 0 \<longrightarrow> app_err s \<noteq> 0) \<and>
     receivers (history s) \<le> 1 \<and> (receivers (history s) = 1 \<longrightarrow> started \<or> app_err s \<noteq> 0) \<and>
     length (receive_buffer s) = 6 \<and> receive_buffer s ! 5 = 0"

lemma create_making:
  "usual_library env \<Longrightarrow> demo_ok s \<Longrightarrow> send_socket_id s = ESOCK \<Longrightarrow> wp (create_sockets env) (\<lambda>_. demo_making False) s"
  by (simp add: create_sockets_def wp demo_ok_def demo_making_def usual_libraryD)

lemma bind_making: "keeps (demo_making False) (bind_receiver env)"
  by (auto simp: bind_receiver_def keeps_def wp demo_making_def)

lemma start_making: "demo_making False s \<Longrightarrow> wp (start_receiver env) (\<lambda>_. demo_making True) s"
  by (auto simp: start_receiver_def wp demo_making_def)

lemma cleanup_mid: "usual_library env \<Longrightarrow> demo_making True s \<Longrightarrow> wp (cleanup_sockets env) (\<lambda>_. demo_mid) s"
  by (cases "send_socket_id s > 0"; cases "recv_socket_id s > 0")
    (auto simp: cleanup_sockets_def wp demo_making_def demo_mid_def usual_libraryD not_less)

lemma up_mid: "usual_library env \<Longrightarrow> demo_ok s \<Longrightarrow> wp (on_network_up env) (\<lambda>_. demo_mid) s"
proof (cases "send_socket_id s = ESOCK")
  case True
  assume a: "usual_library env" "demo_ok s"
  have "wp (do { create_sockets env; bind_receiver env; start_receiver env; cleanup_sockets env }) (\<lambda>_. demo_mid) s"
    by (rule wp_then [OF create_making [OF a True]], rule wp_seq [OF bind_making], assumption,
      rule wp_then [OF start_making], assumption, rule cleanup_mid [OF a(1)])
  then show ?thesis using True by (simp add: on_network_up_def do_if_def wp del: wp_bind) (simp add: wp)
qed (simp add: on_network_up_def wp demo_ok_mid)

lemma send_ok: "usual_library env \<Longrightarrow> demo_mid s \<Longrightarrow> wp (send_some env) (\<lambda>_. demo_ok) s"
  by (auto simp: send_some_def wp demo_ok_def demo_mid_def usual_libraryD)

lemma handle_mid: "usual_library env \<Longrightarrow> demo_ok s \<Longrightarrow> wp (handle_net_event env e) (\<lambda>_. demo_mid) s"
  by (simp add: handle_net_event_def down_mid up_mid wp_return demo_ok_mid)

lemma ok_call: "demo_ok s \<Longrightarrow> open_sockets ((c, r) # history s) = open_sockets (history s) \<Longrightarrow>
    receivers ((c, r) # history s) = receivers (history s) \<Longrightarrow> demo_ok (s\<lparr>history := (c, r) # history s\<rparr>)"
  by (simp add: demo_ok_def)

lemma app_ok: "usual_library env \<Longrightarrow> keeps demo_ok (app_turn env queue)"
proof (rule keepsI)
  fix s :: "'z lwip_demo_scheme"
  assume a: "usual_library env" and "demo_ok s"
  have get: "keeps demo_ok (extern env (LdOs (OsMessageQueueGet queue 1000)))"
    and rest: "keeps demo_ok (tell env (LdOs (OsDelay 1000)))" by (intro keeps ok_call; simp)+
  show "wp (app_turn env queue) (\<lambda>_. demo_ok) s"
    unfolding app_turn_def
    by (rule wp_seq [OF get \<open>demo_ok s\<close>], rule wp_then [OF handle_mid [OF a]], assumption,
      rule wp_then [OF send_ok [OF a]], assumption, rule keepsD [OF rest])
qed

lemma receive_ok: "keeps demo_ok (receive_turn env queue i)"
  by (auto simp: receive_turn_def keeps_def wp Let_def demo_ok_def nth_append)


section \<open>A lost network\<close>

text \<open>Nothing is sent, bound or received through a socket.\<close>

fun uses_socket :: "(ld_call \<times> reply) list \<Rightarrow> nat" where
  "uses_socket [] = 0"
| "uses_socket ((LdSendTo i d a n p, r) # h) = uses_socket h + (if i > 0 then 1 else 0)"
| "uses_socket ((LdBind i a n p, r) # h) = uses_socket h + 1"
| "uses_socket (c # h) = uses_socket h"

text \<open>
  Once both sockets have been closed because the network went down, \<open>send_socket_id\<close> is the 0 that the close
  returned, not \<open>ESOCK\<close>, and \<open>err\<close> is the count of the last send: however often the network comes back, the task
  never uses a socket again, and sends to descriptor 0 instead.
\<close>

definition lost :: "nat \<Rightarrow> 'z lwip_demo_scheme \<Rightarrow> bool" where
  "lost n s \<longleftrightarrow> send_socket_id s \<le> 0 \<and> app_err s \<noteq> 0 \<and> uses_socket (history s) = n"

lemma lost_down: "usual_library env \<Longrightarrow> keeps (lost n) (on_network_down env)"
  by (auto simp: on_network_down_def keeps_def wp lost_def usual_libraryD)

lemma lost_up: "usual_library env \<Longrightarrow> keeps (lost n) (on_network_up env)"
  by (auto simp: app_defs keeps_def wp lost_def usual_libraryD)

lemma network_loss_is_final:
  assumes "usual_library env"
  shows "keeps (lost n) (app_turn env queue)"
proof -
  have "keeps (lost n) (send_some env)"
    by (auto simp: send_some_def keeps_def wp lost_def usual_libraryD [OF assms])
  then show ?thesis
    unfolding app_turn_def handle_net_event_def by (intro keeps lost_down lost_up assms) (auto simp: lost_def)
qed

section \<open>Examples\<close>

text \<open>A library that numbers its sockets from 1, and a network that comes, goes, and comes back.\<close>

definition up_down_up :: "ld_call env" where
  "up_down_up h c = \<lparr>ret = (case c of LdCreate f t p \<Rightarrow> 1 + abs (open_sockets h) | LdClose i \<Rightarrow> if i > 0 then 0 else - 2
       | LdSendTo i d a n p \<Rightarrow> if i > 0 then 5 else - 2 | LdOs (OsThreadNew f a n p) \<Rightarrow> 1 | LdRecv i n \<Rightarrow> 5 | _ \<Rightarrow> 0),
     outs = [if receivers h = 1 \<and> open_sockets h = 2 then 1 else 0],
     payload = (case c of LdRecv i n \<Rightarrow> [116, 101, 115, 116, 0] | _ \<Rightarrow> [])\<rparr>"

lemma up_down_up_usual: "usual_library up_down_up"
proof -
  have "1 + abs n \<noteq> 0" for n :: int by linarith
  then show ?thesis by (simp add: usual_library_def up_down_up_def)
qed


lemma lost_after_up_down_up:
  "wp (run_turns up_down_up 7 [AppTurn, ReceiveTurn 2, AppTurn, AppTurn])
    (\<lambda>_ s. lost 2 s \<and> send_socket_id s = 0 \<and> receive_buffer s = [116, 101, 115, 116, 0, 0] \<and>
      LdSendTo 0 [116, 101, 115, 116, 0] (replicate 15 0 @ [1]) 16 2022 \<in> set (calls s)) demo_start"
  by code_simp

text \<open>
  A first socket that cannot be created is an error that stays: the sockets created when the network comes back are
  closed again.
\<close>

definition one_failure :: "ld_call env" where
  "one_failure h c = (if h = [] \<or> length h > 3 then up_down_up [] c else
     case c of LdCreate f t p \<Rightarrow> \<lparr>ret = - 5, outs = [], payload = []\<rparr> | _ \<Rightarrow> up_down_up h c)"

lemma failure_stays:
  "wp (run_turns one_failure 7 [AppTurn, AppTurn]) (\<lambda>_ s. app_err s = - 1 \<and> receivers (history s) = 0 \<and>
     LdCreate 2 2 2 \<in> set (drop 7 (calls s)) \<and> send_socket_id s < 0) demo_start"
  by code_simp

end
