(* ===== verification/Socket_Demo.thy ===== *)
theory Socket_Demo
  imports Netsocket
begin

text \<open>
  The socket example, \<open>templates/examples/mbed-os-netsocket/main.cpp\<close>, in its configuration with a TCP socket over IPv4:
  an HTTP request and its answer over a \<open>TCPSocket\<close>, with the address that the host name resolves to taken through
  its text, and the task and the start around it.  The state is that of the socket object in \<open>SocketDemo\<close>.

  The first number of the operations is fuel for \<open>TCPSocket::send\<close>, the second for the loop itself; a local array starts
  with whatever the argument \<open>raw\<close> holds.
\<close>

section \<open>The request\<close>

definition http_request :: "byte list" where
  "http_request = map of_char (concat [''GET / HTTP/1.1'', [CHR 0x0D, CHR 0x0A], ''Host: ifconfig.io'', [CHR 0x0D, CHR 0x0A],
     ''Connection: close'', [CHR 0x0D, CHR 0x0A], [CHR 0x0D, CHR 0x0A]])"

text \<open>The array has one byte more, the null character.  \<open>None\<close>: the fuel is used up.\<close>

fun send_request_loop :: "ns_call env \<Rightarrow> nat \<Rightarrow> nat \<Rightarrow> int \<Rightarrow> u32 \<Rightarrow> ('z, bool option) ns_m" where
  "send_request_loop env sf 0 bytes_sent bytes_to_send = return None"
| "send_request_loop env sf (Suc fuel) bytes_sent bytes_to_send =
     (if bytes_to_send = 0 then return (Some True)
      else do {
        do_if (bytes_sent + uint bytes_to_send > int (length http_request) + 1) crash;
        r \<leftarrow> tcp_send env sf (take (unat bytes_to_send) (drop (nat bytes_sent) (http_request @ [0]))) bytes_to_send;
        case r of None \<Rightarrow> return None
        | Some bytes_sent \<Rightarrow>
            if bytes_sent < 0 then return (Some False)
            else send_request_loop env sf fuel bytes_sent (bytes_to_send - of_int bytes_sent)
      })"

definition send_http_request :: "ns_call env \<Rightarrow> nat \<Rightarrow> nat \<Rightarrow> ('z, bool option) ns_m" where
  "send_http_request env sf fuel = send_request_loop env sf fuel 0 (of_nat (length http_request))"

section \<open>The response\<close>

text \<open>The buffer with what is received, or \<open>None\<close> inside when a reception failed.\<close>

fun receive_loop :: "ns_call env \<Rightarrow> nat \<Rightarrow> byte list \<Rightarrow> int \<Rightarrow> int \<Rightarrow> int \<Rightarrow> ('z, byte list option option) ns_m" where
  "receive_loop env 0 buffer received_bytes remaining_bytes result = return None"
| "receive_loop env (Suc fuel) buffer received_bytes remaining_bytes result =
     (if result > 0 \<and> remaining_bytes > 0 then do {
        (result, data) \<leftarrow> tcp_recv env (nat remaining_bytes);
        if result < 0 then return (Some None)
        else do {
          let got = take (nat remaining_bytes) data;
          let n = nat received_bytes;
          receive_loop env fuel (take n buffer @ got @ drop (n + length got) buffer)
            (received_bytes + result) (remaining_bytes - result) result
        }
      }
      else return (Some (Some buffer)))"

text \<open>
  \<open>strstr\<close> looks for the end of the first line up to the null character; the difference of its result and the buffer
  is defined only when it finds one.
\<close>

definition receive_http_response :: "ns_call env \<Rightarrow> nat \<Rightarrow> byte list \<Rightarrow> ('z, bool option) ns_m" where
  "receive_http_response env fuel raw =
     do {
       r \<leftarrow> receive_loop env fuel (pad 100 raw) 0 100 100;
       case r of None \<Rightarrow> return None
       | Some r \<Rightarrow>
           (case r of None \<Rightarrow> return (Some False)
            | Some buffer \<Rightarrow> do { do_if (10 \<notin> set (takeWhile (\<lambda>b. b \<noteq> 0) buffer)) crash; return (Some True) })
     }"

section \<open>The demonstration\<close>

text \<open>The address from its four bytes, through the text in an array of sixteen characters.\<close>

definition resolved_address :: "byte list \<Rightarrow> byte list \<Rightarrow> u16 \<Rightarrow> socket_address option" where
  "resolved_address raw ip port =
     do {
       (buf, n) \<leftarrow> ip4tos ip (pad 16 raw);
       (ok, address) \<leftarrow> set_ip_address (Some buf) unspecified;
       Some (set_port port address)
     }"

datatype run_end = OpenFailed | HostNotFound | AddressFault | ConnectRefused | RequestFailed | ResponseFailed | RunFinished | NoEnd

definition exchange :: "ns_call env \<Rightarrow> nat \<Rightarrow> nat \<Rightarrow> byte list \<Rightarrow> ('z, run_end) ns_m" where
  "exchange env sf fuel raw =
     do {
       sent \<leftarrow> send_http_request env sf fuel;
       case sent of None \<Rightarrow> return NoEnd
       | Some sent \<Rightarrow>
           if \<not> sent then return RequestFailed
           else do {
             received \<leftarrow> receive_http_response env fuel raw;
             case received of None \<Rightarrow> return NoEnd
             | Some received \<Rightarrow> return (if \<not> received then ResponseFailed else RunFinished)
           }
     }"

definition demo_run :: "ns_call env \<Rightarrow> nat \<Rightarrow> nat \<Rightarrow> byte list \<Rightarrow> ('z, run_end) ns_m" where
  "demo_run env sf fuel raw =
     do {
       result \<leftarrow> ns_open env NSAPI_IPv4;
       if result < 0 then return OpenFailed
       else do {
         r \<leftarrow> extern env (NsGetHost ''ifconfig.io'' IOT_SOCKET_AF_INET);
         if ret r \<noteq> 0 then return HostNotFound
         else (case resolved_address raw (pad 4 (payload r)) 80 of
           None \<Rightarrow> do { crash; return AddressFault }
         | Some address \<Rightarrow>
             do {
               result \<leftarrow> tcp_connect env address;
               if result \<noteq> 0 then return ConnectRefused else exchange env sf fuel raw
             })
       }
     }"

section \<open>The task and the start\<close>

definition ns_event_callback :: "ns_call env \<Rightarrow> int \<Rightarrow> bool \<Rightarrow> ('z, unit) ns_m" where
  "ns_event_callback env queue up = tell env (NsOs (OsMessageQueuePut queue (if up then 0 else 1) 0))"

text \<open>A message is the number of its event: 0, 1, or 2 for none.  \<open>None\<close>: still waiting when the fuel is used up.\<close>

fun await_and_run :: "ns_call env \<Rightarrow> int \<Rightarrow> nat \<Rightarrow> ('z, run_end) ns_m \<Rightarrow> ('z, run_end option) ns_m" where
  "await_and_run env queue 0 demo = return None"
| "await_and_run env queue (Suc fuel) demo =
     do {
       r \<leftarrow> extern env (NsOs (OsMessageQueueGet queue 1000));
       let event = (if ret r \<noteq> osOK then 2 else case outs r of n # _ \<Rightarrow> n | [] \<Rightarrow> 2);
       if event = 0 then do { e \<leftarrow> demo; return (Some e) }
       else do { tell env (NsOs (OsDelay 1000)); await_and_run env queue fuel demo }
     }"

definition socket_app_task :: "ns_call env \<Rightarrow> int \<Rightarrow> nat \<Rightarrow> nat \<Rightarrow> nat \<Rightarrow> byte list \<Rightarrow> ('z, run_end option) ns_m" where
  "socket_app_task env queue waits sf fuel raw =
     do {
       tell env (NsProgram SetThreading);
       tell env (NsProgram SetNvSeed);
       await_and_run env queue waits (demo_run env sf fuel raw)
     }"

definition seed_read :: "nat option \<Rightarrow> int \<times> byte list" where
  "seed_read buf = (case buf of None \<Rightarrow> (- 1, []) | Some buf_len \<Rightarrow> (0, replicate buf_len 0xA5))"

definition socket_main :: "ns_call env \<Rightarrow> ('z, int) ns_m" where
  "socket_main env =
     do {
       serial \<leftarrow> call env (NsProgram ExampleSerial);
       tell env (NsProgram (SetBaud serial 115200));
       r \<leftarrow> call env (NsProgram KernelInitialize);
       if r \<noteq> osOK then return (- 1)
       else do {
         tell env (NsProgram (LogInit serial));
         queue \<leftarrow> call env (NsOs (OsMessageQueueNew 10 8));
         if queue = 0 then return (- 1)
         else do {
           t \<leftarrow> call env (NsOs (OsThreadNew 0 0 8192 0));
           if t = 0 then return (- 1)
           else do {
             r \<leftarrow> call env (NsProgram StartNetworkTask);
             if r \<noteq> osOK then return (- 1)
             else do {
               st \<leftarrow> call env (NsOs OsKernelGetState);
               if st \<noteq> 1 then return (- 1)
               else do { r \<leftarrow> call env (NsProgram KernelStart); return (if r \<noteq> osOK then - 1 else 0) }
             }
           }
         }
       }
     }"

section \<open>What the request sends\<close>

lemma length_request [simp]: "length http_request = 56"
  by (simp add: http_request_def)

definition honest_send :: "ns_call env \<Rightarrow> bool" where
  "honest_send env \<longleftrightarrow> (\<forall>h i d. ret (env h (NsSend i d)) \<le> int (length d))"

lemma tcp_send_fault: "keeps (\<lambda>s. fault s = b) (tcp_send env fuel d w)"
proof -
  have "keeps (\<lambda>s. fault s = b) (tcp_send_loop env fuel d w v)" for v
    by (induction fuel arbitrary: v) (simp_all add: Let_def, (intro keeps; simp)+)
  then show ?thesis unfolding tcp_send_def by (intro keeps)
qed

text \<open>A piece that was sent in part has a prefix of it sent, of the length that is answered.\<close>

lemma tcp_send_piece:
  assumes "honest_send env" and "length data = unat sz" and "unat sz < 2147483648" and "length (sent_bytes (history s)) = m"
    and "fault s = b"
  shows "wp (tcp_send env fuel data sz)
    (\<lambda>r t. \<exists>k\<le>unat sz. length (sent_bytes (history t)) = m + k \<and> fault t = b \<and> (\<forall>n. r = Some n \<longrightarrow> 0 \<le> n \<longrightarrow> n = int k)) s"
proof -
  have loop: "wp (tcp_send_loop env fuel data sz 0)
    (\<lambda>r t. \<exists>k\<le>unat sz. sent_bytes (history t) = sent_bytes (history s) @ take k data \<and>
      (\<forall>n. r = Some n \<longrightarrow> 0 \<le> n \<longrightarrow> n = int k)) s"
    by (rule tcp_send_loop_prefix) (use assms(1-3) in \<open>simp_all add: honest_send_def\<close>)
  then have "wp (tcp_send env fuel data sz)
    (\<lambda>r t. \<exists>k\<le>unat sz. sent_bytes (history t) = sent_bytes (history s) @ take k data \<and>
      (\<forall>n. r = Some n \<longrightarrow> 0 \<le> n \<longrightarrow> n = int k)) s"
    by (auto simp: tcp_send_def wp)
  from wp_keeps [OF this tcp_send_fault assms(5)] show ?thesis
  proof (rule wp_mono, elim conjE exE)
    fix r and t :: "'a isock_scheme" and k
    assume "k \<le> unat sz" "sent_bytes (history t) = sent_bytes (history s) @ take k data" "fault t = b"
      "\<forall>n. r = Some n \<longrightarrow> 0 \<le> n \<longrightarrow> n = int k"
    then show "\<exists>k\<le>unat sz. length (sent_bytes (history t)) = m + k \<and> fault t = b \<and> (\<forall>n. r = Some n \<longrightarrow> 0 \<le> n \<longrightarrow> n = int k)"
      using assms(2,4) by (intro exI [of _ k]) simp
  qed
qed

lemma request_step:
  assumes "off + uint rest \<le> 56"
  shows "wp (send_request_loop env sf (Suc fuel) off rest) Q s \<longleftrightarrow> (if rest = 0 then Q (Some True) s
    else wp (tcp_send env sf (take (unat rest) (drop (nat off) (http_request @ [0]))) rest) (\<lambda>r.
      wp (case r of None \<Rightarrow> return None
          | Some n \<Rightarrow> if n < 0 then return (Some False) else send_request_loop env sf fuel n (rest - of_int n)) Q) s)"
proof -
  have "\<not> off + uint rest > int (length http_request) + 1" using assms by simp
  then show ?thesis by (simp only: send_request_loop.simps if_False do_if_def wp_bind wp_return wp_if)
qed

lemma request_loop_counts:
  fixes s :: "'z isock_scheme"
  assumes "honest_send env"
  shows "0 \<le> off \<Longrightarrow> off + uint rest \<le> 56 \<Longrightarrow> length (sent_bytes (history s)) + unat rest = m \<Longrightarrow> \<not> fault s \<Longrightarrow>
    wp (send_request_loop env sf fuel off rest)
      (\<lambda>r t. \<not> fault t \<and> length (sent_bytes (history t)) \<le> m \<and> (r = Some True \<longrightarrow> length (sent_bytes (history t)) = m)) s"
proof (induction fuel arbitrary: off rest s)
  case (Suc fuel)
  let ?data = "take (unat rest) (drop (nat off) (http_request @ [0]))"
  have small: "nat off + unat rest \<le> 56"
    using Suc.prems(1,2) uint_nat [of rest] by linarith
  then have data: "length ?data = unat rest" by simp
  have piece: "wp (tcp_send env sf ?data rest) (\<lambda>r t. \<exists>k\<le>unat rest. length (sent_bytes (history t)) = m - unat rest + k \<and>
      fault t = False \<and> (\<forall>n. r = Some n \<longrightarrow> 0 \<le> n \<longrightarrow> n = int k)) s"
    by (rule tcp_send_piece [OF assms data]) (use small Suc.prems(3,4) in auto)
  have next_round: "wp (send_request_loop env sf fuel (int k) (rest - of_nat k))
      (\<lambda>r t. \<not> fault t \<and> length (sent_bytes (history t)) \<le> m \<and> (r = Some True \<longrightarrow> length (sent_bytes (history t)) = m)) t"
    if "k \<le> unat rest" "length (sent_bytes (history t)) = m - unat rest + k" "\<not> fault t" for k and t :: "'z isock_scheme"
  proof -
    have "unat (of_nat k :: u32) = k" using that(1) small by (simp add: unat_of_nat)
    then have u: "unat (rest - of_nat k) = unat rest - k" using that(1) by (simp add: unat_sub word_le_nat_alt)
    have "uint (rest - of_nat k) = int (unat rest - k)" by (simp only: uint_nat u)
    then have "int k + uint (rest - of_nat k) \<le> 56" using that(1) small by linarith
    then show ?thesis using u that Suc.prems(3) by (intro Suc.IH) auto
  qed
  let ?Q = "\<lambda>r t. \<not> fault t \<and> length (sent_bytes (history t)) \<le> m \<and> (r = Some True \<longrightarrow> length (sent_bytes (history t)) = m)"
  have after: "wp (case r of None \<Rightarrow> return None | Some n \<Rightarrow>
      if n < 0 then return (Some False) else send_request_loop env sf fuel n (rest - of_int n)) ?Q t"
    if "\<exists>k\<le>unat rest. length (sent_bytes (history t)) = m - unat rest + k \<and> fault t = False \<and>
      (\<forall>n. r = Some n \<longrightarrow> 0 \<le> n \<longrightarrow> n = int k)" for r and t :: "'z isock_scheme"
    using that next_round Suc.prems(3) by (auto simp: wp_return wp_if split: option.split)
  have "wp (tcp_send env sf ?data rest) (\<lambda>r. wp (case r of None \<Rightarrow> return None | Some n \<Rightarrow>
      if n < 0 then return (Some False) else send_request_loop env sf fuel n (rest - of_int n)) ?Q) s"
    by (rule wp_mono [OF piece]) (rule after)
  moreover have "?Q (Some True) s" if "rest = 0" using that Suc.prems(3,4) by simp
  ultimately show ?case unfolding request_step [OF Suc.prems(2)] by presburger
qed (simp add: wp)

text \<open>
  The request reads nothing outside its array, and when it reports success, it has sent as many bytes as the request has.
\<close>

lemma request_counts:
  assumes "honest_send env" and "\<not> fault s"
  shows "wp (send_http_request env sf fuel) (\<lambda>r t. \<not> fault t \<and>
    (r = Some True \<longrightarrow> length (sent_bytes (history t)) = length (sent_bytes (history s)) + length http_request)) s"
  unfolding send_http_request_def
  by (rule wp_mono [OF request_loop_counts [OF assms(1), where m = "length (sent_bytes (history s)) + 56"]]) (use assms(2) in auto)

text \<open>
  But they need not be the bytes of the request: after a send the offset is the length of the last piece, not of all
  pieces.  With a library that takes twenty bytes at a time the third piece starts at byte 20 again.
\<close>

definition twenty_bytes :: "ns_call env" where
  "twenty_bytes h c = \<lparr>ret = (case c of NsSend i d \<Rightarrow> min 20 (int (length d)) | NsCreate f t p \<Rightarrow> 5 | NsRecv i n \<Rightarrow> 0 | _ \<Rightarrow> 0),
     outs = [0],
     payload = (case c of NsGetHost n f \<Rightarrow> [10, 0, 0, 7] | _ \<Rightarrow> [])\<rparr>"

lemma request_third_piece:
  "wp (send_http_request twenty_bytes 2 4)
    (\<lambda>r t. r = Some True \<and> sent_bytes (history t) = take 40 http_request @ take 16 (drop 20 http_request) \<and>
       sent_bytes (history t) \<noteq> http_request)
    ((tcp_socket 1)\<lparr>socket_opened := True, socket_id := 5, af_type := 1\<rparr>)"
  by code_simp

text \<open>A library that takes all it is given is sent the request.\<close>

lemma request_whole:
  assumes "\<And>h i d. ret (env h (NsSend i d)) = int (length d)" and "socket_id s \<noteq> IOT_SOCKET_ID_INVALID" and "ns_timeout s \<noteq> 0"
  shows "wp (send_http_request env (Suc sf) (Suc (Suc fuel)))
    (\<lambda>r t. r = Some True \<and> sent_bytes (history t) = sent_bytes (history s) @ http_request) s"
proof -
  have "wp (tcp_send env (Suc sf) http_request 56)
    (\<lambda>r t. r = Some 56 \<and> sent_bytes (history t) = sent_bytes (history s) @ http_request) s"
    using assms by (simp add: tcp_send_def wp Let_def error_code_sign not_less)
  moreover have "take 56 (drop 0 (http_request @ [0])) = http_request" by simp
  ultimately show ?thesis
    unfolding send_http_request_def by (simp add: request_step wp) (auto elim!: wp_mono simp: request_step wp)
qed

section \<open>The response\<close>

text \<open>However the answer is cut into pieces, the loop returns: every round with data leaves less room.\<close>

lemma receive_loop_returns:
  fixes s :: "'z isock_scheme"
  shows "nat rest < fuel \<Longrightarrow> wp (receive_loop env fuel buf got rest res) (\<lambda>r _. r \<noteq> None) s"
proof (induction fuel arbitrary: buf got rest res s)
  case (Suc fuel)
  show ?case
  proof (cases "res > 0 \<and> rest > 0")
    case True
    have "wp (receive_loop env fuel b g (rest - n) n) (\<lambda>r _. r \<noteq> None) t" if "0 \<le> n" "fuel > 0" for b g n and t :: "'z isock_scheme"
    proof (cases "n = 0")
      assume "n = 0"
      then show ?thesis using that(2) by (cases fuel) (simp_all add: wp)
    next
      assume "n \<noteq> 0"
      then have "nat (rest - n) < fuel" using that Suc.prems True by linarith
      then show ?thesis by (rule Suc.IH)
    qed
    moreover have "fuel > 0" using Suc.prems True by linarith
    ultimately have "wp (case p of (n, data) \<Rightarrow> if n < 0 then return (Some None)
        else let new = take (nat rest) data; k = nat got in
          receive_loop env fuel (take k buf @ new @ drop (k + length new) buf) (got + n) (rest - n) n) (\<lambda>r _. r \<noteq> None) t"
      for p and t :: "'z isock_scheme"
      unfolding Let_def by (simp add: wp_return split: prod.split)
    then show ?thesis using True by (simp only: receive_loop.simps if_True simp_thms wp_bind) (rule wp_mono [OF wp_total])
  qed (auto simp: wp)
qed (simp add: wp)

lemma receive_returns: "wp (receive_http_response env (Suc 100) raw) (\<lambda>r _. r \<noteq> None) s"
  unfolding receive_http_response_def
  by (rule wp_then [OF receive_loop_returns]) (auto simp: wp split: option.split)

text \<open>A server that closes at once, on a stack with nulls: there is no end of a line to be found.\<close>

lemma empty_response_faults:
  "wp (receive_http_response twenty_bytes 2 [])
    (\<lambda>r t. r = Some True \<and> fault t) ((tcp_socket 1)\<lparr>socket_opened := True, socket_id := 5, af_type := 1\<rparr>)"
  by code_simp

section \<open>The address\<close>

text \<open>Through its text and back the address is the one the host name resolved to.\<close>

lemma resolved_exact:
  assumes "length ip = 4"
  shows "\<exists>a. resolved_address raw ip port = Some a \<and> sa_version a = NSAPI_IPv4 \<and> take 4 (sa_bytes a) = ip \<and> sa_port a = port"
proof -
  obtain c where "set_ip_address (Some (ip4_text ip @ 0 # drop (Suc (length (ip4_text ip))) (pad 16 raw))) unspecified = Some (True, c)"
      "sa_version c = NSAPI_IPv4" "take 4 (sa_bytes c) = ip"
    using parse_ip4_text [OF assms, of unspecified "drop (Suc (length (ip4_text ip))) (pad 16 raw)"]
    by (auto simp: address_ok_def unspecified_def)
  then show ?thesis by (simp add: resolved_address_def ip4tos_text [OF assms] set_port_def)
qed

text \<open>
  A run connects, when it does, only to port 80 of an address that a resolution of the name answered with.
\<close>

fun connects_resolved :: "(ns_call \<times> reply) list \<Rightarrow> bool" where
  "connects_resolved [] = True"
| "connects_resolved ((NsConnect i a n p, r) # h) = (connects_resolved h \<and> n = 4 \<and> p = 80 \<and>
     (\<exists>(c, q) \<in> set h. c = NsGetHost ''ifconfig.io'' IOT_SOCKET_AF_INET \<and> a = Some (pad 4 (payload q))))"
| "connects_resolved (c # h) = connects_resolved h"

abbreviation (input) connected :: "'z isock_scheme \<Rightarrow> bool" where
  "connected s \<equiv> connects_resolved (history s)"

lemma connected_open: "keeps connected (ns_open env v)"
  unfolding ns_open_def ns_lock_def ns_unlock_def by (intro keeps; simp)

lemma connected_exchange: "keeps connected (exchange env sf fuel raw)"
proof -
  have loop: "keeps connected (tcp_send_loop env f d w v)" for f d w v
    by (induction f arbitrary: v) (simp_all add: Let_def, (intro keeps; simp)+)
  then have send: "keeps connected (tcp_send env f d w)" for f d w
    unfolding tcp_send_def by (intro keeps)
  have request: "keeps connected (send_request_loop env sf f off rest)" for f off rest
    by (induction f arbitrary: off rest) (simp_all, (intro conjI impI keeps send; simp)+)
  have recv: "keeps connected (tcp_recv env n)" for n
    unfolding tcp_recv_def by (intro keeps) simp
  have response: "keeps connected (receive_loop env f b g rest n)" for f b g rest n
    by (induction f arbitrary: b g rest n) (simp_all add: Let_def, (intro conjI impI keeps recv; simp)+)
  show ?thesis
    unfolding exchange_def send_http_request_def receive_http_response_def by (intro keeps request response; simp)
qed

lemma connected_connect:
  assumes "connected s" and "(NsGetHost ''ifconfig.io'' IOT_SOCKET_AF_INET, q) \<in> set (history s)"
    and "sa_version a = NSAPI_IPv4" and "take 4 (sa_bytes a) = pad 4 (payload q)" and "sa_port a = 80"
  shows "wp (tcp_connect env a) (\<lambda>_. connected) s"
  using assms by (auto simp: tcp_connect_def verify_socket_type_def ns_lock_def ns_unlock_def get_iot_address_size_def
    get_ip_bytes_def wp Let_def)

lemma run_connects_resolved:
  assumes "connects_resolved (history s)"
  shows "wp (demo_run env sf fuel raw) (\<lambda>_ t. connects_resolved (history t)) s"
proof -
  define host where "host = (NsGetHost ''ifconfig.io'' IOT_SOCKET_AF_INET :: ns_call)"
  have known: "wp (do { result \<leftarrow> tcp_connect env a; if result \<noteq> 0 then return ConnectRefused else exchange env sf fuel raw })
      (\<lambda>_. connected) (t\<lparr>history := (host, q) # history t\<rparr>)"
    if "connected t" "resolved_address raw (pad 4 (payload q)) 80 = Some a" for a q and t :: "'a isock_scheme"
  proof (rule wp_then [OF connected_connect [where q = q]])
    obtain b where "resolved_address raw (pad 4 (payload q)) 80 = Some b" "sa_version b = NSAPI_IPv4"
        "take 4 (sa_bytes b) = pad 4 (payload q)" "sa_port b = 80"
      using resolved_exact [of "pad 4 (payload q)" raw 80] by auto
    then show "sa_version a = NSAPI_IPv4" "take 4 (sa_bytes a) = pad 4 (payload q)" "sa_port a = 80"
      using that(2) by simp_all
  qed (use that(1) in \<open>auto simp: host_def wp intro: keepsD [OF connected_exchange]\<close>)
  show ?thesis
    unfolding demo_run_def
    by (rule wp_seq [OF connected_open assms])
      (auto simp: wp_return wp_if wp_extern wp_crash wp_bind [of "extern _ _"] wp_bind [of crash] wp_case_option host_def [symmetric]
        simp del: wp_bind intro!: known split: option.split, simp_all add: host_def)
qed

end
