(* ===== verification/Spec2Isabelle.thy ===== *)
theory Spec2Isabelle
  imports Ip4_String Ip6_Parse Nx_Driver Socketio_Life Lwip_Stack Ntp_Spec Platform Tick_Counter
    Thread_Api Aws_Client Tls_Spec Sys_Io Pw_Spec Pw_Thread Pw_Options Retarget Kernel_Locks Lwip_Demo
    Socket_Demo
begin

text \<open>
  The C and C++ code of the Open IoT SDK that is its own: a memory manager and two network drivers, two text
  conversions, socket libraries, clients for the time and for the cloud, and backends of Pigweed for an RTOS.

  \<^bold>\<open>How the code is modelled.\<close>  A function of the code is a function here, a record its static data or the
  object it works on.  Two styles occur.  Code on strings and byte arrays runs in the option monad over checked
  memory (\<open>C_Memory\<close>): \<open>None\<close> is an access outside the object.  Code with state runs in the state monad of
  \<open>Extern\<close>; what is not in the repository (the CMSIS-RTOS kernel, the IoT socket library, Mbed TLS, lwIP, NetX,
  the Ethernet and serial drivers, the Azure and AWS SDKs, \<open>malloc\<close>) is a function \<open>env\<close> from the history of all
  calls to an answer, so that a theorem holds for every behaviour of it, and what a theorem relies on is a
  hypothesis about \<open>env\<close> with an example that meets it.  The flag \<open>fault\<close> marks an access that C does not allow
  or a failed check that ends the program.  \<open>C_Heap\<close> is a heap whose allocator picks addresses as \<open>env\<close> says;
  \<open>C_Double\<close> what is used of \<open>double\<close>.  \<open>wp\<close> computes weakest preconditions of a program, \<open>keeps\<close> splits it for
  an invariant, \<open>ensures\<close> for its result.

  \<^bold>\<open>The parts.\<close>
  \<^item> \<open>Ip4_String\<close>, \<open>Ip6_Print\<close>, \<open>Ip6_Parse\<close>: the address conversions of
    \<open>mbed-os-netsocket/common/src/libip4string\<close>, \<open>libip6string\<close>, \<open>libBits\<close>.  Round trips, exact acceptance,
    bounds of what is read and written.
  \<^item> \<open>Net_Buffer\<close>, \<open>Iotsdk_Memory\<close>, \<open>Lwip_Memory\<close>: network buffers.  \<open>Net_Buffer\<close> states the interface a driver
    relies on as the locale \<open>network_buffers\<close>; \<open>Iotsdk_Memory\<close> is \<open>utils/iotsdk_memory_manager.c\<close> with
    \<open>iotsdk_alloc.c\<close>, whose function table interprets it; \<open>Lwip_Memory\<close> is
    \<open>lwip_cmsis_port/src/lwip_memory_manager.c\<close> over pbuf chains.
  \<^item> \<open>Nx_Driver\<close>: the NetX Duo link driver \<open>nx-ip-link-mdh/src/iotsdk/nx_driver_mdh.c\<close>, over any manager with
    that interface: requests of NetX and callbacks of the controller in any order.
  \<^item> \<open>Sys_Arch\<close>, \<open>Lwip_Netif\<close>, \<open>Lwip_Stack\<close>: the lwIP port, \<open>sys_arch.c\<close>, \<open>lwip_emac_netif.c\<close>, \<open>lwip_stack.c\<close>.
    Mailboxes refine bounded queues; waits are not early; received buffers balance; the address choice.
  \<^item> \<open>Tcp_Socket\<close>, \<open>Socketio\<close>, \<open>Socketio_Spec\<close>, \<open>Socketio_Life\<close>: the sockets under the Azure SDK,
    \<open>tcpsocketconnection_openiot.c\<close> and \<open>socketio_openiot.c\<close>.  The queue of pending sends is an abstract list
    that sends, flushes and destruction are proved against.
  \<^item> \<open>Ntp_Client\<close>, \<open>Ntp_Spec\<close>, \<open>Platform\<close>, \<open>Tick_Counter\<close>, \<open>Thread_Api\<close>: \<open>iot_ntp_client.c\<close>,
    \<open>platform_openiot.c\<close> with \<open>ntptime_openiot.c\<close>, \<open>tickcounter_openiot.c\<close>, \<open>threadapi_openiot.c\<close>.
    \<open>Platform\<close> is composed with the model of the client.
  \<^item> \<open>Aws_Network\<close>, \<open>Aws_Client\<close>: \<open>aws_network_manager.c\<close>, a TLS connection with retries that leaks no socket and
    returns, and the program on top of it, \<open>templates/examples/aws-client/main.c\<close>: its clean-up, and the step
    relation of its two threads.
  \<^item> \<open>Socket_Address\<close>, \<open>Netsocket\<close>, \<open>Tls_Socket\<close>, \<open>Tls_Spec\<close>: the sockets of \<open>mbed-os-netsocket/src\<close>.  The
    address object runs the conversions above; the TLS wrapper's state extends that of its transport, and an
    operation on the transport is that of \<open>Netsocket\<close>.  The locale \<open>socket_invariant\<close> carries an assertion
    through all socket operations, \<open>config_invariant\<close> extends it to the wrapper; they are interpreted on the
    ownership of sockets, on the blocks of memory, and four times on the state of the handshake.
  \<^item> \<open>Socket_Demo\<close>, \<open>Lwip_Demo\<close>: two programs under \<open>templates/examples\<close>.  \<open>mbed-os-netsocket/main.cpp\<close> runs the
    model of \<open>TCPSocket\<close> and of the address conversions: what its request sends, that its reception returns, and that
    it connects only to what the name resolved to.  \<open>cmsis-lwip/main.c\<close>: an invariant of all sequences of turns of
    its threads, and what becomes of it when the network is lost.
  \<^item> \<open>Ring_Buffer\<close>, \<open>Sys_Io\<close>: \<open>pw_sys_io_mcu_driver_hal/sys_io_mdh.cc\<close>.  The ring buffer refines a queue that
    loses its oldest elements, the contract \<open>lossy_queue\<close>; output is in order and complete under any interrupts.
  \<^item> \<open>Pw_Base\<close>, \<open>Pw_Chrono\<close>, \<open>Pw_Sync\<close>, \<open>Pw_Spec\<close>, \<open>Pw_Thread\<close>, \<open>Pw_Options\<close>: the Pigweed backends on CMSIS-RTOS,
    \<open>pw_cmsis_rtos_util\<close>, \<open>pw_chrono_cmsis_rtos\<close>, \<open>pw_sync_cmsis_rtos\<close>, \<open>pw_thread_cmsis_rtos\<close>.  The clock widens
    the kernel's ticks exactly; the timer refines an abstract one; the mutex and the notification are interpreted
    as the locale \<open>token\<close>, which verifies runs of operations and polling once; the semaphores count.  The life of a
    thread is a step relation of two threads, with who frees the context and that every run ends.
  \<^item> \<open>Retarget\<close>: standard input and output, \<open>utils/serial_retarget.c\<close> and the functions of both toolchains, which
    write the same.
  \<^item> \<open>Kernel_Locks\<close>: \<open>mbedtls_threading_cmsis_rtos.c\<close>, \<open>os_wrapper_threadx.c\<close> and Pigweed's log
    \<open>pw_log_mdh_backend.c\<close>.  The locale \<open>kernel_object\<close>, a kernel object used only while it exists, is interpreted
    for both kinds of mutexes.

  \<^bold>\<open>Fuel.\<close>  A loop that the environment can keep going takes a number of rounds, and using it up is a value of
  its own, \<open>None\<close> or \<open>False\<close>: the send loops of \<open>Socketio\<close> and \<open>Netsocket\<close>, the input and task loops of lwIP, the
  NTP task, the handshake and the retries of \<open>Aws_Network\<close>, reception and the waits for room in \<open>Sys_Io\<close>, the
  waits of the mutex and the notification in \<open>Pw_Sync\<close>.  A
  theorem on the values that come out is for every fuel.  That such a loop returns, with an explicit number, is
  \<open>send_queue_flush\<close> (the length of the queue), \<open>connect_returns\<close> (the bound of the back-off library) and
  \<open>write_bytes_returns\<close> (the number of bytes); that a run of a thread and its maker ends is \<open>joinable_runs_end\<close>; loops over data the code owns are given enough fuel where they are
  called or are total functions with a measure.

  \<^bold>\<open>Not modelled.\<close>  Logging.  Timing other than tick counts.  Preemption inside a function: each component says what
  its steps are; where an interrupt or another thread can come between, a step of the environment says so.
  The unit tests and the mocks of every component, the configuration headers of Mbed TLS, lwIP, FreeRTOS and
  ThreadX, the platform tables of \<open>utils/platforms\<close> (the addresses of devices), the macros of Pigweed's log backends,
  the other examples under \<open>templates\<close> (glue that calls third-party code), headers that only declare, and the build
  scripts.
  Functions that answer a constant are left out of the components that have them.
\<close>

end
